(* ===== verification/Prelude.thy ===== *)
theory Prelude
  imports Complex_Main "HOL-Library.Word" "HOL-Library.Multiset"
begin

text \<open>
  Shared ground of the development: the collections of simplification rules the component
  theories fill, the decimal grid (the rationals with at most \<open>n\<close> digits after the point) with
  the rounding of the monetary arithmetic, and small facts on lists and options.
\<close>

subsection \<open>Collections\<close>

named_theorems go_simps \<open>equations of the runtime primitives (results, errors, world, telemetry)\<close>
named_theorems domain_simps \<open>unfolding rules of the domain entities\<close>
named_theorems store_simps \<open>equations of the store primitives\<close>

subsection \<open>The decimal grid\<close>

definition on_grid :: "nat \<Rightarrow> rat \<Rightarrow> bool" where
  "on_grid n x \<longleftrightarrow> x * 10 ^ n = of_int \<lfloor>x * 10 ^ n\<rfloor>"

text \<open>Rounding to \<open>n\<close> digits, ties away from zero.\<close>

definition round_places :: "nat \<Rightarrow> rat \<Rightarrow> rat" where
  "round_places n x = sgn x * of_int \<lfloor>\<bar>x\<bar> * 10 ^ n + 1 / 2\<rfloor> / 10 ^ n"

lemma on_gridI: "x * 10 ^ n = of_int k \<Longrightarrow> on_grid n x"
  by (simp add: on_grid_def)

lemma on_gridE:
  assumes "on_grid n x"
  obtains k :: int where "x = of_int k / 10 ^ n"
proof
  have "x * 10 ^ n = of_int \<lfloor>x * 10 ^ n\<rfloor>"
    using assms by (simp add: on_grid_def)
  then show "x = of_int \<lfloor>x * 10 ^ n\<rfloor> / 10 ^ n"
    by (simp add: field_simps)
qed

lemma on_grid_of_int_div [simp, intro]: "on_grid n (of_int k / 10 ^ n)"
  by (rule on_gridI [where k = k]) simp

lemma on_grid_0 [simp, intro]: "on_grid n 0"
  by (simp add: on_grid_def)

lemma on_grid_diff [intro]:
  assumes "on_grid n x" "on_grid n y"
  shows "on_grid n (x - y)"
proof -
  obtain j k :: int where "x = of_int j / 10 ^ n" "y = of_int k / 10 ^ n"
    using assms by (elim on_gridE)
  then have "x - y = of_int (j - k) / 10 ^ n"
    by (simp add: diff_divide_distrib)
  then show ?thesis by (metis on_grid_of_int_div)
qed

lemma on_grid_mult:
  assumes "on_grid m x" "on_grid n y"
  shows "on_grid (m + n) (x * y)"
proof -
  obtain j k :: int where "x = of_int j / 10 ^ m" "y = of_int k / 10 ^ n"
    using assms by (elim on_gridE)
  then have "x * y = of_int (j * k) / 10 ^ (m + n)"
    by (simp add: power_add)
  then show ?thesis by (metis on_grid_of_int_div)
qed

lemma on_grid_mono:
  assumes "on_grid m x" "m \<le> n"
  shows "on_grid n x"
proof -
  obtain j :: int where j: "x = of_int j / 10 ^ m"
    using assms(1) by (rule on_gridE)
  have "(10::rat) ^ n = 10 ^ m * 10 ^ (n - m)"
    using assms(2) by (simp add: power_add [symmetric])
  with j have "x * 10 ^ n = of_int (j * 10 ^ (n - m))"
    by simp
  then show ?thesis by (rule on_gridI)
qed

lemma round_places_0 [simp]: "round_places n 0 = 0"
  by (simp add: round_places_def)

lemma round_places_on_grid [simp, intro]: "on_grid n (round_places n x)"
proof -
  have "round_places n x = of_int (\<lfloor>sgn x\<rfloor> * \<lfloor>\<bar>x\<bar> * 10 ^ n + 1 / 2\<rfloor>) / 10 ^ n"
    by (cases x "0 :: rat" rule: linorder_cases) (simp_all add: round_places_def)
  then show ?thesis by (metis on_grid_of_int_div)
qed

lemma round_places_nonneg_eq:
  "0 \<le> x \<Longrightarrow> round_places n x = of_int \<lfloor>x * 10 ^ n + 1 / 2\<rfloor> / 10 ^ n"
  by (cases "x = 0") (simp_all add: round_places_def sgn_1_pos [THEN iffD2] floor_eq_iff)

lemma round_places_nonneg: "0 \<le> x \<Longrightarrow> 0 \<le> round_places n x"
  by (simp add: round_places_nonneg_eq)

lemma round_places_mono:
  assumes "0 \<le> x" "x \<le> y"
  shows "round_places n x \<le> round_places n y"
proof -
  have "\<lfloor>x * 10 ^ n + 1 / 2\<rfloor> \<le> \<lfloor>y * 10 ^ n + 1 / 2\<rfloor>"
    using assms by (intro floor_mono) simp
  then show ?thesis
    using assms by (simp add: round_places_nonneg_eq divide_right_mono)
qed

lemma round_places_grid:
  assumes "0 \<le> x" "on_grid n x"
  shows "round_places n x = x"
proof -
  obtain k :: int where k: "x = of_int k / 10 ^ n"
    using assms(2) by (rule on_gridE)
  have "\<lfloor>of_int k + 1 / 2 :: rat\<rfloor> = k"
    by (simp add: floor_eq_iff)
  with k assms(1) show ?thesis
    by (simp add: round_places_nonneg_eq)
qed

lemma round_places_error:
  assumes "0 \<le> x"
  shows "\<bar>round_places n x - x\<bar> \<le> 1 / 2 / 10 ^ n"
proof -
  let ?f = "\<lfloor>x * 10 ^ n + 1 / 2\<rfloor>"
  have "of_int ?f \<le> x * 10 ^ n + 1 / 2" "x * 10 ^ n + 1 / 2 < of_int ?f + 1"
    by linarith+
  then have "\<bar>of_int ?f - x * 10 ^ n\<bar> \<le> 1 / 2"
    by linarith
  then have "\<bar>of_int ?f - x * 10 ^ n\<bar> / 10 ^ n \<le> 1 / 2 / 10 ^ n"
    by (rule divide_right_mono) simp
  moreover have "\<bar>of_int ?f - x * 10 ^ n\<bar> / 10 ^ n = \<bar>of_int ?f / 10 ^ n - x\<bar>"
  proof -
    have "of_int ?f / 10 ^ n - x = (of_int ?f - x * 10 ^ n) / (10 ^ n :: rat)"
      by (simp add: diff_divide_distrib)
    then show ?thesis by simp
  qed
  ultimately show ?thesis
    using assms by (simp add: round_places_nonneg_eq)
qed

lemma round_places_le_grid:
  assumes "0 \<le> x" "x \<le> y" "on_grid n y"
  shows "round_places n x \<le> y"
  using round_places_mono [OF assms(1,2), of n] round_places_grid [of y n] assms by simp

subsection \<open>Lists\<close>

lemma list_ex_key: "list_ex (\<lambda>r. f r = x) xs \<longleftrightarrow> x \<in> f ` set xs"
  by (auto simp: list_ex_iff)

lemma list_ex_key2: "list_ex (\<lambda>r. f r = x \<and> g r = y) xs \<longleftrightarrow> (x, y) \<in> (\<lambda>r. (f r, g r)) ` set xs"
  by (auto simp: list_ex_iff)

lemma list_ex_or: "list_ex (\<lambda>r. P r \<or> Q r) xs \<longleftrightarrow> list_ex P xs \<or> list_ex Q xs"
  by (auto simp: list_ex_iff)

lemma sum_list_nonneg_map: "(\<And>x. x \<in> set xs \<Longrightarrow> 0 \<le> f x) \<Longrightarrow> (0::rat) \<le> sum_list (map f xs)"
  by (induction xs) auto

lemma list_all2_in2: "list_all2 R xs ys \<Longrightarrow> y \<in> set ys \<Longrightarrow> \<exists>x \<in> set xs. R x y"
  by (induction rule: list_all2_induct) auto

end
