(* ===== verification/Go_Std.thy ===== *)
theory Go_Std
  imports Prelude
begin

text \<open>
  The Go runtime as the wallet uses it: error values with their wrapping tree
  (\<open>errors.Is\<close>, \<open>fmt.Errorf\<close> with \<open>%w\<close>, \<open>errors.Join\<close>), results with panics,
  \<open>time.Time\<close> with its RFC 3339 text, integers as text, the HTTP status constants, and the
  world a request runs in: the store of the adapters, a counter of the calls that left the
  process (which the clock, the UUID source and the database oracle are functions of), and
  the telemetry emitted so far.  Spans, log records and metric points are events of one list,
  in the order the code emits them.
\<close>

subsection \<open>Errors\<close>

text \<open>
  The sentinels of \<open>internal/domain/errors.go\<close>.
\<close>

datatype sentinel =
    ErrNotFound
  | ErrConcurrencyConflict
  | ErrDuplicate
  | ErrInsufficientPosition

text \<open>
  An error value.  \<open>Wrapped p e\<close> is \<open>fmt.Errorf("p: %w", e)\<close>, \<open>Joined a b\<close> is
  \<open>errors.Join(a, b)\<close> of two non-nil errors, \<open>Opaque t\<close> any error the code knows by its
  text only, \<open>PgError c t\<close> a \<open>*pgconn.PgError\<close> with SQLSTATE \<open>c\<close>, \<open>ErrNoRows\<close> the
  driver's sentinel for an empty result.
\<close>

datatype go_error =
    Sentinel sentinel
  | ValidationError string
  | ErrNoRows
  | PgError string string
  | Opaque string
  | Wrapped string go_error
  | Joined go_error go_error

primrec sentinel_text :: "sentinel \<Rightarrow> string" where
  "sentinel_text ErrNotFound = ''not found''"
| "sentinel_text ErrConcurrencyConflict = ''concurrency conflict''"
| "sentinel_text ErrDuplicate = ''duplicate''"
| "sentinel_text ErrInsufficientPosition = ''insufficient position''"

primrec error_text :: "go_error \<Rightarrow> string" where
  "error_text (Sentinel s) = sentinel_text s"
| "error_text (ValidationError m) = m"
| "error_text ErrNoRows = ''no rows in result set''"
| "error_text (PgError c t) = t"
| "error_text (Opaque t) = t"
| "error_text (Wrapped p e) = p @ '': '' @ error_text e"
| "error_text (Joined a b) = error_text a @ [CHR 0x0A] @ error_text b"

text \<open>\<open>errors.Is\<close> against a sentinel: a walk over the tree of wrapped errors.\<close>

primrec errors_Is :: "go_error \<Rightarrow> sentinel \<Rightarrow> bool" where
  "errors_Is (Sentinel s) t = (s = t)"
| "errors_Is (ValidationError m) t = False"
| "errors_Is ErrNoRows t = False"
| "errors_Is (PgError c m) t = False"
| "errors_Is (Opaque m) t = False"
| "errors_Is (Wrapped p e) t = errors_Is e t"
| "errors_Is (Joined a b) t = (errors_Is a t \<or> errors_Is b t)"

primrec errors_Is_NoRows :: "go_error \<Rightarrow> bool" where
  "errors_Is_NoRows (Sentinel s) = False"
| "errors_Is_NoRows (ValidationError m) = False"
| "errors_Is_NoRows ErrNoRows = True"
| "errors_Is_NoRows (PgError c m) = False"
| "errors_Is_NoRows (Opaque m) = False"
| "errors_Is_NoRows (Wrapped p e) = errors_Is_NoRows e"
| "errors_Is_NoRows (Joined a b) = (errors_Is_NoRows a \<or> errors_Is_NoRows b)"

text \<open>\<open>errors.As\<close> into a \<open>*pgconn.PgError\<close>: the SQLSTATE of the first one in the tree.\<close>

primrec errors_As_PgError :: "go_error \<Rightarrow> string option" where
  "errors_As_PgError (Sentinel s) = None"
| "errors_As_PgError (ValidationError m) = None"
| "errors_As_PgError ErrNoRows = None"
| "errors_As_PgError (PgError c m) = Some c"
| "errors_As_PgError (Opaque m) = None"
| "errors_As_PgError (Wrapped p e) = errors_As_PgError e"
| "errors_As_PgError (Joined a b) =
     (case errors_As_PgError a of None \<Rightarrow> errors_As_PgError b | Some c \<Rightarrow> Some c)"

text \<open>
  What a call gives back: the value with a nil error, a non-nil error, or a panic that
  unwinds the stack.
\<close>

datatype 'a res = Ok 'a | Err go_error | Panicked string

primrec is_Ok :: "'a res \<Rightarrow> bool" where
  "is_Ok (Ok x) = True"
| "is_Ok (Err e) = False"
| "is_Ok (Panicked m) = False"

lemma is_Ok_iff: "is_Ok r \<longleftrightarrow> (\<exists>x. r = Ok x)"
  by (cases r) auto

subsection \<open>Integers as text\<close>

definition digit_char :: "nat \<Rightarrow> char" where
  "digit_char d = char_of (48 + d)"

definition digit_val :: "char \<Rightarrow> nat" where
  "digit_val c = of_char c - 48"

definition is_digit :: "char \<Rightarrow> bool" where
  "is_digit c \<longleftrightarrow> 48 \<le> (of_char c :: nat) \<and> (of_char c :: nat) \<le> 57"

fun itoa :: "nat \<Rightarrow> string" where
  "itoa n = (if n < 10 then [digit_char n] else itoa (n div 10) @ [digit_char (n mod 10)])"

declare itoa.simps [simp del]

fun digits_fixed :: "nat \<Rightarrow> nat \<Rightarrow> string" where
  "digits_fixed 0 n = []"
| "digits_fixed (Suc k) n = digits_fixed k (n div 10) @ [digit_char (n mod 10)]"

definition digits_val :: "string \<Rightarrow> nat" where
  "digits_val s = foldl (\<lambda>a c. 10 * a + digit_val c) 0 s"

lemma digit_val_char [simp]: "d < 10 \<Longrightarrow> digit_val (digit_char d) = d"
  by (simp add: digit_val_def digit_char_def)

lemma is_digit_char [simp]: "d < 10 \<Longrightarrow> is_digit (digit_char d)"
  by (simp add: is_digit_def digit_char_def)

lemma digits_val_snoc [simp]: "digits_val (s @ [c]) = 10 * digits_val s + digit_val c"
  by (simp add: digits_val_def)

lemma digits_val_itoa [simp]: "digits_val (itoa n) = n"
proof (induction n rule: itoa.induct)
  case (1 n)
  show ?case
  proof (cases "n < 10")
    case True
    then show ?thesis by (subst itoa.simps) (simp add: digits_val_def)
  next
    case False
    with 1 show ?thesis by (subst itoa.simps) simp
  qed
qed

lemma itoa_digits: "\<forall>c \<in> set (itoa n). is_digit c"
proof (induction n rule: itoa.induct)
  case (1 n)
  then show ?case by (subst itoa.simps) (auto split: if_splits)
qed

lemma itoa_nonempty [simp]: "itoa n \<noteq> []"
  by (subst itoa.simps) simp

lemma digits_fixed_digits: "\<forall>c \<in> set (digits_fixed k n). is_digit c"
  by (induction k n rule: digits_fixed.induct) auto

lemma length_digits_fixed [simp]: "length (digits_fixed k n) = k"
  by (induction k n rule: digits_fixed.induct) auto

lemma digits_val_fixed: "n < 10 ^ k \<Longrightarrow> digits_val (digits_fixed k n) = n"
proof (induction k n rule: digits_fixed.induct)
  case (1 n)
  then show ?case by (simp add: digits_val_def)
next
  case (2 k n)
  then have "n div 10 < 10 ^ k" by (simp add: less_mult_imp_div_less)
  with 2 show ?case by simp
qed

text \<open>
  \<open>strconv.Quote\<close> (the verb \<open>%q\<close>) on ASCII bytes; a byte of a multi-byte rune is copied, as it
  is for printable runes.
\<close>

definition hex_lower :: "nat \<Rightarrow> char" where
  "hex_lower n = (if n < 10 then char_of (48 + n) else char_of (87 + n))"

definition quote_byte :: "char \<Rightarrow> string" where
  "quote_byte c =
     (let n = (of_char c :: nat); bs = CHR 0x5C in
      if c = CHR 0x22 \<or> c = bs then [bs, c]
      else if n = 7 then [bs, CHR ''a''] else if n = 8 then [bs, CHR ''b'']
      else if n = 12 then [bs, CHR ''f''] else if n = 10 then [bs, CHR ''n'']
      else if n = 13 then [bs, CHR ''r''] else if n = 9 then [bs, CHR ''t'']
      else if n = 11 then [bs, CHR ''v'']
      else if n < 32 \<or> n = 127 then [bs, CHR ''x'', hex_lower (n div 16), hex_lower (n mod 16)]
      else [c])"

definition go_quote :: "string \<Rightarrow> string" where
  "go_quote s = [CHR 0x22] @ concat (map quote_byte s) @ [CHR 0x22]"

subsection \<open>Time\<close>

text \<open>
  \<open>time.Time\<close> without its monotonic reading: Unix seconds, nanoseconds within the second,
  and the offset of its location in seconds east of UTC.
\<close>

record gotime =
  t_sec :: int
  t_nsec :: int
  t_off :: int

definition time_IsZero :: "gotime \<Rightarrow> bool" where
  "time_IsZero t \<longleftrightarrow> t_sec t = -62135596800 \<and> t_nsec t = 0"

definition time_UTC :: "gotime \<Rightarrow> gotime" where
  "time_UTC t = t\<lparr>t_off := 0\<rparr>"

text \<open>\<open>time.Since(start).Milliseconds()\<close> at the instant \<open>t\<close> (truncated towards zero).\<close>

definition millis_between :: "gotime \<Rightarrow> gotime \<Rightarrow> int" where
  "millis_between start t =
     (let d = (t_sec t - t_sec start) * 1000000000 + (t_nsec t - t_nsec start)
      in sgn d * (\<bar>d\<bar> div 1000000))"

text \<open>Civil date of a day number (days since 1970-01-01, proleptic Gregorian).\<close>

definition civil_of_days :: "int \<Rightarrow> int \<times> int \<times> int" where
  "civil_of_days z0 =
     (let z = z0 + 719468;
          era = z div 146097;
          doe = z mod 146097;
          yoe = (doe - doe div 1460 + doe div 36524 - doe div 146096) div 365;
          doy = doe - (365 * yoe + yoe div 4 - yoe div 100);
          mp = (5 * doy + 2) div 153;
          d = doy - (153 * mp + 2) div 5 + 1;
          m = (if mp < 10 then mp + 3 else mp - 9);
          y = yoe + era * 400 + (if m \<le> 2 then 1 else 0)
      in (y, m, d))"

text \<open>\<open>appendInt\<close> of package time: the decimal text, zero-padded to a width.\<close>

definition append_int :: "int \<Rightarrow> nat \<Rightarrow> string" where
  "append_int x w =
     (let s = itoa (nat \<bar>x\<bar>)
      in (if x < 0 then ''-'' else '''') @ replicate (w - length s) CHR ''0'' @ s)"

text \<open>\<open>Format(time.RFC3339)\<close>, layout \<open>2006-01-02T15:04:05Z07:00\<close>.\<close>

definition format_rfc3339 :: "gotime \<Rightarrow> string" where
  "format_rfc3339 t =
     (let s = t_sec t + t_off t;
          (y, mo, d) = civil_of_days (s div 86400);
          r = s mod 86400;
          zone = sgn (t_off t) * (\<bar>t_off t\<bar> div 60)
      in append_int y 4 @ ''-'' @ append_int mo 2 @ ''-'' @ append_int d 2 @ ''T'' @
         append_int (r div 3600) 2 @ '':'' @ append_int (r div 60 mod 60) 2 @ '':'' @
         append_int (r mod 60) 2 @
         (if t_off t = 0 then ''Z''
          else (if zone < 0 then ''-'' else ''+'') @
            append_int (\<bar>zone\<bar> div 60) 2 @ '':'' @ append_int (\<bar>zone\<bar> mod 60) 2))"

subsection \<open>HTTP status constants of \<open>net/http\<close>\<close>

abbreviation (input) StatusOK :: nat where "StatusOK \<equiv> 200"
abbreviation (input) StatusCreated :: nat where "StatusCreated \<equiv> 201"
abbreviation (input) StatusNotFound :: nat where "StatusNotFound \<equiv> 404"
abbreviation (input) StatusMethodNotAllowed :: nat where "StatusMethodNotAllowed \<equiv> 405"
abbreviation (input) StatusConflict :: nat where "StatusConflict \<equiv> 409"
abbreviation (input) StatusUnprocessableEntity :: nat where "StatusUnprocessableEntity \<equiv> 422"
abbreviation (input) StatusInternalServerError :: nat where "StatusInternalServerError \<equiv> 500"

subsection \<open>Identifiers\<close>

text \<open>A \<open>uuid.UUID\<close> is sixteen bytes; \<open>uuid.Nil\<close> is the all-zero one.\<close>

type_synonym uuid = "128 word"

abbreviation (input) uuid_Nil :: uuid where "uuid_Nil \<equiv> 0"

subsection \<open>Telemetry, context and world\<close>

datatype log_level = LevelInfo | LevelWarn | LevelError

datatype attr_val = AStr string | AInt int | ABool bool

type_synonym attrs = "(string \<times> attr_val) list"

datatype span_code = CodeOk | CodeError

datatype tel_event =
    SpanStart string
  | SpanAttr string string string
  | SpanStatus string span_code string
  | SpanRecordError string string
  | SpanEnd string
  | LogRecord attrs log_level string attrs
  | CounterAdd string nat attrs
  | HistogramRecord string int attrs

text \<open>
  The request context: the logger stored under \<open>loggerKey\<close> (a logger is the list of its
  bound attributes), whether a transaction is stored under \<open>txKey\<close>, and the Lambda request
  id if the invocation carries one.
\<close>

record go_ctx =
  ctx_logger :: "attrs option"
  ctx_tx :: bool
  ctx_request_id :: "string option"

record 's world =
  w_store :: 's
  w_tick :: nat
  w_tel :: "tel_event list"
  w_slog :: attrs
  w_cold :: bool

definition emit :: "tel_event list \<Rightarrow> 's world \<Rightarrow> 's world" where
  "emit es w = w\<lparr>w_tel := w_tel w @ es\<rparr>"

definition next_tick :: "'s world \<Rightarrow> 's world" where
  "next_tick w = w\<lparr>w_tick := Suc (w_tick w)\<rparr>"

lemma emit_fields [simp, go_simps]:
  "w_store (emit es w) = w_store w"
  "w_tick (emit es w) = w_tick w"
  "w_tel (emit es w) = w_tel w @ es"
  "w_slog (emit es w) = w_slog w"
  "w_cold (emit es w) = w_cold w"
  by (simp_all add: emit_def)

lemma next_tick_fields [simp, go_simps]:
  "w_store (next_tick w) = w_store w"
  "w_tick (next_tick w) = Suc (w_tick w)"
  "w_tel (next_tick w) = w_tel w"
  "w_slog (next_tick w) = w_slog w"
  "w_cold (next_tick w) = w_cold w"
  by (simp_all add: next_tick_def)

end
