(* ===== verification/Decimal.thy ===== *)
theory Decimal
  imports Go_Std
begin

text \<open>
  The interface of \<open>github.com/shopspring/decimal\<close>, which the wallet does its money arithmetic
  with and whose code is not part of the repository.  Its operations are the fields of a record
  the model takes as an argument; the locale \<open>decimal_arith\<close> states the documented behaviour
  over the rational a decimal denotes: exact sums and products, a quotient rounded to
  \<open>DivisionPrecision = 16\<close> digits with a panic on a zero divisor, rounding half away from zero,
  exact comparisons, and a text form that parses back.  The second half is a reference
  arithmetic on scaled integers that meets the interface.
\<close>

record 'd decimal_lib =
  d_Zero :: 'd
  d_Add :: "'d \<Rightarrow> 'd \<Rightarrow> 'd"
  d_Sub :: "'d \<Rightarrow> 'd \<Rightarrow> 'd"
  d_Mul :: "'d \<Rightarrow> 'd \<Rightarrow> 'd"
  d_Div :: "'d \<Rightarrow> 'd \<Rightarrow> 'd option"
  d_Round :: "'d \<Rightarrow> int \<Rightarrow> 'd"
  d_Min :: "'d \<Rightarrow> 'd \<Rightarrow> 'd"
  d_IsNegative :: "'d \<Rightarrow> bool"
  d_IsPositive :: "'d \<Rightarrow> bool"
  d_LessThan :: "'d \<Rightarrow> 'd \<Rightarrow> bool"
  d_Equal :: "'d \<Rightarrow> 'd \<Rightarrow> bool"
  d_String :: "'d \<Rightarrow> string"
  d_NewFromString :: "string \<Rightarrow> 'd option"

definition decimal_text_char :: "char \<Rightarrow> bool" where
  "decimal_text_char c \<longleftrightarrow> is_digit c \<or> c = CHR ''-'' \<or> c = CHR ''.''"

locale decimal_arith =
  fixes D :: "'d decimal_lib" and val :: "'d \<Rightarrow> rat"
  assumes val_Zero: "val (d_Zero D) = 0"
    and val_Add: "val (d_Add D a b) = val a + val b"
    and val_Sub: "val (d_Sub D a b) = val a - val b"
    and val_Mul: "val (d_Mul D a b) = val a * val b"
    and Div_zero: "val b = 0 \<Longrightarrow> d_Div D a b = None"
    and Div_nonzero: "val b \<noteq> 0 \<Longrightarrow>
      \<exists>q. d_Div D a b = Some q \<and> val q = round_places 16 (val a / val b)"
    and val_Round: "val (d_Round D a (int n)) = round_places n (val a)"
    and val_Min: "val (d_Min D a b) = min (val a) (val b)"
    and IsNegative_iff: "d_IsNegative D a \<longleftrightarrow> val a < 0"
    and IsPositive_iff: "d_IsPositive D a \<longleftrightarrow> 0 < val a"
    and LessThan_iff: "d_LessThan D a b \<longleftrightarrow> val a < val b"
    and Equal_iff: "d_Equal D a b \<longleftrightarrow> val a = val b"
    and NewFromString_String:
      "\<exists>b. d_NewFromString D (d_String D a) = Some b \<and> val b = val a"
    and String_chars: "list_all decimal_text_char (d_String D a) \<and> d_String D a \<noteq> []"
begin

lemmas val_simps = val_Zero val_Add val_Sub val_Mul val_Min
  IsNegative_iff IsPositive_iff LessThan_iff Equal_iff

lemma val_Round_6: "val (d_Round D a 6) = round_places 6 (val a)"
  using val_Round [of a 6] by simp

end

subsection \<open>A reference arithmetic on scaled integers\<close>

text \<open>\<open>(c, s)\<close> denotes \<open>c / 10 ^ s\<close>.\<close>

type_synonym refdec = "int \<times> nat"

fun ref_val :: "refdec \<Rightarrow> rat" where
  "ref_val (c, s) = of_int c / 10 ^ s"

text \<open>The integer nearest to \<open>p / q\<close>, ties away from zero (\<open>0 < q\<close>).\<close>

definition round_div :: "int \<Rightarrow> int \<Rightarrow> int" where
  "round_div p q = sgn p * ((2 * \<bar>p\<bar> + q) div (2 * q))"

fun ref_Add :: "refdec \<Rightarrow> refdec \<Rightarrow> refdec" where
  "ref_Add (a, s) (b, t) = (a * 10 ^ t + b * 10 ^ s, s + t)"

fun ref_Sub :: "refdec \<Rightarrow> refdec \<Rightarrow> refdec" where
  "ref_Sub (a, s) (b, t) = (a * 10 ^ t - b * 10 ^ s, s + t)"

fun ref_Mul :: "refdec \<Rightarrow> refdec \<Rightarrow> refdec" where
  "ref_Mul (a, s) (b, t) = (a * b, s + t)"

fun ref_Div :: "refdec \<Rightarrow> refdec \<Rightarrow> refdec option" where
  "ref_Div (a, s) (b, t) =
     (if b = 0 then None
      else Some (round_div (sgn b * a * 10 ^ t * 10 ^ 16) (\<bar>b\<bar> * 10 ^ s), 16))"

fun ref_Round :: "refdec \<Rightarrow> int \<Rightarrow> refdec" where
  "ref_Round (a, s) n =
     (if 0 \<le> n then (round_div (a * 10 ^ nat n) (10 ^ s), nat n)
      else (round_div a (10 ^ s * 10 ^ nat (- n)) * 10 ^ nat (- n), 0))"

fun ref_less :: "refdec \<Rightarrow> refdec \<Rightarrow> bool" where
  "ref_less (a, s) (b, t) = (a * 10 ^ t < b * 10 ^ s)"

fun ref_equal :: "refdec \<Rightarrow> refdec \<Rightarrow> bool" where
  "ref_equal (a, s) (b, t) = (a * 10 ^ t = b * 10 ^ s)"

text \<open>Text: the coefficient without trailing zeros after the point.\<close>

fun ref_trim :: "nat \<Rightarrow> nat \<Rightarrow> nat \<times> nat" where
  "ref_trim c 0 = (c, 0)"
| "ref_trim c (Suc s) = (if c mod 10 = 0 then ref_trim (c div 10) s else (c, Suc s))"

definition ref_abs_String :: "nat \<Rightarrow> nat \<Rightarrow> string" where
  "ref_abs_String c s =
     itoa (c div 10 ^ s) @ (if s = 0 then '''' else ''.'' @ digits_fixed s (c mod 10 ^ s))"

fun ref_String :: "refdec \<Rightarrow> string" where
  "ref_String (a, s) =
     (if a < 0 then ''-'' else '''') @ (case ref_trim (nat \<bar>a\<bar>) s of (c, t) \<Rightarrow> ref_abs_String c t)"

definition ref_parse_abs :: "string \<Rightarrow> (nat \<times> nat) option" where
  "ref_parse_abs s =
     (let ip = takeWhile is_digit s
      in case dropWhile is_digit s of
           [] \<Rightarrow> if ip = [] then None else Some (digits_val ip, 0)
         | c # fr \<Rightarrow>
             if c = CHR ''.'' \<and> list_all is_digit fr \<and> ip @ fr \<noteq> []
             then Some (digits_val (ip @ fr), length fr) else None)"

fun ref_NewFromString :: "string \<Rightarrow> refdec option" where
  "ref_NewFromString [] = None"
| "ref_NewFromString (c # s) =
     (if c = CHR ''-'' then map_option (\<lambda>(n, k). (- int n, k)) (ref_parse_abs s)
      else if c = CHR ''+'' then map_option (\<lambda>(n, k). (int n, k)) (ref_parse_abs s)
      else map_option (\<lambda>(n, k). (int n, k)) (ref_parse_abs (c # s)))"

definition ref_decimal :: "refdec decimal_lib" where
  "ref_decimal =
     \<lparr>d_Zero = (0, 0), d_Add = ref_Add, d_Sub = ref_Sub, d_Mul = ref_Mul, d_Div = ref_Div,
      d_Round = ref_Round, d_Min = (\<lambda>a b. if ref_less b a then b else a),
      d_IsNegative = (\<lambda>a. fst a < 0), d_IsPositive = (\<lambda>a. 0 < fst a),
      d_LessThan = ref_less, d_Equal = ref_equal,
      d_String = ref_String, d_NewFromString = ref_NewFromString\<rparr>"

subsection \<open>The reference arithmetic meets the interface\<close>

lemma ref_val_scale: "ref_val (a, s) = of_int (a * 10 ^ t) / 10 ^ (s + t)"
  by (simp add: power_add)

lemma ref_val_Add: "ref_val (ref_Add x y) = ref_val x + ref_val y"
  by (cases x; cases y) (simp add: power_add field_simps)

lemma ref_val_Sub: "ref_val (ref_Sub x y) = ref_val x - ref_val y"
  by (cases x; cases y) (simp add: power_add field_simps)

lemma ref_val_Mul: "ref_val (ref_Mul x y) = ref_val x * ref_val y"
  by (cases x; cases y) (simp add: power_add)

lemma ref_less_iff: "ref_less x y \<longleftrightarrow> ref_val x < ref_val y"
proof (cases x; cases y)
  fix a s b t assume xy: "x = (a, s)" "y = (b, t)"
  have "ref_val x < ref_val y \<longleftrightarrow> of_int (a * 10 ^ t) < (of_int (b * 10 ^ s) :: rat)"
    by (simp add: xy field_simps)
  then show ?thesis by (simp only: of_int_less_iff xy ref_less.simps)
qed

lemma ref_equal_iff: "ref_equal x y \<longleftrightarrow> ref_val x = ref_val y"
proof (cases x; cases y)
  fix a s b t assume xy: "x = (a, s)" "y = (b, t)"
  have "ref_val x = ref_val y \<longleftrightarrow> of_int (a * 10 ^ t) = (of_int (b * 10 ^ s) :: rat)"
    by (simp add: xy field_simps)
  then show ?thesis by (simp only: of_int_eq_iff xy ref_equal.simps)
qed

lemma round_div_eq:
  assumes "0 < q"
  shows "of_int (round_div p q) = sgn (of_int p :: rat) * of_int \<lfloor>\<bar>of_int p / of_int q\<bar> + 1 / 2 :: rat\<rfloor>"
proof -
  have "\<bar>of_int p / of_int q\<bar> + 1 / 2 = of_int (2 * \<bar>p\<bar> + q) / (of_int (2 * q) :: rat)"
    using assms by (simp add: field_simps)
  then have "\<lfloor>\<bar>of_int p / of_int q\<bar> + 1 / 2 :: rat\<rfloor> = (2 * \<bar>p\<bar> + q) div (2 * q)"
    by (simp only: floor_divide_of_int_eq)
  then show ?thesis
    by (cases p "0 :: int" rule: linorder_cases) (simp_all add: round_div_def)
qed

lemma round_div_places:
  assumes "0 < q"
  shows "of_int (round_div (p * 10 ^ n) q) / 10 ^ n = round_places n (of_int p / of_int q)"
proof -
  have a: "\<bar>of_int (p * 10 ^ n) / of_int q\<bar> = \<bar>of_int p / of_int q :: rat\<bar> * 10 ^ n"
    by (simp add: abs_mult)
  have s: "sgn (of_int (p * 10 ^ n) :: rat) = sgn (of_int p / of_int q)"
    using assms by (simp add: sgn_mult)
  show ?thesis
    unfolding round_places_def round_div_eq [OF assms] a s ..
qed

lemma ref_Div_zero: "ref_val y = 0 \<Longrightarrow> ref_Div x y = None"
  by (cases x; cases y) simp

lemma ref_Div_nonzero:
  assumes "ref_val y \<noteq> 0"
  shows "\<exists>q. ref_Div x y = Some q \<and> ref_val q = round_places 16 (ref_val x / ref_val y)"
proof (cases x; cases y)
  fix a s b t assume xy: "x = (a, s)" "y = (b, t)"
  with assms have b: "b \<noteq> 0" by simp
  let ?p = "sgn b * a * 10 ^ t" and ?q = "\<bar>b\<bar> * 10 ^ s"
  have "of_int ?p / of_int ?q = ref_val x / ref_val y"
    using b by (cases "0 < b") (simp_all add: xy field_simps)
  with round_div_places [of ?q ?p 16] b
  have "of_int (round_div (?p * 10 ^ 16) ?q) / 10 ^ 16 = round_places 16 (ref_val x / ref_val y)"
    by simp
  with b show ?thesis by (simp add: xy mult.assoc)
qed

lemma ref_val_Round: "ref_val (ref_Round x (int n)) = round_places n (ref_val x)"
  using round_div_places [of "10 ^ snd x" "fst x" n] by (cases x) simp

lemma digits_val_append: "digits_val (s @ t) = digits_val s * 10 ^ length t + digits_val t"
proof (induction t rule: rev_induct)
  case (snoc c t)
  have "digits_val (s @ t @ [c]) = 10 * digits_val (s @ t) + digit_val c"
    using digits_val_snoc [of "s @ t" c] by simp
  with snoc show ?case by (simp add: algebra_simps)
qed (simp add: digits_val_def)

lemma ref_trim_val: "ref_trim c s = (d, t) \<Longrightarrow> of_nat d / 10 ^ t = (of_nat c / 10 ^ s :: rat)"
proof (induction c s arbitrary: d t rule: ref_trim.induct)
  case (2 c s)
  show ?case
  proof (cases "c mod 10 = 0")
    case True
    then have "c = 10 * (c div 10)" by presburger
    then have "(of_nat c :: rat) = 10 * of_nat (c div 10)"
      by (metis of_nat_mult of_nat_numeral)
    with 2 True show ?thesis by simp
  next
    case False
    with 2 show ?thesis by simp
  qed
qed simp

lemma takeWhile_digits: "list_all is_digit ip \<Longrightarrow> \<not> is_digit c \<Longrightarrow>
    takeWhile is_digit (ip @ c # r) = ip \<and> dropWhile is_digit (ip @ c # r) = c # r"
  by (induction ip) auto

lemma ref_parse_abs_String: "ref_parse_abs (ref_abs_String c s) = Some (c, s)"
proof -
  have d: "list_all is_digit (itoa (c div 10 ^ s))"
    using itoa_digits by (simp add: list_all_iff)
  show ?thesis
  proof (cases "s = 0")
    case True
    with d show ?thesis
      by (simp add: ref_parse_abs_def ref_abs_String_def list_all_iff takeWhile_eq_all_conv [THEN iffD2]
          dropWhile_eq_Nil_conv [THEN iffD2])
  next
    case False
    have dot: "\<not> is_digit CHR ''.''" by (simp add: is_digit_def)
    have f: "list_all is_digit (digits_fixed s (c mod 10 ^ s))"
      using digits_fixed_digits by (simp add: list_all_iff)
    have "digits_val (itoa (c div 10 ^ s) @ digits_fixed s (c mod 10 ^ s)) = c"
      by (simp add: digits_val_append digits_val_fixed div_mult_mod_eq)
    with False f takeWhile_digits [OF d dot] show ?thesis
      by (simp add: ref_parse_abs_def ref_abs_String_def)
  qed
qed

lemma ref_abs_String_head:
  "\<exists>x r. ref_abs_String c s = x # r \<and> is_digit x"
  using itoa_digits [of "c div 10 ^ s"] by (cases "itoa (c div 10 ^ s)") (auto simp: ref_abs_String_def)

lemma ref_NewFromString_String:
  "\<exists>y. ref_NewFromString (ref_String x) = Some y \<and> ref_val y = ref_val x"
proof (cases x)
  case (Pair a s)
  obtain d t where t: "ref_trim (nat \<bar>a\<bar>) s = (d, t)" by fastforce
  have v: "of_nat d / 10 ^ t = (of_int \<bar>a\<bar> / 10 ^ s :: rat)"
    using ref_trim_val [OF t] by (simp add: of_nat_nat)
  obtain c r where h: "ref_abs_String d t = c # r" "is_digit c"
    using ref_abs_String_head by blast
  then have "c \<noteq> CHR ''-''" "c \<noteq> CHR ''+''" by (auto simp: is_digit_def)
  moreover have "ref_String x = (if a < 0 then ''-'' else '''') @ c # r"
    unfolding Pair ref_String.simps t prod.case h(1) ..
  ultimately show ?thesis
    using h(1) ref_parse_abs_String [of d t] v by (auto simp: Pair)
qed

lemma ref_String_chars: "list_all decimal_text_char (ref_String x) \<and> ref_String x \<noteq> []"
proof (cases x)
  case (Pair a s)
  obtain d t where t: "ref_trim (nat \<bar>a\<bar>) s = (d, t)" by fastforce
  have "list_all decimal_text_char (ref_abs_String d t) \<and> ref_abs_String d t \<noteq> []"
    using itoa_digits digits_fixed_digits
    by (auto simp: ref_abs_String_def list_all_iff decimal_text_char_def)
  then show ?thesis
    unfolding Pair ref_String.simps t prod.case by (simp add: decimal_text_char_def)
qed

lemma ref_sign_iff: "fst x < 0 \<longleftrightarrow> ref_val x < 0" "0 < fst x \<longleftrightarrow> 0 < ref_val x"
  by (cases x; simp add: divide_less_0_iff zero_less_divide_iff)+

interpretation refd: decimal_arith ref_decimal ref_val
  by unfold_locales
    (simp_all add: ref_decimal_def ref_val_Add ref_val_Sub ref_val_Mul ref_Div_zero ref_Div_nonzero
      ref_val_Round ref_less_iff ref_equal_iff ref_sign_iff ref_NewFromString_String
      ref_String_chars min_def del: split_paired_Ex)

end
