(* ===== verification/Domain.thy ===== *)
theory Domain
  imports Decimal
begin

text \<open>
  The entities and value objects of \<open>internal/domain\<close>: product types, clients, assets, positions
  (deposit lots) and processed commands.  A constructor that calls \<open>uuid.New()\<close> and
  \<open>time.Now()\<close> takes their results as its first arguments \<open>u\<close> and \<open>now\<close>; a mutator returns
  the updated entity.  The last section holds the position invariant, that every constructor
  and mutator establishes or keeps it, and the laws of the derived fields.
\<close>

subsection \<open>Product types (\<open>product_type.go\<close>)\<close>

type_synonym product_type = string

definition validProductTypes :: "product_type list" where
  "validProductTypes = [''CDB'', ''LF'', ''LCI'', ''LCA'', ''CRI'', ''CRA'', ''LFT'']"

definition ValidateProductType :: "product_type \<Rightarrow> unit res" where
  "ValidateProductType pt =
     (if pt \<notin> set validProductTypes
      then Err (ValidationError (''invalid product type: '' @ pt))
      else Ok ())"

subsection \<open>Clients (\<open>client.go\<close>)\<close>

record client =
  cl_clientID :: uuid
  cl_externalID :: string
  cl_createdAt :: gotime

definition NewClient :: "uuid \<Rightarrow> gotime \<Rightarrow> string \<Rightarrow> client res" where
  "NewClient u now externalID =
     (if externalID = '''' then Err (ValidationError ''external_id is required'')
      else Ok \<lparr>cl_clientID = u, cl_externalID = externalID, cl_createdAt = now\<rparr>)"

definition ReconstructClient :: "uuid \<Rightarrow> string \<Rightarrow> gotime \<Rightarrow> client" where
  "ReconstructClient cid ext created =
     \<lparr>cl_clientID = cid, cl_externalID = ext, cl_createdAt = created\<rparr>"

subsection \<open>Assets (\<open>asset.go\<close>)\<close>

record asset =
  as_assetID :: uuid
  as_instrumentID :: string
  as_productType :: product_type
  as_offerID :: string
  as_emissionEntityID :: string
  as_issuerDocumentID :: string
  as_marketCode :: string
  as_assetName :: string
  as_issuanceDate :: gotime
  as_maturityDate :: gotime
  as_createdAt :: gotime

definition validateAssetFields ::
    "string \<Rightarrow> product_type \<Rightarrow> string \<Rightarrow> string \<Rightarrow> gotime \<Rightarrow> gotime \<Rightarrow> unit res" where
  "validateAssetFields instrumentID productType emissionEntityID assetName issuanceDate maturityDate =
     (if instrumentID = '''' then Err (ValidationError ''instrument_id is required'')
      else case ValidateProductType productType of
        Err e \<Rightarrow> Err e
      | Panicked m \<Rightarrow> Panicked m
      | Ok _ \<Rightarrow>
          if emissionEntityID = '''' then Err (ValidationError ''emission_entity_id is required'')
          else if assetName = '''' then Err (ValidationError ''asset_name is required'')
          else if time_IsZero issuanceDate then Err (ValidationError ''issuance_date is required'')
          else if time_IsZero maturityDate then Err (ValidationError ''maturity_date is required'')
          else Ok ())"

definition NewAsset ::
    "uuid \<Rightarrow> gotime \<Rightarrow> string \<Rightarrow> product_type \<Rightarrow> string \<Rightarrow> string \<Rightarrow> string \<Rightarrow> string \<Rightarrow> string \<Rightarrow>
     gotime \<Rightarrow> gotime \<Rightarrow> asset res" where
  "NewAsset u now instrumentID productType offerID emissionEntityID issuerDocumentID marketCode
     assetName issuanceDate maturityDate =
     (case validateAssetFields instrumentID productType emissionEntityID assetName
             issuanceDate maturityDate of
        Err e \<Rightarrow> Err e
      | Panicked m \<Rightarrow> Panicked m
      | Ok _ \<Rightarrow> Ok
          \<lparr>as_assetID = u, as_instrumentID = instrumentID, as_productType = productType,
           as_offerID = offerID, as_emissionEntityID = emissionEntityID,
           as_issuerDocumentID = issuerDocumentID, as_marketCode = marketCode,
           as_assetName = assetName, as_issuanceDate = issuanceDate,
           as_maturityDate = maturityDate, as_createdAt = now\<rparr>)"

definition ReconstructAsset ::
    "uuid \<Rightarrow> string \<Rightarrow> product_type \<Rightarrow> string \<Rightarrow> string \<Rightarrow> string \<Rightarrow> string \<Rightarrow> string \<Rightarrow>
     gotime \<Rightarrow> gotime \<Rightarrow> gotime \<Rightarrow> asset" where
  "ReconstructAsset aid instrumentID productType offerID emissionEntityID issuerDocumentID
     marketCode assetName issuanceDate maturityDate createdAt =
     \<lparr>as_assetID = aid, as_instrumentID = instrumentID, as_productType = productType,
      as_offerID = offerID, as_emissionEntityID = emissionEntityID,
      as_issuerDocumentID = issuerDocumentID, as_marketCode = marketCode,
      as_assetName = assetName, as_issuanceDate = issuanceDate,
      as_maturityDate = maturityDate, as_createdAt = createdAt\<rparr>"

subsection \<open>Positions (\<open>position.go\<close>)\<close>

text \<open>Go's \<open>int\<close> is 64 bits wide on the Lambda platform; \<open>rowVersion++\<close> wraps there.\<close>

record 'd position =
  pos_positionID :: uuid
  pos_clientID :: uuid
  pos_assetID :: uuid
  pos_amount :: 'd
  pos_unitPrice :: 'd
  pos_totalValue :: 'd
  pos_collateralValue :: 'd
  pos_judiciaryCollateralValue :: 'd
  pos_createdAt :: gotime
  pos_updatedAt :: gotime
  pos_purchasedAt :: gotime
  pos_rowVersion :: "64 word"

definition validatePositionAmounts :: "'d decimal_lib \<Rightarrow> 'd \<Rightarrow> 'd \<Rightarrow> unit res" where
  "validatePositionAmounts D amount unitPrice =
     (if d_IsNegative D amount then Err (ValidationError ''amount must be non-negative'')
      else if d_IsNegative D unitPrice then Err (ValidationError ''unit_price must be non-negative'')
      else Ok ())"

definition NewPosition ::
    "'d decimal_lib \<Rightarrow> uuid \<Rightarrow> gotime \<Rightarrow> uuid \<Rightarrow> uuid \<Rightarrow> 'd \<Rightarrow> 'd \<Rightarrow> gotime \<Rightarrow> 'd position res" where
  "NewPosition D u now clientID assetID amount unitPrice purchasedAt =
     (case validatePositionAmounts D amount unitPrice of
        Err e \<Rightarrow> Err e
      | Panicked m \<Rightarrow> Panicked m
      | Ok _ \<Rightarrow> Ok
          \<lparr>pos_positionID = u, pos_clientID = clientID, pos_assetID = assetID,
           pos_amount = amount, pos_unitPrice = unitPrice,
           pos_totalValue = d_Mul D amount unitPrice,
           pos_collateralValue = d_Zero D, pos_judiciaryCollateralValue = d_Zero D,
           pos_createdAt = now, pos_updatedAt = now, pos_purchasedAt = purchasedAt,
           pos_rowVersion = 1\<rparr>)"

definition ReconstructPosition ::
    "'d decimal_lib \<Rightarrow> uuid \<Rightarrow> uuid \<Rightarrow> uuid \<Rightarrow> 'd \<Rightarrow> 'd \<Rightarrow> 'd \<Rightarrow> 'd \<Rightarrow> 'd \<Rightarrow>
     gotime \<Rightarrow> gotime \<Rightarrow> gotime \<Rightarrow> 64 word \<Rightarrow> 'd position res" where
  "ReconstructPosition D positionID clientID assetID amount unitPrice totalValue collateralValue
     judiciaryCollateralValue createdAt updatedAt purchasedAt rowVersion =
     (case validatePositionAmounts D amount unitPrice of
        Err e \<Rightarrow> Err e
      | Panicked m \<Rightarrow> Panicked m
      | Ok _ \<Rightarrow>
          if d_IsNegative D collateralValue
          then Err (ValidationError ''collateral_value must be non-negative'')
          else if d_IsNegative D judiciaryCollateralValue
          then Err (ValidationError ''judiciary_collateral_value must be non-negative'')
          else if \<not> d_Equal D totalValue (d_Mul D amount unitPrice)
          then Err (ValidationError
            (''total_value must equal amount '' @ [CHR 0xC3, CHR 0x97] @ '' unit_price''))
          else Ok
            \<lparr>pos_positionID = positionID, pos_clientID = clientID, pos_assetID = assetID,
             pos_amount = amount, pos_unitPrice = unitPrice, pos_totalValue = totalValue,
             pos_collateralValue = collateralValue,
             pos_judiciaryCollateralValue = judiciaryCollateralValue,
             pos_createdAt = createdAt, pos_updatedAt = updatedAt,
             pos_purchasedAt = purchasedAt, pos_rowVersion = rowVersion\<rparr>)"

definition AvailableValue :: "'d decimal_lib \<Rightarrow> 'd position \<Rightarrow> 'd" where
  "AvailableValue D p =
     d_Sub D (d_Sub D (pos_totalValue p) (pos_collateralValue p)) (pos_judiciaryCollateralValue p)"

definition UpdateAmount :: "'d decimal_lib \<Rightarrow> gotime \<Rightarrow> 'd position \<Rightarrow> 'd \<Rightarrow> 'd position res" where
  "UpdateAmount D now p newAmount =
     (if d_IsNegative D newAmount then Err (ValidationError ''amount must be non-negative'')
      else Ok (p\<lparr>pos_amount := newAmount,
                 pos_totalValue := d_Mul D newAmount (pos_unitPrice p),
                 pos_rowVersion := pos_rowVersion p + 1,
                 pos_updatedAt := now\<rparr>))"

definition UpdateCollateral :: "'d decimal_lib \<Rightarrow> gotime \<Rightarrow> 'd position \<Rightarrow> 'd \<Rightarrow> 'd position res" where
  "UpdateCollateral D now p collateral =
     (if d_IsNegative D collateral
      then Err (ValidationError ''collateral_value must be non-negative'')
      else Ok (p\<lparr>pos_collateralValue := collateral,
                 pos_rowVersion := pos_rowVersion p + 1,
                 pos_updatedAt := now\<rparr>))"

definition UpdateJudiciaryCollateral ::
    "'d decimal_lib \<Rightarrow> gotime \<Rightarrow> 'd position \<Rightarrow> 'd \<Rightarrow> 'd position res" where
  "UpdateJudiciaryCollateral D now p judiciaryCollateral =
     (if d_IsNegative D judiciaryCollateral
      then Err (ValidationError ''judiciary_collateral_value must be non-negative'')
      else Ok (p\<lparr>pos_judiciaryCollateralValue := judiciaryCollateral,
                 pos_rowVersion := pos_rowVersion p + 1,
                 pos_updatedAt := now\<rparr>))"

subsection \<open>Processed commands (\<open>processed_command.go\<close>)\<close>

record processed_command =
  pc_commandID :: uuid
  pc_commandType :: string
  pc_orderID :: string
  pc_clientID :: uuid
  pc_responseSnapshot :: string
  pc_createdAt :: gotime

definition NewProcessedCommand ::
    "uuid \<Rightarrow> gotime \<Rightarrow> string \<Rightarrow> string \<Rightarrow> uuid \<Rightarrow> string \<Rightarrow> processed_command res" where
  "NewProcessedCommand u now commandType orderID clientID responseSnapshot =
     (if commandType = '''' then Err (ValidationError ''command_type is required'')
      else if orderID = '''' then Err (ValidationError ''order_id is required'')
      else if clientID = uuid_Nil then Err (ValidationError ''client_id is required'')
      else if length responseSnapshot = 0
      then Err (ValidationError ''response_snapshot is required'')
      else Ok \<lparr>pc_commandID = u, pc_commandType = commandType, pc_orderID = orderID,
               pc_clientID = clientID, pc_responseSnapshot = responseSnapshot,
               pc_createdAt = now\<rparr>)"

definition ReconstructProcessedCommand ::
    "uuid \<Rightarrow> string \<Rightarrow> string \<Rightarrow> uuid \<Rightarrow> string \<Rightarrow> gotime \<Rightarrow> processed_command" where
  "ReconstructProcessedCommand commandID commandType orderID clientID responseSnapshot createdAt =
     \<lparr>pc_commandID = commandID, pc_commandType = commandType, pc_orderID = orderID,
      pc_clientID = clientID, pc_responseSnapshot = responseSnapshot, pc_createdAt = createdAt\<rparr>"

subsection \<open>The position invariant\<close>

definition position_inv :: "('d \<Rightarrow> rat) \<Rightarrow> 'd position \<Rightarrow> bool" where
  "position_inv val p \<longleftrightarrow>
     0 \<le> val (pos_amount p) \<and> 0 \<le> val (pos_unitPrice p) \<and>
     0 \<le> val (pos_collateralValue p) \<and> 0 \<le> val (pos_judiciaryCollateralValue p) \<and>
     val (pos_totalValue p) = val (pos_amount p) * val (pos_unitPrice p)"

text \<open>The value a lot has free: what its holdings are worth less what is blocked on them.\<close>

definition free_value :: "('d \<Rightarrow> rat) \<Rightarrow> 'd position \<Rightarrow> rat" where
  "free_value val p =
     val (pos_totalValue p) - val (pos_collateralValue p) - val (pos_judiciaryCollateralValue p)"

lemmas [domain_simps] = validatePositionAmounts_def NewPosition_def ReconstructPosition_def
  UpdateAmount_def UpdateCollateral_def UpdateJudiciaryCollateral_def

context decimal_arith begin

lemma val_AvailableValue: "val (AvailableValue D p) = free_value val p"
  by (simp add: AvailableValue_def free_value_def val_simps)

lemma NewPosition_inv: "NewPosition D u now c a amt pr t = Ok p \<Longrightarrow> position_inv val p"
  by (auto simp: domain_simps position_inv_def val_simps split: res.splits if_splits)

lemma ReconstructPosition_Ok_iff:
  "(\<exists>p. ReconstructPosition D i c a amt pr tot col jud cr up pu rv = Ok p) \<longleftrightarrow>
     0 \<le> val amt \<and> 0 \<le> val pr \<and> 0 \<le> val col \<and> 0 \<le> val jud \<and> val tot = val amt * val pr"
  by (auto simp: domain_simps val_simps not_less split: res.splits if_splits)

lemma ReconstructPosition_inv:
  "ReconstructPosition D i c a amt pr tot col jud cr up pu rv = Ok p \<Longrightarrow> position_inv val p"
  by (auto simp: domain_simps position_inv_def val_simps split: res.splits if_splits)

lemma UpdateAmount_Ok_iff:
  "(\<exists>q. UpdateAmount D now p n = Ok q) \<longleftrightarrow> 0 \<le> val n"
  by (auto simp: domain_simps val_simps not_less)

lemma UpdateAmount_inv: "UpdateAmount D now p n = Ok q \<Longrightarrow> position_inv val p \<Longrightarrow> position_inv val q"
  by (auto simp: domain_simps position_inv_def val_simps split: if_splits)

lemma UpdateCollateral_inv:
  "UpdateCollateral D now p n = Ok q \<Longrightarrow> position_inv val p \<Longrightarrow> position_inv val q"
  by (auto simp: domain_simps position_inv_def val_simps split: if_splits)

lemma UpdateJudiciaryCollateral_inv:
  "UpdateJudiciaryCollateral D now p n = Ok q \<Longrightarrow> position_inv val p \<Longrightarrow> position_inv val q"
  by (auto simp: domain_simps position_inv_def val_simps split: if_splits)

lemma available_pos_price:
  assumes "position_inv val p" "0 < free_value val p"
  shows "0 < val (pos_unitPrice p)" "0 < val (pos_amount p)"
proof -
  have "0 < val (pos_amount p) * val (pos_unitPrice p)"
    using assms by (auto simp: position_inv_def free_value_def)
  with assms(1) show "0 < val (pos_unitPrice p)" "0 < val (pos_amount p)"
    by (auto simp: position_inv_def zero_less_mult_iff)
qed

lemma free_le_total: "position_inv val p \<Longrightarrow> free_value val p \<le> val (pos_amount p) * val (pos_unitPrice p)"
  by (auto simp: position_inv_def free_value_def)

end

end
