(* ===== verification/Ports.thy ===== *)
theory Ports
  imports Domain
begin

text \<open>
  The interfaces of \<open>internal/ports\<close> as records of operations over an adapter store \<open>'s\<close>, the
  outside services a request reads (clock, UUID source and text form, decimal library, the texts
  of a JSON and of a decimal syntax error), the context-bound logger of \<open>internal/platform/logger.go\<close>, and the span
  helpers of \<open>internal/application\<close>.
\<close>

subsection \<open>The surroundings of a request\<close>

record 'd env =
  e_dec :: "'d decimal_lib"
  e_now :: "nat \<Rightarrow> gotime"
  e_uuidNew :: "nat \<Rightarrow> uuid"
  e_uuidParse :: "string \<Rightarrow> uuid option"
  e_uuidString :: "uuid \<Rightarrow> string"
  e_jsonErr :: "string \<Rightarrow> string"
  e_decErr :: "string \<Rightarrow> string"

definition time_Now :: "'d env \<Rightarrow> 's world \<Rightarrow> gotime \<times> 's world" where
  "time_Now E w = (e_now E (w_tick w), next_tick w)"

definition uuid_New :: "'d env \<Rightarrow> 's world \<Rightarrow> uuid \<times> 's world" where
  "uuid_New E w = (e_uuidNew E (w_tick w), next_tick w)"

subsection \<open>Ports\<close>

type_synonym ('a, 's) action = "'s world \<Rightarrow> 'a res \<times> 's world"

record 's client_repository =
  cr_FindByID :: "go_ctx \<Rightarrow> uuid \<Rightarrow> (client, 's) action"
  cr_Create :: "go_ctx \<Rightarrow> client \<Rightarrow> (unit, 's) action"

record 's asset_repository =
  ar_FindByID :: "go_ctx \<Rightarrow> uuid \<Rightarrow> (asset, 's) action"
  ar_FindByInstrumentID :: "go_ctx \<Rightarrow> string \<Rightarrow> (asset, 's) action"
  ar_Create :: "go_ctx \<Rightarrow> asset \<Rightarrow> (unit, 's) action"

record ('d, 's) position_repository =
  pr_FindByID :: "go_ctx \<Rightarrow> uuid \<Rightarrow> ('d position, 's) action"
  pr_FindByClientAndAsset :: "go_ctx \<Rightarrow> uuid \<Rightarrow> uuid \<Rightarrow> ('d position list, 's) action"
  pr_FindByClientAndInstrument :: "go_ctx \<Rightarrow> uuid \<Rightarrow> string \<Rightarrow> ('d position list, 's) action"
  pr_Create :: "go_ctx \<Rightarrow> 'd position \<Rightarrow> (unit, 's) action"
  pr_Update :: "go_ctx \<Rightarrow> 'd position \<Rightarrow> (unit, 's) action"

record 's processed_command_repository =
  pcr_FindByTypeAndOrderID :: "go_ctx \<Rightarrow> string \<Rightarrow> string \<Rightarrow> (processed_command, 's) action"
  pcr_Create :: "go_ctx \<Rightarrow> processed_command \<Rightarrow> (unit, 's) action"

text \<open>
  \<open>Do(ctx, fn)\<close>: what \<open>fn\<close> leaves in a captured variable of its caller is the value it
  returns here.
\<close>

record ('a, 's) unit_of_work =
  uow_Do :: "go_ctx \<Rightarrow> (go_ctx \<Rightarrow> ('a, 's) action) \<Rightarrow> ('a, 's) action"

subsection \<open>Logger and spans\<close>

definition WithLogger :: "go_ctx \<Rightarrow> attrs \<Rightarrow> go_ctx" where
  "WithLogger ctx logger = ctx\<lparr>ctx_logger := Some logger\<rparr>"

definition LoggerFromContext :: "go_ctx \<Rightarrow> 's world \<Rightarrow> attrs" where
  "LoggerFromContext ctx w = (case ctx_logger ctx of Some logger \<Rightarrow> logger | None \<Rightarrow> w_slog w)"

definition spanOK :: "string \<Rightarrow> string \<Rightarrow> 's world \<Rightarrow> 's world" where
  "spanOK sp outcome w =
     emit [SpanAttr sp ''wallet.outcome'' outcome, SpanStatus sp CodeOk ''''] w"

definition spanError :: "string \<Rightarrow> go_error \<Rightarrow> 's world \<Rightarrow> 's world" where
  "spanError sp err w =
     emit [SpanAttr sp ''wallet.outcome'' ''failed'', SpanStatus sp CodeError (error_text err),
           SpanRecordError sp (error_text err)] w"

lemma span_fields [simp, go_simps]:
  "w_store (spanOK sp oc w) = w_store w" "w_tick (spanOK sp oc w) = w_tick w"
  "w_store (spanError sp e w) = w_store w" "w_tick (spanError sp e w) = w_tick w"
  by (simp_all add: spanOK_def spanError_def)

lemma draw_fields [simp, go_simps]:
  "w_store (snd (time_Now E w)) = w_store w" "w_store (snd (uuid_New E w)) = w_store w"
  "fst (time_Now E w) = e_now E (w_tick w)" "fst (uuid_New E w) = e_uuidNew E (w_tick w)"
  by (simp_all add: time_Now_def uuid_New_def)

text \<open>
  What a service call gives its handler: a response with a status, a status with an error (and
  a nil response), or a panic.
\<close>

datatype 'r exec = Success 'r nat | Failure nat go_error | Crashed string

lemma WithLogger_LoggerFromContext: "LoggerFromContext (WithLogger ctx l) w = l"
  by (simp add: WithLogger_def LoggerFromContext_def)

end
