(* ===== verification/Json.thy ===== *)
theory Json
  imports Go_Std
begin

text \<open>
  The part of \<open>encoding/json\<close> the wallet uses: compact encoding with the escapes of
  \<open>json.Marshal\<close>, a parser for the grammar \<open>json.Unmarshal\<close> accepts (with its nesting limit and
  its treatment of escapes, surrogates and malformed UTF-8), and the decoding of an object into
  a struct of strings (unknown members skipped, names matched up to case folding, \<open>null\<close> left
  alone, the last occurrence winning, any other kind of value a type error).  A \<open>string\<close> is
  the list of its UTF-8 bytes, as in Go.  The theorems: the fuel of the parser never runs out,
  and parsing what the encoder prints gives the value back.
\<close>

datatype json =
    JNull
  | JBool bool
  | JNum string
  | JStr string
  | JArr "json list"
  | JObj "(string \<times> json) list"

abbreviation (input) byte :: "char \<Rightarrow> nat" where "byte c \<equiv> of_char c"

subsection \<open>UTF-8\<close>

definition in_range :: "nat \<Rightarrow> nat \<Rightarrow> char \<Rightarrow> bool" where
  "in_range lo hi c \<longleftrightarrow> lo \<le> byte c \<and> byte c \<le> hi"

abbreviation (input) cont_byte :: "char \<Rightarrow> bool" where "cont_byte \<equiv> in_range 0x80 0xBF"

text \<open>Length of the well-formed multi-byte sequence at the head, 0 if there is none.\<close>

definition utf8_len :: "string \<Rightarrow> nat" where
  "utf8_len s =
     (case s of
        a # b # r \<Rightarrow>
          if in_range 0xC2 0xDF a \<and> cont_byte b then 2
          else (case r of
            c # r' \<Rightarrow>
              if cont_byte c \<and>
                 (byte a = 0xE0 \<and> in_range 0xA0 0xBF b \<or>
                  (in_range 0xE1 0xEC a \<or> in_range 0xEE 0xEF a) \<and> cont_byte b \<or>
                  byte a = 0xED \<and> in_range 0x80 0x9F b) then 3
              else (case r' of
                d # _ \<Rightarrow>
                  if cont_byte c \<and> cont_byte d \<and>
                     (byte a = 0xF0 \<and> in_range 0x90 0xBF b \<or>
                      in_range 0xF1 0xF3 a \<and> cont_byte b \<or>
                      byte a = 0xF4 \<and> in_range 0x80 0x8F b) then 4 else 0
              | [] \<Rightarrow> 0)
          | [] \<Rightarrow> 0)
      | _ \<Rightarrow> 0)"

definition utf8_encode :: "nat \<Rightarrow> string" where
  "utf8_encode u =
     (if u < 0x80 then [char_of u]
      else if u < 0x800 then [char_of (0xC0 + u div 64), char_of (0x80 + u mod 64)]
      else if u < 0x10000
      then [char_of (0xE0 + u div 4096), char_of (0x80 + u div 64 mod 64), char_of (0x80 + u mod 64)]
      else [char_of (0xF0 + u div 262144), char_of (0x80 + u div 4096 mod 64),
            char_of (0x80 + u div 64 mod 64), char_of (0x80 + u mod 64)])"

definition replacement :: string where
  "replacement = [CHR 0xEF, CHR 0xBF, CHR 0xBD]"

subsection \<open>Encoding\<close>

definition hex_digit :: "nat \<Rightarrow> char" where
  "hex_digit n = (if n < 10 then char_of (48 + n) else char_of (87 + n))"

text \<open>\<open>appendString\<close> with HTML escaping, as \<open>json.Marshal\<close> calls it.\<close>

definition escape_ascii :: "char \<Rightarrow> string" where
  "escape_ascii c =
     (if c = CHR 0x22 \<or> c = CHR 0x5C then [CHR 0x5C, c]
      else if byte c = 8 then [CHR 0x5C, CHR ''b'']
      else if byte c = 12 then [CHR 0x5C, CHR ''f'']
      else if byte c = 10 then [CHR 0x5C, CHR ''n'']
      else if byte c = 13 then [CHR 0x5C, CHR ''r'']
      else if byte c = 9 then [CHR 0x5C, CHR ''t'']
      else if byte c < 0x20 \<or> c = CHR ''<'' \<or> c = CHR ''>'' \<or> c = CHR 0x26
      then [CHR 0x5C, CHR ''u'', CHR ''0'', CHR ''0'', hex_digit (byte c div 16), hex_digit (byte c mod 16)]
      else [c])"

function escape_string :: "string \<Rightarrow> string" where
  "escape_string [] = []"
| "escape_string (c # s) =
     (if byte c < 0x80 then escape_ascii c @ escape_string s
      else let k = utf8_len (c # s) in
        if k = 0 then [CHR 0x5C, CHR ''u'', CHR ''f'', CHR ''f'', CHR ''f'', CHR ''d''] @ escape_string s
        else (let q = take k (c # s) in
          (if q = [CHR 0xE2, CHR 0x80, CHR 0xA8]
           then [CHR 0x5C, CHR ''u'', CHR ''2'', CHR ''0'', CHR ''2'', CHR ''8'']
           else if q = [CHR 0xE2, CHR 0x80, CHR 0xA9]
           then [CHR 0x5C, CHR ''u'', CHR ''2'', CHR ''0'', CHR ''2'', CHR ''9'']
           else q) @ escape_string (drop (k - 1) s)))"
  by pat_completeness auto
termination
  by (relation "measure length") auto

definition print_string :: "string \<Rightarrow> string" where
  "print_string s = [CHR 0x22] @ escape_string s @ [CHR 0x22]"

text \<open>Separated concatenation, as the array, struct and map encoders write it.\<close>

fun comma_join :: "string list \<Rightarrow> string" where
  "comma_join [] = []"
| "comma_join [x] = x"
| "comma_join (x # y # xs) = x @ '','' @ comma_join (y # xs)"

fun json_print :: "json \<Rightarrow> string" where
  "json_print JNull = ''null''"
| "json_print (JBool b) = (if b then ''true'' else ''false'')"
| "json_print (JNum t) = t"
| "json_print (JStr s) = print_string s"
| "json_print (JArr vs) = ''['' @ comma_join (map json_print vs) @ '']''"
| "json_print (JObj ms) =
     ''{'' @ comma_join (map (\<lambda>(k, v). print_string k @ '':'' @ json_print v) ms) @ ''}''"

subsection \<open>Parsing\<close>

definition is_ws :: "char \<Rightarrow> bool" where
  "is_ws c \<longleftrightarrow> c = CHR '' '' \<or> byte c = 9 \<or> byte c = 10 \<or> byte c = 13"

definition skip_ws :: "string \<Rightarrow> string" where
  "skip_ws s = dropWhile is_ws s"

definition hex_val :: "char \<Rightarrow> nat option" where
  "hex_val c =
     (if is_digit c then Some (byte c - 48)
      else if in_range 97 102 c then Some (byte c - 87)
      else if in_range 65 70 c then Some (byte c - 55)
      else None)"

definition parse_u4 :: "string \<Rightarrow> (nat \<times> string) option" where
  "parse_u4 s =
     (case s of
        a # b # c # d # r \<Rightarrow>
          (case (hex_val a, hex_val b, hex_val c, hex_val d) of
             (Some x, Some y, Some z, Some w) \<Rightarrow> Some (((x * 16 + y) * 16 + z) * 16 + w, r)
           | _ \<Rightarrow> None)
      | _ \<Rightarrow> None)"

text \<open>The second half of a surrogate pair, where the text has one.\<close>

definition low_surrogate :: "nat \<Rightarrow> string \<Rightarrow> (nat \<times> string) option" where
  "low_surrogate u s =
     (case s of
        a # b # r \<Rightarrow>
          if 0xD800 \<le> u \<and> u < 0xDC00 \<and> a = CHR 0x5C \<and> b = CHR ''u''
          then (case parse_u4 r of
              Some (v, r') \<Rightarrow>
                if 0xDC00 \<le> v \<and> v < 0xE000
                then Some ((u - 0xD800) * 1024 + (v - 0xDC00) + 0x10000, r') else None
            | None \<Rightarrow> None)
          else None
      | _ \<Rightarrow> None)"

definition simple_escape :: "char \<Rightarrow> char option" where
  "simple_escape e =
     (if e = CHR 0x22 \<or> e = CHR 0x5C \<or> e = CHR ''/'' then Some e
      else if e = CHR ''b'' then Some (CHR 0x08)
      else if e = CHR ''f'' then Some (CHR 0x0C)
      else if e = CHR ''n'' then Some (CHR 0x0A)
      else if e = CHR ''r'' then Some (CHR 0x0D)
      else if e = CHR ''t'' then Some (CHR 0x09)
      else None)"

definition prepend :: "string \<Rightarrow> (string \<times> string) option \<Rightarrow> (string \<times> string) option" where
  "prepend p x = map_option (\<lambda>(s, r). (p @ s, r)) x"

lemma parse_u4_length: "parse_u4 s = Some (u, r) \<Longrightarrow> length r < length s"
  by (auto simp: parse_u4_def split: list.splits option.splits)

lemma low_surrogate_length: "low_surrogate u s = Some (v, r) \<Longrightarrow> length r < length s"
  by (auto simp: low_surrogate_def split: list.splits option.splits if_splits dest!: parse_u4_length)

text \<open>The rest of a string literal after its opening quote.\<close>

function parse_str :: "string \<Rightarrow> (string \<times> string) option" where
  "parse_str [] = None"
| "parse_str (c # s) =
     (if c = CHR 0x22 then Some ([], s)
      else if c = CHR 0x5C then
        (case s of
           [] \<Rightarrow> None
         | e # r \<Rightarrow>
             if e = CHR ''u'' then
               (case parse_u4 r of
                  None \<Rightarrow> None
                | Some (u, r') \<Rightarrow>
                    if 0xD800 \<le> u \<and> u < 0xE000 then
                      (case low_surrogate u r' of
                         Some (v, r'') \<Rightarrow> prepend (utf8_encode v) (parse_str r'')
                       | None \<Rightarrow> prepend replacement (parse_str r'))
                    else prepend (utf8_encode u) (parse_str r'))
             else (case simple_escape e of
                 None \<Rightarrow> None
               | Some b \<Rightarrow> prepend [b] (parse_str r)))
      else if byte c < 0x20 then None
      else if byte c < 0x80 then prepend [c] (parse_str s)
      else if utf8_len (c # s) = 0 then prepend replacement (parse_str s)
      else prepend (take (utf8_len (c # s)) (c # s)) (parse_str (drop (utf8_len (c # s) - 1) s)))"
  by pat_completeness auto
termination
  by (relation "measure length") (auto dest!: parse_u4_length low_surrogate_length)

text \<open>A number token.\<close>

definition lex_int :: "string \<Rightarrow> (string \<times> string) option" where
  "lex_int s =
     (case s of
        [] \<Rightarrow> None
      | c # r \<Rightarrow>
          if c = CHR ''0'' then Some ([c], r)
          else if is_digit c then Some (takeWhile is_digit s, dropWhile is_digit s)
          else None)"

definition lex_frac :: "string \<Rightarrow> (string \<times> string) option" where
  "lex_frac s =
     (case s of
        c # r \<Rightarrow>
          if c = CHR ''.'' then
            (if takeWhile is_digit r = [] then None
             else Some (c # takeWhile is_digit r, dropWhile is_digit r))
          else Some ([], s)
      | [] \<Rightarrow> Some ([], []))"

definition lex_exp :: "string \<Rightarrow> (string \<times> string) option" where
  "lex_exp s =
     (case s of
        c # r \<Rightarrow>
          if c = CHR ''e'' \<or> c = CHR ''E'' then
            (let (sg, q) = (case r of
                 x # r' \<Rightarrow> if x = CHR ''+'' \<or> x = CHR ''-'' then ([x], r') else ([], r)
               | [] \<Rightarrow> ([], r))
             in if takeWhile is_digit q = [] then None
                else Some (c # sg @ takeWhile is_digit q, dropWhile is_digit q))
          else Some ([], s)
      | [] \<Rightarrow> Some ([], []))"

definition lex_number :: "string \<Rightarrow> (string \<times> string) option" where
  "lex_number s =
     (let (sg, s1) = (case s of
          c # r \<Rightarrow> if c = CHR ''-'' then ([c], r) else ([], s)
        | [] \<Rightarrow> ([], s))
      in case lex_int s1 of
           None \<Rightarrow> None
         | Some (i, s2) \<Rightarrow>
             (case lex_frac s2 of
                None \<Rightarrow> None
              | Some (f, s3) \<Rightarrow>
                  (case lex_exp s3 of
                     None \<Rightarrow> None
                   | Some (e, s4) \<Rightarrow> Some (sg @ i @ f @ e, s4))))"

text \<open>A member's key up to and including the colon.\<close>

definition parse_key :: "string \<Rightarrow> (string \<times> string) option" where
  "parse_key s =
     (case skip_ws s of
        [] \<Rightarrow> None
      | q # r \<Rightarrow>
          if q \<noteq> CHR 0x22 then None
          else (case parse_str r of
              None \<Rightarrow> None
            | Some (k, r1) \<Rightarrow>
                (case skip_ws r1 of
                   [] \<Rightarrow> None
                 | c # r2 \<Rightarrow> if c = CHR '':'' then Some (k, r2) else None)))"

definition maxNestingDepth :: nat where
  "maxNestingDepth = 10000"

fun parse_value :: "nat \<Rightarrow> nat \<Rightarrow> string \<Rightarrow> (json \<times> string) option"
  and parse_elems :: "nat \<Rightarrow> nat \<Rightarrow> string \<Rightarrow> (json list \<times> string) option"
  and parse_members :: "nat \<Rightarrow> nat \<Rightarrow> string \<Rightarrow> ((string \<times> json) list \<times> string) option"
where
  "parse_value 0 d s = None"
| "parse_value (Suc n) d s =
     (case skip_ws s of
        [] \<Rightarrow> None
      | c # r \<Rightarrow>
          if c = CHR ''{'' then
            (if maxNestingDepth \<le> d then None
             else (case skip_ws r of
                 x # r' \<Rightarrow>
                   if x = CHR ''}'' then Some (JObj [], r')
                   else map_option (apfst JObj) (parse_members n (Suc d) r)
               | [] \<Rightarrow> None))
          else if c = CHR ''['' then
            (if maxNestingDepth \<le> d then None
             else (case skip_ws r of
                 x # r' \<Rightarrow>
                   if x = CHR '']'' then Some (JArr [], r')
                   else map_option (apfst JArr) (parse_elems n (Suc d) r)
               | [] \<Rightarrow> None))
          else if c = CHR 0x22 then map_option (apfst JStr) (parse_str r)
          else if take 4 (c # r) = ''null'' then Some (JNull, drop 3 r)
          else if take 4 (c # r) = ''true'' then Some (JBool True, drop 3 r)
          else if take 5 (c # r) = ''false'' then Some (JBool False, drop 4 r)
          else map_option (apfst JNum) (lex_number (c # r)))"
| "parse_elems 0 d s = None"
| "parse_elems (Suc n) d s =
     (case parse_value n d s of
        None \<Rightarrow> None
      | Some (v, r) \<Rightarrow>
          (case skip_ws r of
             [] \<Rightarrow> None
           | c # r' \<Rightarrow>
               if c = CHR '']'' then Some ([v], r')
               else if c = CHR '','' then map_option (apfst (Cons v)) (parse_elems n d r')
               else None))"
| "parse_members 0 d s = None"
| "parse_members (Suc n) d s =
     (case parse_key s of
        None \<Rightarrow> None
      | Some (k, r) \<Rightarrow>
          (case parse_value n d r of
             None \<Rightarrow> None
           | Some (v, r1) \<Rightarrow>
               (case skip_ws r1 of
                  [] \<Rightarrow> None
                | c # r2 \<Rightarrow>
                    if c = CHR ''}'' then Some ([(k, v)], r2)
                    else if c = CHR '','' then
                      map_option (apfst (Cons (k, v))) (parse_members n d r2)
                    else None)))"

text \<open>Two units of fuel per byte are enough (\<open>json_parse_fuel\<close> below).\<close>

definition json_parse :: "string \<Rightarrow> json option" where
  "json_parse s =
     (case parse_value (2 * length s + 1) 0 s of
        Some (j, r) \<Rightarrow> if skip_ws r = [] then Some j else None
      | None \<Rightarrow> None)"

subsection \<open>Decoding into a struct of strings\<close>

text \<open>
  \<open>foldName\<close>: ASCII letters lose their case, and the two runes outside ASCII that fold onto
  ASCII letters (U+017F onto s, U+212A onto k) become them.
\<close>

definition to_upper :: "char \<Rightarrow> char" where
  "to_upper c = (if in_range 97 122 c then char_of (byte c - 32) else c)"

fun fold_name :: "string \<Rightarrow> string" where
  "fold_name [] = []"
| "fold_name (a # s) =
     (case s of
        b # r \<Rightarrow>
          if a = CHR 0xC5 \<and> b = CHR 0xBF then CHR ''S'' # fold_name r
          else (case r of
              c # r' \<Rightarrow>
                if a = CHR 0xE2 \<and> b = CHR 0x84 \<and> c = CHR 0xAA then CHR ''K'' # fold_name r'
                else to_upper a # fold_name s
            | [] \<Rightarrow> to_upper a # fold_name s)
      | [] \<Rightarrow> [to_upper a])"

definition same_field :: "string \<Rightarrow> string \<Rightarrow> bool" where
  "same_field name key \<longleftrightarrow> fold_name name = fold_name key"

definition get_string :: "(string \<times> json) list \<Rightarrow> string \<Rightarrow> string" where
  "get_string ms name =
     foldl (\<lambda>acc (k, v). if same_field name k then (case v of JStr s \<Rightarrow> s | _ \<Rightarrow> acc) else acc) '''' ms"

definition string_or_null :: "json \<Rightarrow> bool" where
  "string_or_null v = (case v of JStr _ \<Rightarrow> True | JNull \<Rightarrow> True | _ \<Rightarrow> False)"

definition string_fields_ok :: "string list \<Rightarrow> (string \<times> json) list \<Rightarrow> bool" where
  "string_fields_ok names ms =
     list_all (\<lambda>(k, v). list_ex (\<lambda>n. same_field n k) names \<longrightarrow> string_or_null v) ms"

text \<open>
  \<open>json.Unmarshal\<close> of a value into a struct whose fields are all strings: the field values,
  or \<open>None\<close> for a type error.  \<open>null\<close> leaves the zero struct.
\<close>

definition decode_strings :: "string list \<Rightarrow> json \<Rightarrow> (string \<Rightarrow> string) option" where
  "decode_strings names j =
     (case j of
        JNull \<Rightarrow> Some (\<lambda>_. '''')
      | JObj ms \<Rightarrow> if string_fields_ok names ms then Some (get_string ms) else None
      | _ \<Rightarrow> None)"

subsection \<open>The fuel never runs out\<close>

lemma skip_ws_length: "length (skip_ws s) \<le> length s"
  by (simp add: skip_ws_def length_dropWhile_le)

lemma skip_ws_Cons_length: "skip_ws s = c # r \<Longrightarrow> length r < length s"
  using skip_ws_length [of s] by simp

lemma prepend_Some [simp]: "prepend p x = Some (s, r) \<longleftrightarrow> (\<exists>s'. x = Some (s', r) \<and> s = p @ s')"
  by (auto simp: prepend_def)

lemma parse_str_length: "parse_str s = Some (t, r) \<Longrightarrow> length r < length s"
proof (induction "length s" arbitrary: s t r rule: less_induct)
  case less
  have IH: "parse_str s' = Some (t, r) \<Longrightarrow> length s' < length s \<longrightarrow> length r < length s'" for s' t r
    using less.hyps by blast
  from less.prems show ?case
    by (cases s) (auto split: if_splits list.splits option.splits
        dest!: IH parse_u4_length low_surrogate_length)
qed

lemma parse_key_length: "parse_key s = Some (k, r) \<Longrightarrow> length r < length s"
  by (auto simp: parse_key_def split: list.splits if_splits option.splits
      dest!: skip_ws_Cons_length parse_str_length)

lemma lex_length:
  "lex_int s = Some (t, r) \<Longrightarrow> length r < length s"
  "lex_frac s = Some (t, r) \<Longrightarrow> length r \<le> length s"
  "lex_exp s = Some (t, r) \<Longrightarrow> length r \<le> length s"
  by (auto simp: lex_int_def lex_frac_def lex_exp_def Let_def split: list.splits if_splits
      intro: le_SucI le_less_trans [OF length_dropWhile_le] le_trans [OF length_dropWhile_le])

lemma lex_number_length: "lex_number s = Some (t, r) \<Longrightarrow> length r < length s"
  by (auto simp: lex_number_def split: list.splits if_splits option.splits prod.splits
      dest!: lex_length)

lemma parse_length:
  "parse_value n d s = Some (j, r) \<Longrightarrow> length r < length s"
  "parse_elems n d s = Some (js, r) \<Longrightarrow> length r < length s"
  "parse_members n d s = Some (ms, r) \<Longrightarrow> length r < length s"
proof (induction n arbitrary: d s r j js ms)
  case 0
  { case 1 then show ?case by simp
  next case 2 then show ?case by simp
  next case 3 then show ?case by simp }
next
  case (Suc n)
  note [dest!] = skip_ws_Cons_length parse_str_length parse_key_length lex_number_length
      Suc.IH(1) Suc.IH(2) Suc.IH(3)
    and [split] = list.splits if_splits option.splits
  { case 1 then show ?case by auto
  next case 2 then show ?case by auto
  next case 3 then show ?case by auto }
qed

lemma parse_fuel_Suc:
  "2 * length s < n \<Longrightarrow> parse_value (Suc n) d s = parse_value n d s"
  "2 * length s + 1 < n \<Longrightarrow> parse_elems (Suc n) d s = parse_elems n d s"
  "2 * length s + 1 < n \<Longrightarrow> parse_members (Suc n) d s = parse_members n d s"
proof (induction n arbitrary: d s)
  case 0
  { case 1 then show ?case by simp
  next case 2 then show ?case by simp
  next case 3 then show ?case by simp }
next
  case (Suc n)
  note step = parse_value.simps(2) parse_elems.simps(2) parse_members.simps(2)
  note [simp del] = step
  {
    case 1
    show ?case
      using 1 by (subst (1 2) step(1))
        (auto split: list.split simp: Suc.IH(2,3) dest!: skip_ws_Cons_length)
  next
    case 2
    then have v: "parse_value (Suc n) d s = parse_value n d s"
      by (intro Suc.IH) simp
    show ?case
      using 2 by (subst (1 2) step(2))
        (auto simp: v split: option.split list.split dest!: skip_ws_Cons_length parse_length
          intro!: arg_cong [where f = "map_option _"] Suc.IH)
  next
    case 3
    show ?case
    proof (cases "parse_key s")
      case (Some kr)
      obtain k r where kr: "kr = (k, r)" by fastforce
      have r: "length r < length s" using Some kr by (simp add: parse_key_length)
      then have v: "parse_value (Suc n) d r = parse_value n d r"
        using 3 by (intro Suc.IH) simp
      show ?thesis
        using 3 r by (subst (1 2) step(3))
          (auto simp: v Some kr split: option.split list.split
            dest!: skip_ws_Cons_length parse_length
            intro!: arg_cong [where f = "map_option _"] Suc.IH)
    qed (simp add: step)
  }
qed

theorem json_parse_fuel:
  "2 * length s < n \<Longrightarrow> parse_value n d s = parse_value (2 * length s + 1) d s"
proof (induction n)
  case (Suc n)
  then show ?case
    using parse_fuel_Suc(1) [of s n d] by (cases "2 * length s = n") auto
qed simp

subsection \<open>Parsing what the encoder prints\<close>

definition ascii :: "string \<Rightarrow> bool" where
  "ascii s = list_all (\<lambda>c. byte c < 0x80) s"

text \<open>Values without number tokens, with ASCII strings, and their nesting depth.\<close>

fun plain_json :: "json \<Rightarrow> bool" where
  "plain_json JNull = True"
| "plain_json (JBool b) = True"
| "plain_json (JNum t) = False"
| "plain_json (JStr s) = ascii s"
| "plain_json (JArr vs) = list_all plain_json vs"
| "plain_json (JObj ms) = list_all (\<lambda>(k, v). ascii k \<and> plain_json v) ms"

fun json_depth :: "json \<Rightarrow> nat" where
  "json_depth (JArr vs) = Suc (Max (insert 0 (set (map json_depth vs))))"
| "json_depth (JObj ms) = Suc (Max (insert 0 (set (map (\<lambda>(k, v). json_depth v) ms))))"
| "json_depth _ = 0"

lemma hex_val_digit: "n < 16 \<Longrightarrow> hex_val (hex_digit n) = Some n"
  by (auto simp: hex_val_def hex_digit_def is_digit_def in_range_def)

lemma parse_u4_byte:
  "byte c < 0x80 \<Longrightarrow>
     parse_u4 (CHR ''0'' # CHR ''0'' # hex_digit (byte c div 16) # hex_digit (byte c mod 16) # t) =
     Some (byte c, t)"
proof -
  assume "byte c < 0x80"
  moreover have "hex_val CHR ''0'' = Some 0" by (simp add: hex_val_def is_digit_def)
  moreover have "byte c div 16 < 16" using \<open>byte c < 0x80\<close> by simp
  ultimately show ?thesis by (simp add: parse_u4_def hex_val_digit)
qed

lemma control_byte:
  "byte c = 8 \<longleftrightarrow> c = CHR 0x08" "byte c = 9 \<longleftrightarrow> c = CHR 0x09" "byte c = 10 \<longleftrightarrow> c = CHR 0x0A"
  "byte c = 12 \<longleftrightarrow> c = CHR 0x0C" "byte c = 13 \<longleftrightarrow> c = CHR 0x0D"
  using of_char_eq_iff [of c "CHR 0x08", where 'a = nat] of_char_eq_iff [of c "CHR 0x09", where 'a = nat]
    of_char_eq_iff [of c "CHR 0x0A", where 'a = nat] of_char_eq_iff [of c "CHR 0x0C", where 'a = nat]
    of_char_eq_iff [of c "CHR 0x0D", where 'a = nat]
  by simp_all

lemma parse_str_escape_ascii:
  assumes "byte c < 0x80"
  shows "parse_str (escape_ascii c @ t) = prepend [c] (parse_str t)"
  using assms parse_u4_byte [OF assms]
  by (auto simp: escape_ascii_def control_byte simple_escape_def utf8_encode_def)

lemma parse_str_escape:
  "ascii s \<Longrightarrow> parse_str (escape_string s @ CHR 0x22 # r) = Some (s, r)"
  by (induction s) (auto simp: ascii_def parse_str_escape_ascii simp del: parse_str.simps(2)
      intro: parse_str.simps(2) [THEN trans])

lemma skip_ws_nonspace: "\<not> is_ws c \<Longrightarrow> skip_ws (c # s) = c # s"
  by (simp add: skip_ws_def)

lemma is_ws_marks [simp]:
  "\<not> is_ws CHR 0x22" "\<not> is_ws CHR '':''" "\<not> is_ws CHR '',''" "\<not> is_ws CHR ''}''"
  "\<not> is_ws CHR '']''" "\<not> is_ws CHR ''{''" "\<not> is_ws CHR ''[''" "\<not> is_ws CHR ''n''"
  "\<not> is_ws CHR ''t''" "\<not> is_ws CHR ''f''"
  by (simp_all add: is_ws_def)

lemma print_head:
  "plain_json j \<Longrightarrow>
     \<exists>c t. json_print j = c # t \<and> c \<in> {CHR ''n'', CHR ''t'', CHR ''f'', CHR 0x22, CHR ''['', CHR ''{''}"
  by (cases j) (auto simp: print_string_def)

lemma parse_key_print:
  "ascii k \<Longrightarrow> parse_key (print_string k @ CHR '':'' # r) = Some (k, r)"
  by (simp add: parse_key_def print_string_def skip_ws_nonspace parse_str_escape)

lemma parse_elems_print:
  assumes "vs \<noteq> []"
    and "\<And>v n r. v \<in> set vs \<Longrightarrow> 2 * length (json_print v) < n \<Longrightarrow>
      parse_value n d (json_print v @ r) = Some (v, r)"
    and "2 * length (comma_join (map json_print vs)) + 1 < n"
  shows "parse_elems n d (comma_join (map json_print vs) @ CHR '']'' # r) = Some (vs, r)"
  using assms
proof (induction vs arbitrary: n)
  case (Cons v vs)
  obtain m where n: "n = Suc m" using Cons.prems(3) by (cases n) auto
  show ?case
  proof (cases vs)
    case Nil
    with Cons.prems n show ?thesis by (simp add: skip_ws_nonspace)
  next
    case (Cons w ws)
    have "parse_elems m d (comma_join (map json_print vs) @ CHR '']'' # r) = Some (vs, r)"
      using Cons.prems n Cons by (intro Cons.IH) auto
    with Cons.prems n Cons show ?thesis by (simp add: skip_ws_nonspace)
  qed
qed simp

abbreviation (input) print_member :: "string \<times> json \<Rightarrow> string" where
  "print_member \<equiv> \<lambda>(k, v). print_string k @ '':'' @ json_print v"

lemma parse_members_print:
  assumes "ms \<noteq> []"
    and "\<And>k v. (k, v) \<in> set ms \<Longrightarrow> ascii k"
    and "\<And>k v n r. (k, v) \<in> set ms \<Longrightarrow> 2 * length (json_print v) < n \<Longrightarrow>
      parse_value n d (json_print v @ r) = Some (v, r)"
    and "2 * length (comma_join (map print_member ms)) + 1 < n"
  shows "parse_members n d (comma_join (map print_member ms) @ CHR ''}'' # r) = Some (ms, r)"
  using assms
proof (induction ms arbitrary: n)
  case (Cons m ms)
  obtain k v where m: "m = (k, v)" by fastforce
  obtain i where n: "n = Suc i" using Cons.prems(4) by (cases n) auto
  have k: "ascii k" using Cons.prems(2) m by auto
  show ?case
  proof (cases ms)
    case Nil
    with Cons.prems n m k show ?thesis by (simp add: parse_key_print skip_ws_nonspace)
  next
    case (Cons w ws)
    have "parse_members i d (comma_join (map print_member ms) @ CHR ''}'' # r) = Some (ms, r)"
    proof (rule Cons.IH)
      show "2 * length (comma_join (map print_member ms)) + 1 < i"
        using Cons.prems(4) n Cons m by (simp split: prod.splits)
    qed (use Cons Cons.prems(2,3) in \<open>force+\<close>)
    moreover have "parse_value i d (json_print v @ r') = Some (v, r')" for r'
      using Cons.prems(4) n Cons m by (intro Cons.prems(3) [of k]) (auto split: prod.splits)
    ultimately show ?thesis
      using n Cons m k by (simp add: parse_key_print skip_ws_nonspace split: prod.splits)
  qed
qed simp

lemma depth_children:
  "v \<in> set vs \<Longrightarrow> json_depth v < json_depth (JArr vs)"
  "(k, v) \<in> set ms \<Longrightarrow> json_depth v < json_depth (JObj ms)"
  by (auto simp: less_Suc_eq_le intro!: Max_ge)

lemma parse_value_print:
  "plain_json j \<Longrightarrow> json_depth j + d \<le> maxNestingDepth \<Longrightarrow> 2 * length (json_print j) < n \<Longrightarrow>
     parse_value n d (json_print j @ r) = Some (j, r)"
proof (induction j arbitrary: n d r)
  case (JArr vs)
  obtain m where n: "n = Suc m" using JArr.prems(3) by (cases n) auto
  show ?case
  proof (cases vs)
    case (Cons v ws)
    then obtain c t where h: "json_print v = c # t" "c \<noteq> CHR '']''" "\<not> is_ws c"
      using print_head [of v] JArr.prems(1) by fastforce
    have "parse_elems m (Suc d) (comma_join (map json_print vs) @ CHR '']'' # r) = Some (vs, r)"
    proof (rule parse_elems_print)
      fix v n r assume "v \<in> set vs" "2 * length (json_print v) < n"
      with JArr.prems depth_children(1) [of v vs]
      show "parse_value n (Suc d) (json_print v @ r) = Some (v, r)"
        by (intro JArr.IH) (auto simp: list_all_iff)
    qed (use Cons JArr.prems(3) n in auto)
    moreover have "\<exists>t'. comma_join (map json_print vs) = c # t'"
      using Cons h by (cases ws) auto
    ultimately show ?thesis
      using JArr.prems n h by (auto simp: skip_ws_nonspace)
  qed (use JArr.prems n in \<open>simp add: skip_ws_nonspace\<close>)
next
  case (JObj ms)
  obtain m where n: "n = Suc m" using JObj.prems(3) by (cases n) auto
  show ?case
  proof (cases ms)
    case (Cons kv ws)
    have "parse_members m (Suc d) (comma_join (map print_member ms) @ CHR ''}'' # r) = Some (ms, r)"
    proof (rule parse_members_print)
      fix k v n r assume kv: "(k, v) \<in> set ms" "2 * length (json_print v) < n"
      with JObj.prems depth_children(2) [of k v ms]
      show "parse_value n (Suc d) (json_print v @ r) = Some (v, r)"
        by (intro JObj.IH [OF kv(1)]) (auto simp: list_all_iff)
    qed (use Cons JObj.prems n in \<open>auto simp: list_all_iff\<close>)
    moreover have "\<exists>t'. comma_join (map print_member ms) = CHR 0x22 # t'"
      using Cons by (cases ws) (auto simp: print_string_def split: prod.splits)
    ultimately show ?thesis
      using JObj.prems n by (auto simp: skip_ws_nonspace)
  qed (use JObj.prems n in \<open>simp add: skip_ws_nonspace\<close>)
next
  case (JStr s)
  then obtain m where "n = Suc m" by (cases n) auto
  with JStr show ?case by (simp add: print_string_def skip_ws_nonspace parse_str_escape)
next
  case (JBool b)
  then obtain m where "n = Suc m" by (cases n) auto
  with JBool show ?case by (simp add: skip_ws_nonspace)
next
  case JNull
  then obtain m where "n = Suc m" by (cases n) auto
  with JNull show ?case by (simp add: skip_ws_nonspace)
qed simp

theorem json_parse_print:
  assumes "plain_json j" "json_depth j \<le> maxNestingDepth"
  shows "json_parse (json_print j) = Some j"
  using parse_value_print [of j 0 "2 * length (json_print j) + 1" "[]"] assms
  by (simp add: json_parse_def skip_ws_def)

end
