(* ===== verification/Dto.thy ===== *)
theory Dto
  imports Ports Json
begin

text \<open>
  The position DTO both commands answer with (\<open>DepositResponse\<close> and \<open>PositionDTO\<close> have the
  same fields and tags), its construction from a position, and its JSON form in both
  directions, with the round trip.
\<close>

record position_dto =
  dto_PositionID :: string
  dto_ClientID :: string
  dto_AssetID :: string
  dto_Amount :: string
  dto_UnitPrice :: string
  dto_TotalValue :: string
  dto_CollateralValue :: string
  dto_JudiciaryCollateralValue :: string
  dto_PurchasedAt :: string
  dto_CreatedAt :: string
  dto_UpdatedAt :: string

definition position_to_dto :: "'d env \<Rightarrow> 'd position \<Rightarrow> position_dto" where
  "position_to_dto E p =
     \<lparr>dto_PositionID = e_uuidString E (pos_positionID p),
      dto_ClientID = e_uuidString E (pos_clientID p),
      dto_AssetID = e_uuidString E (pos_assetID p),
      dto_Amount = d_String (e_dec E) (pos_amount p),
      dto_UnitPrice = d_String (e_dec E) (pos_unitPrice p),
      dto_TotalValue = d_String (e_dec E) (pos_totalValue p),
      dto_CollateralValue = d_String (e_dec E) (pos_collateralValue p),
      dto_JudiciaryCollateralValue = d_String (e_dec E) (pos_judiciaryCollateralValue p),
      dto_PurchasedAt = format_rfc3339 (pos_purchasedAt p),
      dto_CreatedAt = format_rfc3339 (pos_createdAt p),
      dto_UpdatedAt = format_rfc3339 (pos_updatedAt p)\<rparr>"

text \<open>The members in the order of the struct's fields, under the names of its tags.\<close>

definition dto_members :: "position_dto \<Rightarrow> (string \<times> string) list" where
  "dto_members d =
     [(''position_id'', dto_PositionID d), (''client_id'', dto_ClientID d),
      (''asset_id'', dto_AssetID d), (''amount'', dto_Amount d),
      (''unit_price'', dto_UnitPrice d), (''total_value'', dto_TotalValue d),
      (''collateral_value'', dto_CollateralValue d),
      (''judiciary_collateral_value'', dto_JudiciaryCollateralValue d),
      (''purchased_at'', dto_PurchasedAt d), (''created_at'', dto_CreatedAt d),
      (''updated_at'', dto_UpdatedAt d)]"

definition json_of_members :: "(string \<times> string) list \<Rightarrow> json" where
  "json_of_members kvs = JObj (map (\<lambda>(k, s). (k, JStr s)) kvs)"

definition dto_json :: "position_dto \<Rightarrow> json" where
  "dto_json d = json_of_members (dto_members d)"

definition dto_names :: "string list" where
  "dto_names = [''position_id'', ''client_id'', ''asset_id'', ''amount'', ''unit_price'',
     ''total_value'', ''collateral_value'', ''judiciary_collateral_value'', ''purchased_at'',
     ''created_at'', ''updated_at'']"

definition dto_of_fields :: "(string \<Rightarrow> string) \<Rightarrow> position_dto" where
  "dto_of_fields f =
     \<lparr>dto_PositionID = f ''position_id'', dto_ClientID = f ''client_id'',
      dto_AssetID = f ''asset_id'', dto_Amount = f ''amount'', dto_UnitPrice = f ''unit_price'',
      dto_TotalValue = f ''total_value'', dto_CollateralValue = f ''collateral_value'',
      dto_JudiciaryCollateralValue = f ''judiciary_collateral_value'',
      dto_PurchasedAt = f ''purchased_at'', dto_CreatedAt = f ''created_at'',
      dto_UpdatedAt = f ''updated_at''\<rparr>"

definition dto_of_json :: "json \<Rightarrow> position_dto option" where
  "dto_of_json j = map_option dto_of_fields (decode_strings dto_names j)"

subsection \<open>Round trip\<close>

lemma get_string_snoc:
  "get_string (ms @ [(k, v)]) n =
     (if same_field n k then (case v of JStr s \<Rightarrow> s | _ \<Rightarrow> get_string ms n) else get_string ms n)"
  by (simp add: get_string_def split: json.split)

lemma get_string_members:
  assumes "distinct (map (fold_name \<circ> fst) kvs)" "(n, s) \<in> set kvs"
  shows "get_string (map (\<lambda>(k, s). (k, JStr s)) kvs) n = s"
  using assms
proof (induction kvs rule: rev_induct)
  case (snoc kv kvs)
  obtain k t where kv: "kv = (k, t)" by fastforce
  have "n = k" if "same_field n k"
    using snoc.prems that by (force simp: kv same_field_def image_iff)
  moreover have "(n, s) \<in> set kvs" if "n \<noteq> k"
    using snoc.prems that by (auto simp: kv)
  moreover have "s = t" if "n = k"
    using snoc.prems that by (force simp: kv image_iff)
  ultimately show ?case
    using snoc by (auto simp: kv get_string_snoc same_field_def)
qed simp

lemma string_fields_members: "string_fields_ok names (map (\<lambda>(k, s). (k, JStr s)) kvs)"
  by (auto simp: string_fields_ok_def list_all_iff string_or_null_def)

lemma dto_names_fold_distinct: "distinct (map fold_name dto_names)"
  by code_simp

lemma dto_members_names: "map fst (dto_members d) = dto_names"
  by (simp add: dto_members_def dto_names_def)

lemma dto_of_json_json: "dto_of_json (dto_json d) = Some d"
proof -
  let ?ms = "map (\<lambda>(k, s). (k, JStr s)) (dto_members d)"
  have dist: "distinct (map (fold_name \<circ> fst) (dto_members d))"
    using dto_names_fold_distinct by (simp only: map_map [symmetric] dto_members_names)
  have "dto_of_fields (get_string ?ms) = d"
    unfolding dto_of_fields_def
    by (subst get_string_members [OF dist], simp add: dto_members_def)+ simp
  then show ?thesis
    by (simp add: dto_of_json_def dto_json_def json_of_members_def decode_strings_def
        string_fields_members)
qed

end
