(* ===== verification/Deposit.thy ===== *)
theory Deposit
  imports Dto
begin

text \<open>
  \<open>internal/application/deposit_service.go\<close>: the request and the service, request validation,
  replay of a stored snapshot, the transaction body, and \<open>Execute\<close> with every early return.
  The body of \<open>Execute\<close> is cut where the source is: up to the idempotency check
  (\<open>deposit_body\<close>), the lookups and the new position (\<open>deposit_fresh\<close>), the transaction and
  its outcome (\<open>deposit_commit\<close>).
\<close>

definition commandTypeDeposit :: string where
  "commandTypeDeposit = ''DEPOSIT''"

record deposit_request =
  dr_ClientID :: string
  dr_AssetID :: string
  dr_OrderID :: string
  dr_Amount :: string
  dr_UnitPrice :: string

definition deposit_request_names :: "string list" where
  "deposit_request_names = [''client_id'', ''asset_id'', ''order_id'', ''amount'', ''unit_price'']"

definition deposit_request_of_json :: "json \<Rightarrow> deposit_request option" where
  "deposit_request_of_json j =
     map_option (\<lambda>f. \<lparr>dr_ClientID = f ''client_id'', dr_AssetID = f ''asset_id'',
         dr_OrderID = f ''order_id'', dr_Amount = f ''amount'', dr_UnitPrice = f ''unit_price''\<rparr>)
       (decode_strings deposit_request_names j)"

type_synonym deposit_response = position_dto

text \<open>The package variable \<open>depositMarshalJSON = json.Marshal\<close>, which never fails on this type.\<close>

definition depositMarshalJSON :: "deposit_response \<Rightarrow> string res" where
  "depositMarshalJSON resp = Ok (json_print (dto_json resp))"

record ('d, 's) deposit_service =
  ds_clients :: "'s client_repository"
  ds_assets :: "'s asset_repository"
  ds_positions :: "('d, 's) position_repository"
  ds_processedCommands :: "'s processed_command_repository"
  ds_unitOfWork :: "(unit, 's) unit_of_work"

definition NewDepositService ::
    "'s client_repository \<Rightarrow> 's asset_repository \<Rightarrow> ('d, 's) position_repository \<Rightarrow>
     's processed_command_repository \<Rightarrow> (unit, 's) unit_of_work \<Rightarrow> ('d, 's) deposit_service" where
  "NewDepositService clients assets positions processedCommands unitOfWork =
     \<lparr>ds_clients = clients, ds_assets = assets, ds_positions = positions,
      ds_processedCommands = processedCommands, ds_unitOfWork = unitOfWork\<rparr>"

definition validateDepositRequest ::
    "'d env \<Rightarrow> deposit_request \<Rightarrow> (uuid \<times> uuid \<times> 'd \<times> 'd) res" where
  "validateDepositRequest E req =
     (if dr_ClientID req = '''' then Err (Opaque ''client_id is required'')
      else case e_uuidParse E (dr_ClientID req) of
        None \<Rightarrow> Err (Opaque ''invalid client_id'')
      | Some clientID \<Rightarrow>
      if dr_AssetID req = '''' then Err (Opaque ''asset_id is required'')
      else case e_uuidParse E (dr_AssetID req) of
        None \<Rightarrow> Err (Opaque ''invalid asset_id'')
      | Some assetID \<Rightarrow>
      if dr_OrderID req = '''' then Err (Opaque ''order_id is required'')
      else if dr_Amount req = '''' then Err (Opaque ''amount is required'')
      else case d_NewFromString (e_dec E) (dr_Amount req) of
        None \<Rightarrow> Err (Opaque ''invalid amount'')
      | Some amount \<Rightarrow>
      if dr_UnitPrice req = '''' then Err (Opaque ''unit_price is required'')
      else case d_NewFromString (e_dec E) (dr_UnitPrice req) of
        None \<Rightarrow> Err (Opaque ''invalid unit_price'')
      | Some unitPrice \<Rightarrow>
      if \<not> d_IsPositive (e_dec E) amount then Err (Opaque ''amount must be positive'')
      else if \<not> d_IsPositive (e_dec E) unitPrice then Err (Opaque ''unit_price must be positive'')
      else Ok (clientID, assetID, amount, unitPrice))"

definition toDepositResponse :: "'d env \<Rightarrow> 'd position \<Rightarrow> deposit_response" where
  "toDepositResponse E p = position_to_dto E p"

definition deserializeSnapshot :: "'d env \<Rightarrow> string \<Rightarrow> deposit_response exec" where
  "deserializeSnapshot E snapshot =
     (case (case json_parse snapshot of Some j \<Rightarrow> dto_of_json j | None \<Rightarrow> None) of
        None \<Rightarrow> Failure StatusInternalServerError
          (Wrapped ''unmarshal response snapshot'' (Opaque (e_jsonErr E snapshot)))
      | Some resp \<Rightarrow> Success resp StatusOK)"

definition deposit_replayAfterRace ::
    "'d env \<Rightarrow> ('d, 's) deposit_service \<Rightarrow> go_ctx \<Rightarrow> string \<Rightarrow> 's world \<Rightarrow>
     deposit_response exec \<times> 's world" where
  "deposit_replayAfterRace E svc ctx orderID w =
     (case pcr_FindByTypeAndOrderID (ds_processedCommands svc) ctx commandTypeDeposit orderID w of
        (Panicked m, w1) \<Rightarrow> (Crashed m, w1)
      | (Err err, w1) \<Rightarrow> (Failure StatusConflict (Wrapped ''replay after race'' err), w1)
      | (Ok existing, w1) \<Rightarrow>
          (deserializeSnapshot E (pc_responseSnapshot existing),
           emit [LogRecord (LoggerFromContext ctx w1) LevelInfo ''deposit replayed after race''
             [(''order_id'', AStr orderID), (''outcome'', AStr ''replayed'')]] w1))"

abbreviation (input) depositSpan :: string where "depositSpan \<equiv> ''deposit.execute''"

text \<open>\<open>spanError\<close> and return a status with the error.\<close>

definition fail_with :: "string \<Rightarrow> nat \<Rightarrow> go_error \<Rightarrow> 's world \<Rightarrow> 'r exec \<times> 's world" where
  "fail_with sp status err w = (Failure status err, spanError sp err w)"

text \<open>The replay branches: mark the span with what \<open>deserializeSnapshot\<close> gave.\<close>

definition finish_replay :: "string \<Rightarrow> 'r exec \<Rightarrow> 's world \<Rightarrow> 'r exec \<times> 's world" where
  "finish_replay sp r w =
     (case r of
        Failure status err \<Rightarrow> (r, spanError sp err w)
      | Success resp status \<Rightarrow> (r, spanOK sp ''replayed'' w)
      | Crashed m \<Rightarrow> (r, w))"

text \<open>The function passed to \<open>unitOfWork.Do\<close>.\<close>

definition deposit_tx ::
    "'d env \<Rightarrow> ('d, 's) deposit_service \<Rightarrow> deposit_request \<Rightarrow> uuid \<Rightarrow> 'd position \<Rightarrow> string \<Rightarrow>
     go_ctx \<Rightarrow> (unit, 's) action" where
  "deposit_tx E svc req clientID position snapshotBytes txCtx w =
     (case pr_Create (ds_positions svc) txCtx position w of
        (Panicked m, w1) \<Rightarrow> (Panicked m, w1)
      | (Err err, w1) \<Rightarrow> (Err (Wrapped ''create position'' err), w1)
      | (Ok _, w1) \<Rightarrow>
          (let (u, w2) = uuid_New E w1; (now, w3) = time_Now E w2 in
           case NewProcessedCommand u now commandTypeDeposit (dr_OrderID req) clientID snapshotBytes of
             Panicked m \<Rightarrow> (Panicked m, w3)
           | Err err \<Rightarrow> (Err (Wrapped ''new processed command'' err), w3)
           | Ok cmd \<Rightarrow>
               (case pcr_Create (ds_processedCommands svc) txCtx cmd w3 of
                  (Panicked m, w4) \<Rightarrow> (Panicked m, w4)
                | (Err err, w4) \<Rightarrow> (Err (Wrapped ''create processed command'' err), w4)
                | (Ok _, w4) \<Rightarrow> (Ok (), w4))))"

definition deposit_commit ::
    "'d env \<Rightarrow> ('d, 's) deposit_service \<Rightarrow> go_ctx \<Rightarrow> deposit_request \<Rightarrow> uuid \<Rightarrow> 'd position \<Rightarrow>
     deposit_response \<Rightarrow> string \<Rightarrow> 's world \<Rightarrow> deposit_response exec \<times> 's world" where
  "deposit_commit E svc ctx req clientID position resp snapshotBytes w =
     (case uow_Do (ds_unitOfWork svc) ctx (deposit_tx E svc req clientID position snapshotBytes) w of
        (Panicked m, w1) \<Rightarrow> (Crashed m, w1)
      | (Ok _, w1) \<Rightarrow> (Success resp StatusCreated, spanOK depositSpan ''success'' w1)
      | (Err err, w1) \<Rightarrow>
          if errors_Is err ErrDuplicate
          then (case deposit_replayAfterRace E svc ctx (dr_OrderID req) w1 of
              (r, w2) \<Rightarrow> finish_replay depositSpan r w2)
          else fail_with depositSpan StatusInternalServerError (Wrapped ''unit of work'' err)
            (emit [LogRecord (LoggerFromContext ctx w1) LevelError ''unit of work failed''
               [(''error'', AStr (error_text err)), (''order_id'', AStr (dr_OrderID req)),
                (''outcome'', AStr ''failed'')]] w1))"

definition deposit_fresh ::
    "'d env \<Rightarrow> ('d, 's) deposit_service \<Rightarrow> go_ctx \<Rightarrow> deposit_request \<Rightarrow> uuid \<Rightarrow> uuid \<Rightarrow> 'd \<Rightarrow> 'd \<Rightarrow>
     's world \<Rightarrow> deposit_response exec \<times> 's world" where
  "deposit_fresh E svc ctx req clientID assetID amount unitPrice w =
     (case cr_FindByID (ds_clients svc) ctx clientID w of
        (Panicked m, w1) \<Rightarrow> (Crashed m, w1)
      | (Err err, w1) \<Rightarrow>
          if errors_Is err ErrNotFound
          then fail_with depositSpan StatusUnprocessableEntity (Opaque ''client not found'') w1
          else fail_with depositSpan StatusInternalServerError (Wrapped ''find client'' err)
            (emit [LogRecord (LoggerFromContext ctx w1) LevelError ''find client failed''
               [(''error'', AStr (error_text err)), (''client_id'', AStr (e_uuidString E clientID)),
                (''order_id'', AStr (dr_OrderID req)), (''outcome'', AStr ''failed'')]] w1)
      | (Ok _, w1) \<Rightarrow>
     (case ar_FindByID (ds_assets svc) ctx assetID w1 of
        (Panicked m, w2) \<Rightarrow> (Crashed m, w2)
      | (Err err, w2) \<Rightarrow>
          if errors_Is err ErrNotFound
          then fail_with depositSpan StatusUnprocessableEntity (Opaque ''asset not found'') w2
          else fail_with depositSpan StatusInternalServerError (Wrapped ''find asset'' err)
            (emit [LogRecord (LoggerFromContext ctx w2) LevelError ''find asset failed''
               [(''error'', AStr (error_text err)), (''asset_id'', AStr (e_uuidString E assetID)),
                (''order_id'', AStr (dr_OrderID req)), (''outcome'', AStr ''failed'')]] w2)
      | (Ok asset, w2) \<Rightarrow>
     (case ValidateProductType (as_productType asset) of
        Panicked m \<Rightarrow> (Crashed m, w2)
      | Err _ \<Rightarrow> fail_with depositSpan StatusUnprocessableEntity (Opaque ''unsupported product type'') w2
      | Ok _ \<Rightarrow>
          (let (purchasedAt, w3) = time_Now E w2; (now, w4) = time_Now E w3; (u, w5) = uuid_New E w4 in
           case NewPosition (e_dec E) u now clientID assetID amount unitPrice (time_UTC purchasedAt) of
             Panicked m \<Rightarrow> (Crashed m, w5)
           | Err err \<Rightarrow> fail_with depositSpan StatusInternalServerError (Wrapped ''new position'' err) w5
           | Ok position \<Rightarrow>
               (let resp = toDepositResponse E position in
                case depositMarshalJSON resp of
                  Panicked m \<Rightarrow> (Crashed m, w5)
                | Err err \<Rightarrow> fail_with depositSpan StatusInternalServerError
                    (Wrapped ''marshal response snapshot'' err) w5
                | Ok snapshotBytes \<Rightarrow>
                    deposit_commit E svc ctx req clientID position resp snapshotBytes w5)))))"

definition deposit_body ::
    "'d env \<Rightarrow> ('d, 's) deposit_service \<Rightarrow> go_ctx \<Rightarrow> deposit_request \<Rightarrow> 's world \<Rightarrow>
     deposit_response exec \<times> 's world" where
  "deposit_body E svc ctx req w =
     (case validateDepositRequest E req of
        Panicked m \<Rightarrow> (Crashed m, w)
      | Err err \<Rightarrow> fail_with depositSpan StatusUnprocessableEntity err w
      | Ok (clientID, assetID, amount, unitPrice) \<Rightarrow>
     (case pcr_FindByTypeAndOrderID (ds_processedCommands svc) ctx commandTypeDeposit (dr_OrderID req) w of
        (Panicked m, w1) \<Rightarrow> (Crashed m, w1)
      | (Ok existing, w1) \<Rightarrow>
          finish_replay depositSpan (deserializeSnapshot E (pc_responseSnapshot existing))
            (emit [LogRecord (LoggerFromContext ctx w1) LevelInfo ''deposit replayed''
               [(''order_id'', AStr (dr_OrderID req)), (''outcome'', AStr ''replayed'')]] w1)
      | (Err err, w1) \<Rightarrow>
          if \<not> errors_Is err ErrNotFound
          then fail_with depositSpan StatusInternalServerError (Wrapped ''find processed command'' err)
            (emit [LogRecord (LoggerFromContext ctx w1) LevelError ''find processed command failed''
               [(''error'', AStr (error_text err)), (''order_id'', AStr (dr_OrderID req)),
                (''outcome'', AStr ''failed'')]] w1)
          else deposit_fresh E svc ctx req clientID assetID amount unitPrice w1))"

definition DepositService_Execute ::
    "'d env \<Rightarrow> ('d, 's) deposit_service \<Rightarrow> go_ctx \<Rightarrow> deposit_request \<Rightarrow> 's world \<Rightarrow>
     deposit_response exec \<times> 's world" where
  "DepositService_Execute E svc ctx req w =
     (case deposit_body E svc ctx req
         (emit [SpanStart depositSpan, SpanAttr depositSpan ''wallet.order_id'' (dr_OrderID req)] w) of
        (r, w1) \<Rightarrow> (r, emit [SpanEnd depositSpan] w1))"

end
