(* ===== verification/Withdraw.thy ===== *)
theory Withdraw
  imports Deposit
begin

text \<open>
  \<open>internal/application/withdraw_service.go\<close>: request, response, validation, the lot selection
  and the FIFO consumption loop, the transaction body, and \<open>Execute\<close>.  The loops over lots are
  structural recursions over the list the repository returned; a lot updated in place by
  \<open>UpdateAmount\<close> is the updated copy in the result.
\<close>

definition commandTypeWithdraw :: string where
  "commandTypeWithdraw = ''WITHDRAW''"

record withdraw_request =
  wq_ClientID :: string
  wq_InstrumentID :: string
  wq_OrderID :: string
  wq_DesiredValue :: string

definition withdraw_request_names :: "string list" where
  "withdraw_request_names = [''client_id'', ''instrument_id'', ''order_id'', ''desired_value'']"

definition withdraw_request_of_json :: "json \<Rightarrow> withdraw_request option" where
  "withdraw_request_of_json j =
     map_option (\<lambda>f. \<lparr>wq_ClientID = f ''client_id'', wq_InstrumentID = f ''instrument_id'',
         wq_OrderID = f ''order_id'', wq_DesiredValue = f ''desired_value''\<rparr>)
       (decode_strings withdraw_request_names j)"

record withdraw_response =
  wr_Positions :: "position_dto list"

definition withdraw_response_json :: "withdraw_response \<Rightarrow> json" where
  "withdraw_response_json resp = JObj [(''positions'', JArr (map dto_json (wr_Positions resp)))]"

definition positions_of_json :: "json \<Rightarrow> position_dto list option" where
  "positions_of_json v =
     (case v of
        JNull \<Rightarrow> Some []
      | JArr vs \<Rightarrow> those (map dto_of_json vs)
      | _ \<Rightarrow> None)"

definition withdraw_response_of_json :: "json \<Rightarrow> withdraw_response option" where
  "withdraw_response_of_json j =
     (case j of
        JNull \<Rightarrow> Some \<lparr>wr_Positions = []\<rparr>
      | JObj ms \<Rightarrow>
          map_option (\<lambda>ps. \<lparr>wr_Positions = ps\<rparr>)
            (foldl (\<lambda>acc (k, v).
               if same_field ''positions'' k
               then (case acc of None \<Rightarrow> None | Some _ \<Rightarrow> positions_of_json v) else acc)
             (Some []) ms)
      | _ \<Rightarrow> None)"

text \<open>The package variable \<open>withdrawMarshalJSON = json.Marshal\<close>.\<close>

definition withdrawMarshalJSON :: "withdraw_response \<Rightarrow> string res" where
  "withdrawMarshalJSON resp = Ok (json_print (withdraw_response_json resp))"

record ('d, 's) withdraw_service =
  ws_clients :: "'s client_repository"
  ws_positions :: "('d, 's) position_repository"
  ws_processedCommands :: "'s processed_command_repository"
  ws_unitOfWork :: "(withdraw_response, 's) unit_of_work"

definition NewWithdrawService ::
    "'s client_repository \<Rightarrow> ('d, 's) position_repository \<Rightarrow> 's processed_command_repository \<Rightarrow>
     (withdraw_response, 's) unit_of_work \<Rightarrow> ('d, 's) withdraw_service" where
  "NewWithdrawService clients positions processedCommands unitOfWork =
     \<lparr>ws_clients = clients, ws_positions = positions,
      ws_processedCommands = processedCommands, ws_unitOfWork = unitOfWork\<rparr>"

definition validateWithdrawRequest :: "'d env \<Rightarrow> withdraw_request \<Rightarrow> (uuid \<times> 'd) res" where
  "validateWithdrawRequest E req =
     (if wq_ClientID req = '''' then Err (Opaque ''client_id is required'')
      else case e_uuidParse E (wq_ClientID req) of
        None \<Rightarrow> Err (Opaque ''invalid client_id'')
      | Some clientID \<Rightarrow>
      if wq_InstrumentID req = '''' then Err (Opaque ''instrument_id is required'')
      else if wq_OrderID req = '''' then Err (Opaque ''order_id is required'')
      else if wq_DesiredValue req = '''' then Err (Opaque ''desired_value is required'')
      else case d_NewFromString (e_dec E) (wq_DesiredValue req) of
        None \<Rightarrow> Err (Opaque ''invalid desired_value'')
      | Some desiredValue \<Rightarrow>
      if \<not> d_IsPositive (e_dec E) desiredValue then Err (Opaque ''desired_value must be positive'')
      else Ok (clientID, desiredValue))"

definition toWithdrawResponse :: "'d env \<Rightarrow> 'd position list \<Rightarrow> withdraw_response" where
  "toWithdrawResponse E ps = \<lparr>wr_Positions = map (position_to_dto E) ps\<rparr>"

definition deserializeWithdrawSnapshot :: "'d env \<Rightarrow> string \<Rightarrow> withdraw_response exec" where
  "deserializeWithdrawSnapshot E snapshot =
     (case (case json_parse snapshot of Some j \<Rightarrow> withdraw_response_of_json j | None \<Rightarrow> None) of
        None \<Rightarrow> Failure StatusInternalServerError
          (Wrapped ''unmarshal response snapshot'' (Opaque (e_jsonErr E snapshot)))
      | Some resp \<Rightarrow> Success resp StatusOK)"

definition withdraw_replayAfterRace ::
    "'d env \<Rightarrow> ('d, 's) withdraw_service \<Rightarrow> go_ctx \<Rightarrow> string \<Rightarrow> 's world \<Rightarrow>
     withdraw_response exec \<times> 's world" where
  "withdraw_replayAfterRace E svc ctx orderID w =
     (case pcr_FindByTypeAndOrderID (ws_processedCommands svc) ctx commandTypeWithdraw orderID w of
        (Panicked m, w1) \<Rightarrow> (Crashed m, w1)
      | (Err err, w1) \<Rightarrow> (Failure StatusConflict (Wrapped ''replay after race'' err), w1)
      | (Ok existing, w1) \<Rightarrow>
          (deserializeWithdrawSnapshot E (pc_responseSnapshot existing),
           emit [LogRecord (LoggerFromContext ctx w1) LevelInfo ''withdraw replayed after race''
             [(''order_id'', AStr orderID), (''outcome'', AStr ''replayed'')]] w1))"

abbreviation (input) withdrawSpan :: string where "withdrawSpan \<equiv> ''withdraw.execute''"

subsection \<open>Lot selection and consumption\<close>

text \<open>The first loop: lots with a positive available value, and their sum.\<close>

fun select_eligible ::
    "'d decimal_lib \<Rightarrow> 'd position list \<Rightarrow> 'd position list \<Rightarrow> 'd \<Rightarrow> 'd position list \<times> 'd" where
  "select_eligible D [] eligible totalAvailable = (eligible, totalAvailable)"
| "select_eligible D (p # ps) eligible totalAvailable =
     (if d_IsPositive D (AvailableValue D p)
      then select_eligible D ps (eligible @ [p]) (d_Add D totalAvailable (AvailableValue D p))
      else select_eligible D ps eligible totalAvailable)"

text \<open>The units sold out of one lot towards \<open>remaining\<close>; \<open>None\<close> is the division's panic.\<close>

definition units_sold :: "'d decimal_lib \<Rightarrow> 'd position \<Rightarrow> 'd \<Rightarrow> 'd option" where
  "units_sold D lot remaining =
     map_option (\<lambda>q. d_Round D q 6)
       (d_Div D (d_Min D remaining (AvailableValue D lot)) (pos_unitPrice lot))"

text \<open>
  The FIFO loop.  It gives the affected lots, updated, and what remains of the desired value.
\<close>

fun consume_lots ::
    "'d env \<Rightarrow> 'd position list \<Rightarrow> 'd \<Rightarrow> 'd position list \<Rightarrow> 's world \<Rightarrow>
     ('d position list \<times> 'd) res \<times> 's world" where
  "consume_lots E [] remaining affected w = (Ok (affected, remaining), w)"
| "consume_lots E (lot # lots) remaining affected w =
     (if \<not> d_IsPositive (e_dec E) remaining then (Ok (affected, remaining), w)
      else case units_sold (e_dec E) lot remaining of
        None \<Rightarrow> (Panicked ''decimal division by 0'', w)
      | Some unitsSold \<Rightarrow>
          (let actualValueConsumed = d_Mul (e_dec E) unitsSold (pos_unitPrice lot);
               newAmount = d_Sub (e_dec E) (pos_amount lot) unitsSold;
               (now, w1) = time_Now E w
           in case UpdateAmount (e_dec E) now lot newAmount of
                Panicked m \<Rightarrow> (Panicked m, w1)
              | Err err \<Rightarrow> (Err (Wrapped ''update amount'' err), w1)
              | Ok lot' \<Rightarrow>
                  consume_lots E lots (d_Sub (e_dec E) remaining actualValueConsumed)
                    (affected @ [lot']) w1))"

fun update_lots ::
    "('d, 's) withdraw_service \<Rightarrow> go_ctx \<Rightarrow> 'd position list \<Rightarrow> (unit, 's) action" where
  "update_lots svc txCtx [] w = (Ok (), w)"
| "update_lots svc txCtx (lot # lots) w =
     (case pr_Update (ws_positions svc) txCtx lot w of
        (Panicked m, w1) \<Rightarrow> (Panicked m, w1)
      | (Err err, w1) \<Rightarrow> (Err (Wrapped ''update position'' err), w1)
      | (Ok _, w1) \<Rightarrow> update_lots svc txCtx lots w1)"

text \<open>The end of the transaction body: response, snapshot, idempotency record.\<close>

definition record_withdrawal ::
    "'d env \<Rightarrow> ('d, 's) withdraw_service \<Rightarrow> withdraw_request \<Rightarrow> uuid \<Rightarrow> 'd position list \<Rightarrow>
     go_ctx \<Rightarrow> (withdraw_response, 's) action" where
  "record_withdrawal E svc req clientID affected txCtx w =
     (let resp = toWithdrawResponse E affected in
      case withdrawMarshalJSON resp of
        Panicked m \<Rightarrow> (Panicked m, w)
      | Err err \<Rightarrow> (Err (Wrapped ''marshal response snapshot'' err), w)
      | Ok snapshotBytes \<Rightarrow>
          (let (u, w1) = uuid_New E w; (now, w2) = time_Now E w1 in
           case NewProcessedCommand u now commandTypeWithdraw (wq_OrderID req) clientID snapshotBytes of
             Panicked m \<Rightarrow> (Panicked m, w2)
           | Err err \<Rightarrow> (Err (Wrapped ''new processed command'' err), w2)
           | Ok cmd \<Rightarrow>
               (case pcr_Create (ws_processedCommands svc) txCtx cmd w2 of
                  (Panicked m, w3) \<Rightarrow> (Panicked m, w3)
                | (Err err, w3) \<Rightarrow> (Err (Wrapped ''create processed command'' err), w3)
                | (Ok _, w3) \<Rightarrow> (Ok resp, w3))))"

definition insufficient_text :: "'d decimal_lib \<Rightarrow> 'd \<Rightarrow> 'd \<Rightarrow> string" where
  "insufficient_text D totalAvailable desiredValue =
     ''total available '' @ d_String D totalAvailable @ '' less than desired '' @ d_String D desiredValue"

definition withdraw_tx ::
    "'d env \<Rightarrow> ('d, 's) withdraw_service \<Rightarrow> withdraw_request \<Rightarrow> uuid \<Rightarrow> 'd \<Rightarrow>
     go_ctx \<Rightarrow> (withdraw_response, 's) action" where
  "withdraw_tx E svc req clientID desiredValue txCtx w =
     (case pr_FindByClientAndInstrument (ws_positions svc) txCtx clientID (wq_InstrumentID req) w of
        (Panicked m, w1) \<Rightarrow> (Panicked m, w1)
      | (Err err, w1) \<Rightarrow> (Err (Wrapped ''find positions'' err), w1)
      | (Ok positions, w1) \<Rightarrow>
          if length positions = 0 then (Err (Wrapped ''no positions found'' (Sentinel ErrNotFound)), w1)
          else (case select_eligible (e_dec E) positions [] (d_Zero (e_dec E)) of
            (eligible, totalAvailable) \<Rightarrow>
              if d_LessThan (e_dec E) totalAvailable desiredValue
              then (Err (Wrapped (insufficient_text (e_dec E) totalAvailable desiredValue)
                     (Sentinel ErrInsufficientPosition)), w1)
              else (case consume_lots E eligible desiredValue [] w1 of
                  (Panicked m, w2) \<Rightarrow> (Panicked m, w2)
                | (Err err, w2) \<Rightarrow> (Err err, w2)
                | (Ok (affected, remaining), w2) \<Rightarrow>
                    (case update_lots svc txCtx affected w2 of
                       (Panicked m, w3) \<Rightarrow> (Panicked m, w3)
                     | (Err err, w3) \<Rightarrow> (Err err, w3)
                     | (Ok _, w3) \<Rightarrow> record_withdrawal E svc req clientID affected txCtx w3))))"

subsection \<open>Execute\<close>

definition withdraw_commit ::
    "'d env \<Rightarrow> ('d, 's) withdraw_service \<Rightarrow> go_ctx \<Rightarrow> withdraw_request \<Rightarrow> uuid \<Rightarrow> 'd \<Rightarrow>
     's world \<Rightarrow> withdraw_response exec \<times> 's world" where
  "withdraw_commit E svc ctx req clientID desiredValue w =
     (case uow_Do (ws_unitOfWork svc) ctx (withdraw_tx E svc req clientID desiredValue) w of
        (Panicked m, w1) \<Rightarrow> (Crashed m, w1)
      | (Ok resp, w1) \<Rightarrow> (Success resp StatusOK, spanOK withdrawSpan ''success'' w1)
      | (Err err, w1) \<Rightarrow>
          if errors_Is err ErrDuplicate
          then (case withdraw_replayAfterRace E svc ctx (wq_OrderID req) w1 of
              (r, w2) \<Rightarrow> finish_replay withdrawSpan r w2)
          else if errors_Is err ErrConcurrencyConflict
          then fail_with withdrawSpan StatusConflict (Wrapped ''withdraw'' err) w1
          else if errors_Is err ErrNotFound
          then fail_with withdrawSpan StatusNotFound (Wrapped ''withdraw'' err) w1
          else if errors_Is err ErrInsufficientPosition
          then fail_with withdrawSpan StatusConflict (Wrapped ''withdraw'' err) w1
          else fail_with withdrawSpan StatusInternalServerError (Wrapped ''unit of work'' err)
            (emit [LogRecord (LoggerFromContext ctx w1) LevelError ''unit of work failed''
               [(''error'', AStr (error_text err)), (''order_id'', AStr (wq_OrderID req)),
                (''outcome'', AStr ''failed'')]] w1))"

definition withdraw_fresh ::
    "'d env \<Rightarrow> ('d, 's) withdraw_service \<Rightarrow> go_ctx \<Rightarrow> withdraw_request \<Rightarrow> uuid \<Rightarrow> 'd \<Rightarrow>
     's world \<Rightarrow> withdraw_response exec \<times> 's world" where
  "withdraw_fresh E svc ctx req clientID desiredValue w =
     (case cr_FindByID (ws_clients svc) ctx clientID w of
        (Panicked m, w1) \<Rightarrow> (Crashed m, w1)
      | (Err err, w1) \<Rightarrow>
          if errors_Is err ErrNotFound
          then fail_with withdrawSpan StatusUnprocessableEntity (Opaque ''client not found'') w1
          else fail_with withdrawSpan StatusInternalServerError (Wrapped ''find client'' err)
            (emit [LogRecord (LoggerFromContext ctx w1) LevelError ''find client failed''
               [(''error'', AStr (error_text err)), (''client_id'', AStr (e_uuidString E clientID)),
                (''order_id'', AStr (wq_OrderID req)), (''outcome'', AStr ''failed'')]] w1)
      | (Ok _, w1) \<Rightarrow> withdraw_commit E svc ctx req clientID desiredValue w1)"

definition withdraw_body ::
    "'d env \<Rightarrow> ('d, 's) withdraw_service \<Rightarrow> go_ctx \<Rightarrow> withdraw_request \<Rightarrow> 's world \<Rightarrow>
     withdraw_response exec \<times> 's world" where
  "withdraw_body E svc ctx req w =
     (case validateWithdrawRequest E req of
        Panicked m \<Rightarrow> (Crashed m, w)
      | Err err \<Rightarrow> fail_with withdrawSpan StatusUnprocessableEntity err w
      | Ok (clientID, desiredValue) \<Rightarrow>
     (case pcr_FindByTypeAndOrderID (ws_processedCommands svc) ctx commandTypeWithdraw (wq_OrderID req) w of
        (Panicked m, w1) \<Rightarrow> (Crashed m, w1)
      | (Ok existing, w1) \<Rightarrow>
          finish_replay withdrawSpan (deserializeWithdrawSnapshot E (pc_responseSnapshot existing))
            (emit [LogRecord (LoggerFromContext ctx w1) LevelInfo ''withdraw replayed''
               [(''order_id'', AStr (wq_OrderID req)), (''outcome'', AStr ''replayed'')]] w1)
      | (Err err, w1) \<Rightarrow>
          if \<not> errors_Is err ErrNotFound
          then fail_with withdrawSpan StatusInternalServerError (Wrapped ''find processed command'' err)
            (emit [LogRecord (LoggerFromContext ctx w1) LevelError ''find processed command failed''
               [(''error'', AStr (error_text err)), (''order_id'', AStr (wq_OrderID req)),
                (''outcome'', AStr ''failed'')]] w1)
          else withdraw_fresh E svc ctx req clientID desiredValue w1))"

definition WithdrawService_Execute ::
    "'d env \<Rightarrow> ('d, 's) withdraw_service \<Rightarrow> go_ctx \<Rightarrow> withdraw_request \<Rightarrow> 's world \<Rightarrow>
     withdraw_response exec \<times> 's world" where
  "WithdrawService_Execute E svc ctx req w =
     (case withdraw_body E svc ctx req
         (emit [SpanStart withdrawSpan, SpanAttr withdrawSpan ''wallet.order_id'' (wq_OrderID req)] w) of
        (r, w1) \<Rightarrow> (r, emit [SpanEnd withdrawSpan] w1))"

end
