(* ===== verification/Contracts.thy ===== *)
theory Contracts
  imports Withdraw
begin

text \<open>
  What the services of \<open>internal/application\<close> rely on, as locales over their ports, and what
  \<open>Execute\<close> gives in return.  \<open>ports_inv\<close>: every port operation keeps a property of the world,
  hence both commands keep it.  \<open>isolated_ports\<close>: reads and the writes of an open transaction
  leave the committed state alone and a unit of work that does not succeed restores it, hence a
  command that does not report a fresh success has committed nothing.
\<close>

subsection \<open>The statuses of a command\<close>

definition outcome_in :: "nat list \<Rightarrow> nat list \<Rightarrow> 'r exec \<Rightarrow> bool" where
  "outcome_in good bad r =
     (case r of Success _ s \<Rightarrow> s \<in> set good | Failure s _ \<Rightarrow> s \<in> set bad | Crashed _ \<Rightarrow> True)"

lemma oi_bind: "(\<And>r v. outcome_in g b (fst (f r v))) \<Longrightarrow> outcome_in g b (fst (case x of (r, v) \<Rightarrow> f r v))"
  by (cases x) simp

lemma oi_res:
  "(\<And>a. outcome_in g b (fst (f a))) \<Longrightarrow> (\<And>e. outcome_in g b (fst (k e))) \<Longrightarrow> (\<And>m. outcome_in g b (fst (h m))) \<Longrightarrow>
     outcome_in g b (fst (case r of Ok a \<Rightarrow> f a | Err e \<Rightarrow> k e | Panicked m \<Rightarrow> h m))"
  by (cases r) simp_all

lemma oi_if: "outcome_in g b (fst x) \<Longrightarrow> outcome_in g b (fst y) \<Longrightarrow> outcome_in g b (fst (if q then x else y))"
  by simp

lemma oi_pair: "outcome_in g b r \<Longrightarrow> outcome_in g b (fst (r, w))"
  by simp

lemma oi_fail: "s \<in> set b \<Longrightarrow> outcome_in g b (fst (fail_with sp s e w))"
  by (simp add: fail_with_def outcome_in_def)

lemma oi_replay: "outcome_in g b r \<Longrightarrow> outcome_in g b (fst (finish_replay sp r w))"
  by (cases r) (simp_all add: finish_replay_def)

lemma oi_leaf: "s \<in> set g \<Longrightarrow> outcome_in g b (Success x s)" "s \<in> set b \<Longrightarrow> outcome_in g b (Failure s e)"
  "outcome_in g b (Crashed m)"
  by (simp_all add: outcome_in_def)

lemma oi_snapshot:
  "200 \<in> set g \<Longrightarrow> 500 \<in> set b \<Longrightarrow> outcome_in g b (deserializeSnapshot E s)"
  "200 \<in> set g \<Longrightarrow> 500 \<in> set b \<Longrightarrow> outcome_in g b (deserializeWithdrawSnapshot E s)"
  by (simp_all add: deserializeSnapshot_def deserializeWithdrawSnapshot_def outcome_in_def
      split: option.split)

lemmas oi_rules = oi_bind oi_res oi_if oi_pair oi_fail oi_replay oi_leaf oi_snapshot

lemma deposit_outcomes:
  "outcome_in [200, 201] [409, 422, 500] (fst (DepositService_Execute E svc ctx req w))"
proof -
  have race: "outcome_in [200, 201] [409, 422, 500] (fst (deposit_replayAfterRace E svc ctx k v))" for k v
    unfolding deposit_replayAfterRace_def by (intro oi_rules) simp_all
  have commit: "outcome_in [200, 201] [409, 422, 500] (fst (deposit_commit E svc ctx req c p resp s v))"
    for c p resp s v
  proof -
    have "outcome_in [200, 201] [409, 422, 500] (fst (case deposit_replayAfterRace E svc ctx k v of
        (r, w2) \<Rightarrow> finish_replay depositSpan r w2))" for k v
      using race [of k v] by (cases "deposit_replayAfterRace E svc ctx k v") (simp add: oi_replay)
    note replay = this
    show ?thesis
      unfolding deposit_commit_def by (rule replay oi_bind oi_res oi_if oi_pair oi_fail oi_leaf | simp)+
  qed
  have fresh: "outcome_in [200, 201] [409, 422, 500] (fst (deposit_fresh E svc ctx req c a amt pr v))" for c a amt pr v
    unfolding deposit_fresh_def Let_def by (intro oi_rules commit) simp_all
  have body: "outcome_in [200, 201] [409, 422, 500] (fst (deposit_body E svc ctx req v))" for v
    unfolding deposit_body_def by (intro oi_rules fresh) simp_all
  show ?thesis
    unfolding DepositService_Execute_def using body by (simp split: prod.split) (metis fst_conv)
qed

lemma withdraw_outcomes:
  "outcome_in [200] [404, 409, 422, 500] (fst (WithdrawService_Execute E svc ctx req w))"
proof -
  have race: "outcome_in [200] [404, 409, 422, 500] (fst (withdraw_replayAfterRace E svc ctx k v))" for k v
    unfolding withdraw_replayAfterRace_def by (intro oi_rules) simp_all
  have commit: "outcome_in [200] [404, 409, 422, 500] (fst (withdraw_commit E svc ctx req c d v))"
    for c d v
  proof -
    have "outcome_in [200] [404, 409, 422, 500] (fst (case withdraw_replayAfterRace E svc ctx k v of
        (r, w2) \<Rightarrow> finish_replay withdrawSpan r w2))" for k v
      using race [of k v] by (cases "withdraw_replayAfterRace E svc ctx k v") (simp add: oi_replay)
    note replay = this
    show ?thesis
      unfolding withdraw_commit_def by (rule replay oi_bind oi_res oi_if oi_pair oi_fail oi_leaf | simp)+
  qed
  have body: "outcome_in [200] [404, 409, 422, 500] (fst (withdraw_body E svc ctx req v))" for v
    unfolding withdraw_body_def withdraw_fresh_def by (intro oi_rules commit) simp_all
  show ?thesis
    unfolding WithdrawService_Execute_def using body by (simp split: prod.split) (metis fst_conv)
qed

subsection \<open>Running through the branches of a handler\<close>

locale world_pred =
  fixes I :: "'s world \<Rightarrow> bool"
  assumes inv_emit: "I w \<Longrightarrow> I (emit es w)"
    and inv_tick: "I w \<Longrightarrow> I (next_tick w)"
begin

lemma bind_inv: "I (snd x) \<Longrightarrow> (\<And>r v. I v \<Longrightarrow> I (snd (f r v))) \<Longrightarrow> I (snd (case x of (r, v) \<Rightarrow> f r v))"
  by (cases x) simp

lemma res_inv:
  "(\<And>a. I (snd (f a))) \<Longrightarrow> (\<And>e. I (snd (g e))) \<Longrightarrow> (\<And>m. I (snd (h m))) \<Longrightarrow>
     I (snd (case r of Ok a \<Rightarrow> f a | Err e \<Rightarrow> g e | Panicked m \<Rightarrow> h m))"
  by (cases r) simp_all

lemma exec_inv:
  "(\<And>a s. I (snd (f a s))) \<Longrightarrow> (\<And>s e. I (snd (g s e))) \<Longrightarrow> (\<And>m. I (snd (h m))) \<Longrightarrow>
     I (snd (case r of Success a s \<Rightarrow> f a s | Failure s e \<Rightarrow> g s e | Crashed m \<Rightarrow> h m))"
  by (cases r) simp_all

lemma if_inv: "I (snd a) \<Longrightarrow> I (snd b) \<Longrightarrow> I (snd (if c then a else b))"
  by simp

lemma pair_inv: "I w \<Longrightarrow> I (snd (x, w))"
  by simp

lemma inv_draw: "I w \<Longrightarrow> I (snd (time_Now E w))" "I w \<Longrightarrow> I (snd (uuid_New E w))"
  by (simp_all add: time_Now_def uuid_New_def inv_tick)

lemma inv_fail: "I w \<Longrightarrow> I (snd (fail_with sp st e w))"
  by (simp add: fail_with_def spanError_def inv_emit)

lemma inv_replay: "I w \<Longrightarrow> I (snd (finish_replay sp r w))"
  by (simp add: finish_replay_def spanError_def spanOK_def inv_emit split: exec.split)

lemma tup_inv: "(\<And>a b. I (snd (f a b))) \<Longrightarrow> I (snd (case x of (a, b) \<Rightarrow> f a b))"
  by (cases x) simp

lemmas run_inv = bind_inv tup_inv res_inv exec_inv if_inv pair_inv inv_emit inv_tick inv_draw inv_fail
  inv_replay

end

subsection \<open>Invariants\<close>

locale ports_inv = world_pred I
  for I :: "'s world \<Rightarrow> bool" +
  fixes clients :: "'s client_repository"
    and assets :: "'s asset_repository"
    and positions :: "('d, 's) position_repository"
    and commands :: "'s processed_command_repository"
    and uow :: "(unit, 's) unit_of_work"
    and wuow :: "(withdraw_response, 's) unit_of_work"
  assumes inv_client: "I w \<Longrightarrow> I (snd (cr_FindByID clients ctx c w))"
    and inv_asset: "I w \<Longrightarrow> I (snd (ar_FindByID assets ctx a w))"
    and inv_lots: "I w \<Longrightarrow> I (snd (pr_FindByClientAndInstrument positions ctx c i w))"
    and inv_create: "I w \<Longrightarrow> I (snd (pr_Create positions ctx p w))"
    and inv_update: "I w \<Longrightarrow> I (snd (pr_Update positions ctx p w))"
    and inv_find: "I w \<Longrightarrow> I (snd (pcr_FindByTypeAndOrderID commands ctx t k w))"
    and inv_record: "I w \<Longrightarrow> I (snd (pcr_Create commands ctx cmd w))"
    and inv_Do: "(\<And>c v. I v \<Longrightarrow> I (snd (fn c v))) \<Longrightarrow> I w \<Longrightarrow> I (snd (uow_Do uow ctx fn w))"
    and inv_WDo: "(\<And>c v. I v \<Longrightarrow> I (snd (gn c v))) \<Longrightarrow> I w \<Longrightarrow> I (snd (uow_Do wuow ctx gn w))"
begin

abbreviation "dep \<equiv> NewDepositService clients assets positions commands uow"
abbreviation "wdr \<equiv> NewWithdrawService clients positions commands wuow"

lemmas port_inv = inv_client inv_asset inv_lots inv_create inv_update inv_find inv_record

lemmas svc_simps = NewDepositService_def NewWithdrawService_def

lemma inv_deposit_tx: "I w \<Longrightarrow> I (snd (deposit_tx E dep req c p s ctx w))"
  unfolding deposit_tx_def svc_simps Let_def deposit_service.simps by (intro run_inv port_inv)

lemma inv_deposit_race: "I w \<Longrightarrow> I (snd (deposit_replayAfterRace E dep ctx k w))"
  unfolding deposit_replayAfterRace_def svc_simps deposit_service.simps by (intro run_inv port_inv)

lemma inv_deposit_commit: "I w \<Longrightarrow> I (snd (deposit_commit E dep ctx req c p resp s w))"
  unfolding deposit_commit_def spanOK_def
  by (simp only: svc_simps deposit_service.simps)
    (intro run_inv port_inv inv_Do inv_deposit_tx [unfolded svc_simps] inv_deposit_race [unfolded svc_simps])

lemma inv_deposit_fresh: "I w \<Longrightarrow> I (snd (deposit_fresh E dep ctx req c a amt pr w))"
  unfolding deposit_fresh_def Let_def
  by (simp only: svc_simps deposit_service.simps)
    (intro run_inv port_inv inv_deposit_commit [unfolded svc_simps])

theorem inv_DepositService_Execute: "I w \<Longrightarrow> I (snd (DepositService_Execute E dep ctx req w))"
  unfolding DepositService_Execute_def deposit_body_def
  by (simp only: svc_simps deposit_service.simps)
    (intro run_inv port_inv inv_deposit_fresh [unfolded svc_simps])

lemma inv_consume_lots: "I w \<Longrightarrow> I (snd (consume_lots E lots rem aff w))"
proof (induction lots arbitrary: rem aff w)
  case (Cons p ps)
  show ?case
    using Cons.prems Cons.IH [OF inv_tick [OF Cons.prems]] inv_tick [OF Cons.prems]
    by (simp add: time_Now_def Let_def split: option.split res.split)
qed simp

lemma inv_update_lots: "I w \<Longrightarrow> I (snd (update_lots wdr ctx lots w))"
proof (induction lots arbitrary: w)
  case (Cons p ps)
  show ?case
    unfolding update_lots.simps
    by (simp only: svc_simps withdraw_service.simps)
      (intro run_inv port_inv Cons.IH [unfolded svc_simps] Cons.prems)
qed simp

lemma inv_record_withdrawal: "I w \<Longrightarrow> I (snd (record_withdrawal E wdr req c ps ctx w))"
  unfolding record_withdrawal_def svc_simps Let_def withdraw_service.simps by (intro run_inv port_inv)

lemma inv_withdraw_tx: "I w \<Longrightarrow> I (snd (withdraw_tx E wdr req c v ctx w))"
  unfolding withdraw_tx_def
  by (simp only: svc_simps withdraw_service.simps)
    (intro run_inv port_inv inv_consume_lots inv_update_lots [unfolded svc_simps]
      inv_record_withdrawal [unfolded svc_simps])

lemma inv_withdraw_race: "I w \<Longrightarrow> I (snd (withdraw_replayAfterRace E wdr ctx k w))"
  unfolding withdraw_replayAfterRace_def svc_simps withdraw_service.simps by (intro run_inv port_inv)

lemma inv_withdraw_commit: "I w \<Longrightarrow> I (snd (withdraw_commit E wdr ctx req c v w))"
  unfolding withdraw_commit_def spanOK_def
  by (simp only: svc_simps withdraw_service.simps)
    (intro run_inv port_inv inv_WDo inv_withdraw_tx [unfolded svc_simps]
      inv_withdraw_race [unfolded svc_simps])

theorem inv_WithdrawService_Execute: "I w \<Longrightarrow> I (snd (WithdrawService_Execute E wdr ctx req w))"
  unfolding WithdrawService_Execute_def withdraw_body_def withdraw_fresh_def
  by (simp only: svc_simps withdraw_service.simps)
    (intro run_inv port_inv inv_withdraw_commit [unfolded svc_simps])

end

subsection \<open>Isolation\<close>

text \<open>
  \<open>C\<close> is the committed state, \<open>T ctx w\<close> says that \<open>ctx\<close> carries a transaction open in \<open>w\<close>.
\<close>

locale isolated_ports =
  fixes C :: "'s world \<Rightarrow> 'c"
    and T :: "go_ctx \<Rightarrow> 's world \<Rightarrow> bool"
    and clients :: "'s client_repository"
    and assets :: "'s asset_repository"
    and positions :: "('d, 's) position_repository"
    and commands :: "'s processed_command_repository"
    and uow :: "(unit, 's) unit_of_work"
    and wuow :: "(withdraw_response, 's) unit_of_work"
  assumes keep_emit: "C (emit es w) = C w" "T ctx (emit es w) = T ctx w"
    and keep_tick: "C (next_tick w) = C w" "T ctx (next_tick w) = T ctx w"
    and keep_client: "C (snd (cr_FindByID clients ctx' c w)) = C w"
    and keep_asset: "C (snd (ar_FindByID assets ctx' a w)) = C w"
    and keep_lots: "C (snd (pr_FindByClientAndInstrument positions ctx' c i w)) = C w"
      "T ctx w \<Longrightarrow> T ctx (snd (pr_FindByClientAndInstrument positions ctx' c i w))"
    and keep_find: "C (snd (pcr_FindByTypeAndOrderID commands ctx' t k w)) = C w"
    and keep_create: "T ctx w \<Longrightarrow> C (snd (pr_Create positions ctx p w)) = C w"
      "T ctx w \<Longrightarrow> T ctx (snd (pr_Create positions ctx p w))"
    and keep_update: "T ctx w \<Longrightarrow> C (snd (pr_Update positions ctx p w)) = C w"
      "T ctx w \<Longrightarrow> T ctx (snd (pr_Update positions ctx p w))"
    and keep_record: "T ctx w \<Longrightarrow> C (snd (pcr_Create commands ctx cmd w)) = C w"
      "T ctx w \<Longrightarrow> T ctx (snd (pcr_Create commands ctx cmd w))"
    and keep_Do: "(\<And>c v. C v = C w \<and> T c v \<Longrightarrow> C (snd (fn c v)) = C w \<and> T c (snd (fn c v))) \<Longrightarrow>
      \<not> is_Ok (fst (uow_Do uow ctx' fn w)) \<Longrightarrow> C (snd (uow_Do uow ctx' fn w)) = C w"
    and keep_WDo: "(\<And>c v. C v = C w \<and> T c v \<Longrightarrow> C (snd (gn c v)) = C w \<and> T c (snd (gn c v))) \<Longrightarrow>
      \<not> is_Ok (fst (uow_Do wuow ctx' gn w)) \<Longrightarrow> C (snd (uow_Do wuow ctx' gn w)) = C w"

sublocale isolated_ports \<subseteq> keep: world_pred "\<lambda>w. C w = c" for c
  by unfold_locales (simp_all add: keep_emit keep_tick)

sublocale isolated_ports \<subseteq> opened: world_pred "\<lambda>w. C w = c \<and> T ctx w" for c ctx
  by unfold_locales (simp_all add: keep_emit keep_tick)

context isolated_ports begin

abbreviation "dep \<equiv> NewDepositService clients assets positions commands uow"
abbreviation "wdr \<equiv> NewWithdrawService clients positions commands wuow"

lemmas svc_simps = NewDepositService_def NewWithdrawService_def

lemma reads:
  "C w = c \<Longrightarrow> C (snd (cr_FindByID clients ctx' x w)) = c"
  "C w = c \<Longrightarrow> C (snd (ar_FindByID assets ctx' a w)) = c"
  "C w = c \<Longrightarrow> C (snd (pcr_FindByTypeAndOrderID commands ctx' t k w)) = c"
  by (simp_all add: keep_client keep_asset keep_find)

lemma opened_ports:
  "C w = c \<and> T ctx w \<Longrightarrow> C (snd (pr_FindByClientAndInstrument positions ctx x i w)) = c \<and>
     T ctx (snd (pr_FindByClientAndInstrument positions ctx x i w))"
  "C w = c \<and> T ctx w \<Longrightarrow> C (snd (pr_Create positions ctx p w)) = c \<and> T ctx (snd (pr_Create positions ctx p w))"
  "C w = c \<and> T ctx w \<Longrightarrow> C (snd (pr_Update positions ctx p w)) = c \<and> T ctx (snd (pr_Update positions ctx p w))"
  "C w = c \<and> T ctx w \<Longrightarrow> C (snd (pcr_Create commands ctx cmd w)) = c \<and> T ctx (snd (pcr_Create commands ctx cmd w))"
  by (simp_all add: keep_lots keep_create keep_update keep_record)

text \<open>Unless the status is one of a fresh success, the committed state is \<open>c\<close>.\<close>

definition kept :: "(nat \<Rightarrow> bool) \<Rightarrow> 'c \<Rightarrow> 'r exec \<times> 's world \<Rightarrow> bool" where
  "kept fresh c x \<longleftrightarrow> (case fst x of Success _ s \<Rightarrow> fresh s | _ \<Rightarrow> False) \<or> C (snd x) = c"

lemma kept_bind: "C (snd x) = c \<Longrightarrow> (\<And>r v. C v = c \<Longrightarrow> kept fresh c (f r v)) \<Longrightarrow>
    kept fresh c (case x of (r, v) \<Rightarrow> f r v)"
  by (cases x) simp

lemma kept_tup: "(\<And>a b. kept fresh c (f a b)) \<Longrightarrow> kept fresh c (case x of (a, b) \<Rightarrow> f a b)"
  by (cases x) simp

lemma kept_res:
  "(\<And>a. kept fresh c (f a)) \<Longrightarrow> (\<And>e. kept fresh c (g e)) \<Longrightarrow> (\<And>m. kept fresh c (h m)) \<Longrightarrow>
     kept fresh c (case r of Ok a \<Rightarrow> f a | Err e \<Rightarrow> g e | Panicked m \<Rightarrow> h m)"
  by (cases r) simp_all

lemma kept_if: "kept fresh c a \<Longrightarrow> kept fresh c b \<Longrightarrow> kept fresh c (if q then a else b)"
  by simp

lemma kept_pair: "C w = c \<Longrightarrow> kept fresh c (r, w)"
  by (simp add: kept_def)

lemma kept_end: "C w = c \<Longrightarrow> kept fresh c (fail_with sp st e w)"
  "C w = c \<Longrightarrow> kept fresh c (finish_replay sp r w)"
  by (simp_all add: kept_def keep.inv_fail keep.inv_replay)

lemma kept_emit: "kept fresh c x \<Longrightarrow> kept fresh c (case x of (r, v) \<Rightarrow> (r, emit es v))"
  by (cases x) (simp add: kept_def keep_emit)

lemmas run_kept = kept_bind kept_tup kept_res kept_if kept_pair kept_end
  keep.inv_emit keep.inv_draw reads

lemma opened_deposit_tx:
  "C w = c \<and> T ctx w \<Longrightarrow>
     C (snd (deposit_tx E dep req cl p s ctx w)) = c \<and> T ctx (snd (deposit_tx E dep req cl p s ctx w))"
  unfolding deposit_tx_def svc_simps Let_def deposit_service.simps
  by (rule opened.run_inv | rule opened_ports | assumption)+

lemma kept_deposit_commit: "C w = c \<Longrightarrow> kept (\<lambda>s. s = 201) c (deposit_commit E dep ctx req cl p resp s w)"
proof -
  assume c: "C w = c"
  let ?do = "uow_Do (ds_unitOfWork dep) ctx (deposit_tx E dep req cl p s) w"
  have do: "\<not> is_Ok (fst ?do) \<Longrightarrow> C (snd ?do) = c"
    using keep_Do [of w "deposit_tx E dep req cl p s" ctx] opened_deposit_tx [of _ c] c
    by (simp add: svc_simps)
  have race: "C v = c \<Longrightarrow> C (snd (deposit_replayAfterRace E dep ctx k v)) = c" for k v
    unfolding deposit_replayAfterRace_def svc_simps deposit_service.simps
    by (intro keep.run_inv reads)
  obtain r v where rv: "?do = (r, v)" by (cases ?do)
  show ?thesis
  proof (cases r)
    case (Ok x)
    then show ?thesis by (simp add: deposit_commit_def rv kept_def)
  next
    case (Err e)
    then have "C v = c" using do rv by simp
    then show ?thesis
      unfolding deposit_commit_def rv Err prod.case res.case by (intro run_kept race)
  next
    case (Panicked m)
    then have "C v = c" using do rv by simp
    then show ?thesis by (simp add: deposit_commit_def rv Panicked kept_def)
  qed
qed

lemma kept_deposit_fresh: "C w = c \<Longrightarrow> kept (\<lambda>s. s = 201) c (deposit_fresh E dep ctx req cl a amt pr w)"
  unfolding deposit_fresh_def Let_def
  by (simp only: svc_simps deposit_service.simps)
    (intro run_kept kept_deposit_commit [unfolded svc_simps])

theorem kept_DepositService_Execute:
  "kept (\<lambda>s. s = 201) (C w) (DepositService_Execute E dep ctx req w)"
  unfolding DepositService_Execute_def deposit_body_def
  by (simp only: svc_simps deposit_service.simps)
    (intro kept_emit run_kept kept_deposit_fresh [unfolded svc_simps] refl)

lemma opened_update_lots:
  "C w = c \<and> T ctx w \<Longrightarrow>
     C (snd (update_lots wdr ctx lots w)) = c \<and> T ctx (snd (update_lots wdr ctx lots w))"
proof (induction lots arbitrary: w)
  case (Cons p ps)
  show ?case
    unfolding update_lots.simps
    by (simp only: svc_simps withdraw_service.simps)
      (rule opened.run_inv | rule opened_ports | rule Cons.IH [unfolded svc_simps] | rule Cons.prems
        | assumption)+
qed simp

lemma opened_consume_lots:
  "C w = c \<and> T ctx w \<Longrightarrow>
     C (snd (consume_lots E lots rem aff w)) = c \<and> T ctx (snd (consume_lots E lots rem aff w))"
proof (induction lots arbitrary: rem aff w)
  case (Cons p ps)
  have "C (next_tick w) = c \<and> T ctx (next_tick w)" using Cons.prems by (simp add: keep_tick)
  with Cons show ?case
    by (simp add: time_Now_def Let_def split: option.split res.split)
qed simp

lemma opened_withdraw_tx:
  "C w = c \<and> T ctx w \<Longrightarrow>
     C (snd (withdraw_tx E wdr req cl d ctx w)) = c \<and> T ctx (snd (withdraw_tx E wdr req cl d ctx w))"
  unfolding withdraw_tx_def record_withdrawal_def Let_def
  by (simp only: svc_simps withdraw_service.simps)
    (rule opened.run_inv | rule opened_ports | rule opened_consume_lots
      | rule opened_update_lots [unfolded svc_simps] | assumption)+

lemma kept_withdraw_commit: "C w = c \<Longrightarrow> kept (\<lambda>s. True) c (withdraw_commit E wdr ctx req cl d w)"
proof -
  assume c: "C w = c"
  let ?do = "uow_Do (ws_unitOfWork wdr) ctx (withdraw_tx E wdr req cl d) w"
  have do: "\<not> is_Ok (fst ?do) \<Longrightarrow> C (snd ?do) = c"
    using keep_WDo [of w "withdraw_tx E wdr req cl d" ctx] opened_withdraw_tx [of _ c] c
    by (simp add: svc_simps)
  have race: "C v = c \<Longrightarrow> C (snd (withdraw_replayAfterRace E wdr ctx k v)) = c" for k v
    unfolding withdraw_replayAfterRace_def svc_simps withdraw_service.simps
    by (intro keep.run_inv reads)
  obtain r v where rv: "?do = (r, v)" by (cases ?do)
  show ?thesis
  proof (cases r)
    case (Ok x)
    then show ?thesis by (simp add: withdraw_commit_def rv kept_def)
  next
    case (Err e)
    then have "C v = c" using do rv by simp
    then show ?thesis
      unfolding withdraw_commit_def rv Err prod.case res.case by (intro run_kept race)
  next
    case (Panicked m)
    then have "C v = c" using do rv by simp
    then show ?thesis by (simp add: withdraw_commit_def rv Panicked kept_def)
  qed
qed

theorem kept_WithdrawService_Execute:
  "kept (\<lambda>s. True) (C w) (WithdrawService_Execute E wdr ctx req w)"
  unfolding WithdrawService_Execute_def withdraw_body_def withdraw_fresh_def
  by (simp only: svc_simps withdraw_service.simps)
    (intro kept_emit run_kept kept_withdraw_commit [unfolded svc_simps] refl)

end

end
