(* ===== verification/Postgres.thy ===== *)
theory Postgres
  imports Withdraw
begin

text \<open>
  \<open>internal/adapters/outbound/postgres\<close> over the schema of \<open>migrations/001_initial_schema.sql\<close>.
  The tables are lists of rows; each SQL statement of the source is a function on them, with the
  declared types and constraints of the schema (scale and precision of \<open>NUMERIC\<close>, \<open>CHECK\<close>,
  primary keys, the unique index, foreign keys).  The server is a parameter: which round trip
  fails and how (a parameter text the server refuses is such a fault), what other sessions commit between two statements of this one, whether a commit
  that reports an error took effect, and the text forms of its types.  A statement sees what is
  committed and the writes of its own transaction (READ COMMITTED).
\<close>

subsection \<open>Schema\<close>

record client_row =
  c_client_id :: uuid
  c_external_id :: string
  c_created_at :: gotime

record asset_row =
  a_asset_id :: uuid
  a_instrument_id :: string
  a_product_type :: string
  a_offer_id :: "string option"
  a_emission_entity_id :: string
  a_issuer_document_id :: "string option"
  a_market_code :: "string option"
  a_asset_name :: string
  a_issuance_date :: gotime
  a_maturity_date :: gotime
  a_created_at :: gotime

record position_row =
  p_position_id :: uuid
  p_client_id :: uuid
  p_asset_id :: uuid
  p_amount :: rat
  p_unit_price :: rat
  p_total_value :: rat
  p_collateral_value :: rat
  p_judiciary_collateral_value :: rat
  p_created_at :: gotime
  p_updated_at :: gotime
  p_purchased_at :: gotime
  p_row_version :: int

record command_row =
  k_command_id :: uuid
  k_command_type :: string
  k_order_id :: string
  k_client_id :: uuid
  k_response_snapshot :: string
  k_created_at :: gotime

record db =
  db_clients :: "client_row list"
  db_assets :: "asset_row list"
  db_positions :: "position_row list"
  db_commands :: "command_row list"

text \<open>The \<open>CHECK\<close> constraints of table positions.\<close>

definition position_checks :: "position_row \<Rightarrow> bool" where
  "position_checks r \<longleftrightarrow>
     0 \<le> p_amount r \<and> 0 \<le> p_unit_price r \<and> 0 \<le> p_total_value r \<and>
     0 \<le> p_collateral_value r \<and> 0 \<le> p_judiciary_collateral_value r \<and>
     0 < p_row_version r \<and> p_total_value r = p_amount r * p_unit_price r"

definition asset_checks :: "asset_row \<Rightarrow> bool" where
  "asset_checks r \<longleftrightarrow>
     a_product_type r \<in> set [''CDB'', ''LF'', ''LCI'', ''LCA'', ''CRI'', ''CRA'', ''LFT'']"

text \<open>Storing into \<open>NUMERIC(p, s)\<close>: round to the scale, then the precision must suffice.\<close>

definition numeric_store :: "nat \<Rightarrow> nat \<Rightarrow> rat \<Rightarrow> rat option" where
  "numeric_store p s x =
     (let y = round_places s x in if \<bar>y\<bar> < 10 ^ (p - s) then Some y else None)"

definition int4_range :: "int \<Rightarrow> bool" where
  "int4_range n \<longleftrightarrow> - 2147483648 \<le> n \<and> n < 2147483648"

subsection \<open>Server and session\<close>

record pg_server =
  sv_fault :: "nat \<Rightarrow> go_error option"
  sv_interfere :: "nat \<Rightarrow> db \<Rightarrow> db"
  sv_commit_applied :: "nat \<Rightarrow> bool"
  sv_stream :: "nat \<Rightarrow> (nat \<times> go_error) option"
  sv_errtext :: "string \<Rightarrow> string"
  sv_numeric_in :: "string \<Rightarrow> rat option"
  sv_numeric_out :: "nat \<Rightarrow> rat \<Rightarrow> string"
  sv_jsonb :: "string \<Rightarrow> string option"
  sv_timestamptz :: "gotime \<Rightarrow> gotime"
  sv_date :: "gotime \<Rightarrow> gotime"

text \<open>What is committed, and the view of the transaction this request has open.\<close>

record pg_store =
  st_db :: db
  st_tx :: "db option"

definition pg_error :: "pg_server \<Rightarrow> string \<Rightarrow> go_error" where
  "pg_error S code = PgError code (sv_errtext S code)"

text \<open>A round trip: other sessions may have committed meanwhile; the driver may report a fault.\<close>

definition pg_call :: "pg_server \<Rightarrow> pg_store world \<Rightarrow> go_error option \<times> pg_store world" where
  "pg_call S w =
     (let k = w_tick w; st = w_store w in
      (sv_fault S k,
       w\<lparr>w_tick := Suc k,
         w_store := \<lparr>st_db = sv_interfere S k (st_db st),
                     st_tx = map_option (sv_interfere S k) (st_tx st)\<rparr>\<rparr>))"

text \<open>\<open>executorFromContext\<close>: the transaction of the context if there is one, else the pool.\<close>

definition executorFromContext :: "go_ctx \<Rightarrow> pg_store \<Rightarrow> db" where
  "executorFromContext ctx st =
     (if ctx_tx ctx then (case st_tx st of Some d \<Rightarrow> d | None \<Rightarrow> st_db st) else st_db st)"

definition write_through :: "go_ctx \<Rightarrow> db \<Rightarrow> pg_store world \<Rightarrow> pg_store world" where
  "write_through ctx d w =
     w\<lparr>w_store := (if ctx_tx ctx \<and> st_tx (w_store w) \<noteq> None
        then (w_store w)\<lparr>st_tx := Some d\<rparr> else (w_store w)\<lparr>st_db := d\<rparr>)\<rparr>"

text \<open>A statement that reads, and one that writes (or fails with an SQLSTATE error).\<close>

definition pg_query :: "pg_server \<Rightarrow> go_ctx \<Rightarrow> (db \<Rightarrow> 'a res) \<Rightarrow> ('a, pg_store) action" where
  "pg_query S ctx q w =
     (case pg_call S w of
        (Some e, w1) \<Rightarrow> (Err e, w1)
      | (None, w1) \<Rightarrow> (q (executorFromContext ctx (w_store w1)), w1))"

definition pg_exec :: "pg_server \<Rightarrow> go_ctx \<Rightarrow> (db \<Rightarrow> ('a \<times> db) res) \<Rightarrow> ('a, pg_store) action" where
  "pg_exec S ctx x w =
     (case pg_call S w of
        (Some e, w1) \<Rightarrow> (Err e, w1)
      | (None, w1) \<Rightarrow>
          (case x (executorFromContext ctx (w_store w1)) of
             Ok (a, d) \<Rightarrow> (Ok a, write_through ctx d w1)
           | Err e \<Rightarrow> (Err e, w1)
           | Panicked m \<Rightarrow> (Panicked m, w1)))"

definition startDBSpan :: "string \<Rightarrow> string \<Rightarrow> pg_store world \<Rightarrow> pg_store world" where
  "startDBSpan sp operation w =
     emit [SpanStart sp, SpanAttr sp ''db.system'' ''postgresql'',
           SpanAttr sp ''db.operation.name'' operation] w"

text \<open>
  The end of an operation with a span: its status, the recorded error, and the deferred
  \<open>span.End()\<close>.
\<close>

definition endDBSpan :: "string \<Rightarrow> 'a res \<times> pg_store world \<Rightarrow> 'a res \<times> pg_store world" where
  "endDBSpan sp rw =
     (case rw of
        (Ok x, w) \<Rightarrow> (Ok x, emit [SpanStatus sp CodeOk '''', SpanEnd sp] w)
      | (Err e, w) \<Rightarrow>
          (Err e, emit [SpanStatus sp CodeError (error_text e), SpanRecordError sp (error_text e),
             SpanEnd sp] w)
      | (Panicked m, w) \<Rightarrow> (Panicked m, emit [SpanEnd sp] w))"

definition log_error :: "go_ctx \<Rightarrow> string \<Rightarrow> attrs \<Rightarrow> pg_store world \<Rightarrow> pg_store world" where
  "log_error ctx msg as w = emit [LogRecord (LoggerFromContext ctx w) LevelError msg as] w"

definition nullableString :: "string \<Rightarrow> string option" where
  "nullableString s = (if s = '''' then None else Some s)"

definition stringFromNullable :: "string option \<Rightarrow> string" where
  "stringFromNullable s = (case s of None \<Rightarrow> '''' | Some t \<Rightarrow> t)"

lemma stringFromNullable_nullableString [simp]: "stringFromNullable (nullableString s) = s"
  by (simp add: nullableString_def stringFromNullable_def)

subsection \<open>Clients (\<open>client_repository.go\<close>)\<close>

definition select_client :: "uuid \<Rightarrow> db \<Rightarrow> client_row res" where
  "select_client cid d =
     (case filter (\<lambda>r. c_client_id r = cid) (db_clients d) of r # _ \<Rightarrow> Ok r | [] \<Rightarrow> Err ErrNoRows)"

definition ClientRepository_FindByID ::
    "'d env \<Rightarrow> pg_server \<Rightarrow> go_ctx \<Rightarrow> uuid \<Rightarrow> (client, pg_store) action" where
  "ClientRepository_FindByID E S ctx clientID w =
     endDBSpan ''db.client.find_by_id''
       (case pg_query S ctx (select_client clientID) (startDBSpan ''db.client.find_by_id'' ''SELECT'' w) of
          (Panicked m, w1) \<Rightarrow> (Panicked m, w1)
        | (Err err, w1) \<Rightarrow>
            if errors_Is_NoRows err
            then (Err (Wrapped (''client '' @ e_uuidString E clientID) (Sentinel ErrNotFound)), w1)
            else (Err (Wrapped (''querying client '' @ e_uuidString E clientID) err),
              log_error ctx ''FindByID: query failed''
                [(''client_id'', AStr (e_uuidString E clientID)), (''error'', AStr (error_text err))] w1)
        | (Ok r, w1) \<Rightarrow> (Ok (ReconstructClient (c_client_id r) (c_external_id r) (c_created_at r)), w1))"

definition insert_client :: "pg_server \<Rightarrow> client \<Rightarrow> db \<Rightarrow> (unit \<times> db) res" where
  "insert_client S c d =
     (if list_ex (\<lambda>r. c_client_id r = cl_clientID c) (db_clients d) then Err (pg_error S ''23505'')
      else Ok ((), d\<lparr>db_clients := db_clients d @
        [\<lparr>c_client_id = cl_clientID c, c_external_id = cl_externalID c,
          c_created_at = sv_timestamptz S (cl_createdAt c)\<rparr>]\<rparr>))"

definition ClientRepository_Create ::
    "'d env \<Rightarrow> pg_server \<Rightarrow> go_ctx \<Rightarrow> client \<Rightarrow> (unit, pg_store) action" where
  "ClientRepository_Create E S ctx c w =
     (case pg_exec S ctx (insert_client S c) w of
        (Panicked m, w1) \<Rightarrow> (Panicked m, w1)
      | (Err err, w1) \<Rightarrow>
          (Err (Wrapped (''inserting client '' @ e_uuidString E (cl_clientID c)) err),
           log_error ctx ''Create: exec failed''
             [(''client_id'', AStr (e_uuidString E (cl_clientID c))), (''error'', AStr (error_text err))] w1)
      | (Ok _, w1) \<Rightarrow> (Ok (), w1))"

subsection \<open>Assets (\<open>asset_repository.go\<close>)\<close>

definition select_asset :: "(asset_row \<Rightarrow> bool) \<Rightarrow> db \<Rightarrow> asset_row res" where
  "select_asset cond d =
     (case filter cond (db_assets d) of r # _ \<Rightarrow> Ok r | [] \<Rightarrow> Err ErrNoRows)"

definition scanAsset :: "string \<Rightarrow> asset_row res \<Rightarrow> asset res" where
  "scanAsset label row =
     (case row of
        Panicked m \<Rightarrow> Panicked m
      | Err err \<Rightarrow>
          if errors_Is_NoRows err then Err (Wrapped label (Sentinel ErrNotFound))
          else Err (Wrapped (''querying '' @ label) err)
      | Ok r \<Rightarrow> Ok (ReconstructAsset (a_asset_id r) (a_instrument_id r) (a_product_type r)
          (stringFromNullable (a_offer_id r)) (a_emission_entity_id r)
          (stringFromNullable (a_issuer_document_id r)) (stringFromNullable (a_market_code r))
          (a_asset_name r) (a_issuance_date r) (a_maturity_date r) (a_created_at r)))"

definition AssetRepository_FindByID ::
    "'d env \<Rightarrow> pg_server \<Rightarrow> go_ctx \<Rightarrow> uuid \<Rightarrow> (asset, pg_store) action" where
  "AssetRepository_FindByID E S ctx assetID w =
     endDBSpan ''db.asset.find_by_id''
       (case pg_query S ctx (select_asset (\<lambda>r. a_asset_id r = assetID))
              (startDBSpan ''db.asset.find_by_id'' ''SELECT'' w) of
          (row, w1) \<Rightarrow>
            (case scanAsset (''asset '' @ e_uuidString E assetID) row of
               Panicked m \<Rightarrow> (Panicked m, w1)
             | Ok asset \<Rightarrow> (Ok asset, w1)
             | Err err \<Rightarrow>
                 (Err err,
                  if \<not> errors_Is err ErrNotFound
                  then log_error ctx ''FindByID: query failed''
                    [(''asset_id'', AStr (e_uuidString E assetID)), (''error'', AStr (error_text err))] w1
                  else w1)))"

definition AssetRepository_FindByInstrumentID ::
    "'d env \<Rightarrow> pg_server \<Rightarrow> go_ctx \<Rightarrow> string \<Rightarrow> (asset, pg_store) action" where
  "AssetRepository_FindByInstrumentID E S ctx instrumentID w =
     (case pg_query S ctx (select_asset (\<lambda>r. a_instrument_id r = instrumentID)) w of
        (row, w1) \<Rightarrow>
          (case scanAsset (''asset with instrument_id '' @ instrumentID) row of
             Panicked m \<Rightarrow> (Panicked m, w1)
           | Ok asset \<Rightarrow> (Ok asset, w1)
           | Err err \<Rightarrow>
               (Err err,
                if \<not> errors_Is err ErrNotFound
                then log_error ctx ''FindByInstrumentID: query failed''
                  [(''instrument_id'', AStr instrumentID), (''error'', AStr (error_text err))] w1
                else w1)))"

definition asset_row_of :: "pg_server \<Rightarrow> asset \<Rightarrow> asset_row" where
  "asset_row_of S a =
     \<lparr>a_asset_id = as_assetID a, a_instrument_id = as_instrumentID a,
      a_product_type = as_productType a, a_offer_id = nullableString (as_offerID a),
      a_emission_entity_id = as_emissionEntityID a,
      a_issuer_document_id = nullableString (as_issuerDocumentID a),
      a_market_code = nullableString (as_marketCode a), a_asset_name = as_assetName a,
      a_issuance_date = sv_date S (as_issuanceDate a),
      a_maturity_date = sv_date S (as_maturityDate a),
      a_created_at = sv_timestamptz S (as_createdAt a)\<rparr>"

definition insert_asset :: "pg_server \<Rightarrow> asset \<Rightarrow> db \<Rightarrow> (unit \<times> db) res" where
  "insert_asset S a d =
     (if \<not> asset_checks (asset_row_of S a) then Err (pg_error S ''23514'')
      else if list_ex (\<lambda>r. a_asset_id r = as_assetID a) (db_assets d) then Err (pg_error S ''23505'')
      else Ok ((), d\<lparr>db_assets := db_assets d @ [asset_row_of S a]\<rparr>))"

definition AssetRepository_Create ::
    "'d env \<Rightarrow> pg_server \<Rightarrow> go_ctx \<Rightarrow> asset \<Rightarrow> (unit, pg_store) action" where
  "AssetRepository_Create E S ctx a w =
     (case pg_exec S ctx (insert_asset S a) w of
        (Panicked m, w1) \<Rightarrow> (Panicked m, w1)
      | (Err err, w1) \<Rightarrow>
          (Err (Wrapped (''inserting asset '' @ e_uuidString E (as_assetID a)) err),
           log_error ctx ''Create: exec failed''
             [(''asset_id'', AStr (e_uuidString E (as_assetID a))), (''error'', AStr (error_text err))] w1)
      | (Ok _, w1) \<Rightarrow> (Ok (), w1))"

subsection \<open>Positions (\<open>position_repository.go\<close>)\<close>

text \<open>\<open>parsePosition\<close> and \<open>scanPosition\<close>: the columns arrive as text and are parsed back.\<close>

definition parsePosition ::
    "'d env \<Rightarrow> uuid \<Rightarrow> uuid \<Rightarrow> uuid \<Rightarrow> string \<Rightarrow> string \<Rightarrow> string \<Rightarrow> string \<Rightarrow> string \<Rightarrow>
     gotime \<Rightarrow> gotime \<Rightarrow> gotime \<Rightarrow> 64 word \<Rightarrow> 'd position res" where
  "parsePosition E positionID clientID assetID amount unitPrice totalValue collateralValue
     judiciaryCollateralValue createdAt updatedAt purchasedAt rowVersion =
     (let parse = d_NewFromString (e_dec E);
          bad = (\<lambda>field text. Err (Wrapped (''parsing '' @ field @ '' '' @ go_quote text)
                  (Opaque (e_decErr E text))))
      in case parse amount of
        None \<Rightarrow> bad ''amount'' amount
      | Some amountDec \<Rightarrow>
      (case parse unitPrice of
        None \<Rightarrow> bad ''unit_price'' unitPrice
      | Some unitPriceDec \<Rightarrow>
      (case parse totalValue of
        None \<Rightarrow> bad ''total_value'' totalValue
      | Some totalValueDec \<Rightarrow>
      (case parse collateralValue of
        None \<Rightarrow> bad ''collateral_value'' collateralValue
      | Some collateralDec \<Rightarrow>
      (case parse judiciaryCollateralValue of
        None \<Rightarrow> bad ''judiciary_collateral_value'' judiciaryCollateralValue
      | Some judiciaryDec \<Rightarrow>
          ReconstructPosition (e_dec E) positionID clientID assetID amountDec unitPriceDec
            totalValueDec collateralDec judiciaryDec createdAt updatedAt purchasedAt rowVersion)))))"

definition scanPosition :: "'d env \<Rightarrow> pg_server \<Rightarrow> position_row \<Rightarrow> 'd position res" where
  "scanPosition E S r =
     parsePosition E (p_position_id r) (p_client_id r) (p_asset_id r)
       (sv_numeric_out S 6 (p_amount r)) (sv_numeric_out S 8 (p_unit_price r))
       (sv_numeric_out S 8 (p_total_value r)) (sv_numeric_out S 8 (p_collateral_value r))
       (sv_numeric_out S 8 (p_judiciary_collateral_value r))
       (p_created_at r) (p_updated_at r) (p_purchased_at r) (word_of_int (p_row_version r))"

text \<open>
  The rows a query delivers, and what \<open>rows.Err()\<close> says after them: the stream of the query in
  round trip \<open>k\<close> may break off after some rows.
\<close>

definition fetch_rows :: "pg_server \<Rightarrow> nat \<Rightarrow> 'r list \<Rightarrow> 'r list \<times> go_error option" where
  "fetch_rows S k rows =
     (case sv_stream S k of None \<Rightarrow> (rows, None) | Some (n, e) \<Rightarrow> (take n rows, Some e))"

fun collectPositions ::
    "'d env \<Rightarrow> pg_server \<Rightarrow> position_row list \<Rightarrow> go_error option \<Rightarrow> 'd position list res" where
  "collectPositions E S [] err =
     (case err of Some e \<Rightarrow> Err (Wrapped ''iterating position rows'' e) | None \<Rightarrow> Ok [])"
| "collectPositions E S (r # rs) err =
     (case scanPosition E S r of
        Panicked m \<Rightarrow> Panicked m
      | Err err \<Rightarrow> Err (Wrapped ''scanning position row'' err)
      | Ok p \<Rightarrow>
          (case collectPositions E S rs err of
             Panicked m \<Rightarrow> Panicked m
           | Err err \<Rightarrow> Err err
           | Ok ps \<Rightarrow> Ok (p # ps)))"

definition select_position :: "uuid \<Rightarrow> db \<Rightarrow> position_row res" where
  "select_position pid d =
     (case filter (\<lambda>r. p_position_id r = pid) (db_positions d) of r # _ \<Rightarrow> Ok r | [] \<Rightarrow> Err ErrNoRows)"

definition PositionRepository_FindByID ::
    "'d env \<Rightarrow> pg_server \<Rightarrow> go_ctx \<Rightarrow> uuid \<Rightarrow> ('d position, pg_store) action" where
  "PositionRepository_FindByID E S ctx positionID w =
     (case pg_query S ctx (\<lambda>d. case select_position positionID d of
              Ok r \<Rightarrow> scanPosition E S r | Err e \<Rightarrow> Err e | Panicked m \<Rightarrow> Panicked m) w of
        (Panicked m, w1) \<Rightarrow> (Panicked m, w1)
      | (Ok p, w1) \<Rightarrow> (Ok p, w1)
      | (Err err, w1) \<Rightarrow>
          if errors_Is_NoRows err
          then (Err (Wrapped (''position '' @ e_uuidString E positionID) (Sentinel ErrNotFound)), w1)
          else (Err (Wrapped (''querying position '' @ e_uuidString E positionID) err),
            log_error ctx ''FindByID: query failed''
              [(''position_id'', AStr (e_uuidString E positionID)), (''error'', AStr (error_text err))] w1))"

definition PositionRepository_FindByClientAndAsset ::
    "'d env \<Rightarrow> pg_server \<Rightarrow> go_ctx \<Rightarrow> uuid \<Rightarrow> uuid \<Rightarrow> ('d position list, pg_store) action" where
  "PositionRepository_FindByClientAndAsset E S ctx clientID assetID w =
     (case pg_query S ctx (\<lambda>d. Ok (filter (\<lambda>r. p_client_id r = clientID \<and> p_asset_id r = assetID)
              (db_positions d))) w of
        (Panicked m, w1) \<Rightarrow> (Panicked m, w1)
      | (Ok rows, w1) \<Rightarrow>
          (case fetch_rows S (w_tick w) rows of (rs, err) \<Rightarrow> (collectPositions E S rs err, w1))
      | (Err err, w1) \<Rightarrow>
          (Err (Wrapped (''querying positions for client '' @ e_uuidString E clientID @ '' asset '' @
              e_uuidString E assetID) err),
           log_error ctx ''FindByClientAndAsset: query failed''
             [(''client_id'', AStr (e_uuidString E clientID)), (''asset_id'', AStr (e_uuidString E assetID)),
              (''error'', AStr (error_text err))] w1))"

definition instant :: "gotime \<Rightarrow> int" where
  "instant t = t_sec t * 1000000000 + t_nsec t"

text \<open>\<open>... JOIN assets a ON p.asset_id = a.asset_id WHERE ... ORDER BY p.purchased_at ASC\<close>.\<close>

definition select_lots :: "uuid \<Rightarrow> string \<Rightarrow> db \<Rightarrow> position_row list" where
  "select_lots clientID instrumentID d =
     sort_key (\<lambda>p. instant (p_purchased_at p))
       [p. p \<leftarrow> db_positions d, p_client_id p = clientID,
           a \<leftarrow> db_assets d, p_asset_id p = a_asset_id a \<and> a_instrument_id a = instrumentID]"

definition PositionRepository_FindByClientAndInstrument ::
    "'d env \<Rightarrow> pg_server \<Rightarrow> go_ctx \<Rightarrow> uuid \<Rightarrow> string \<Rightarrow> ('d position list, pg_store) action" where
  "PositionRepository_FindByClientAndInstrument E S ctx clientID instrumentID w =
     endDBSpan ''db.position.find_by_client_and_instrument''
       (case pg_query S ctx (\<lambda>d. Ok (select_lots clientID instrumentID d))
              (startDBSpan ''db.position.find_by_client_and_instrument'' ''SELECT'' w) of
          (Panicked m, w1) \<Rightarrow> (Panicked m, w1)
        | (Ok rows, w1) \<Rightarrow>
            (case fetch_rows S (w_tick w) rows of (rs, err) \<Rightarrow> (collectPositions E S rs err, w1))
        | (Err err, w1) \<Rightarrow>
            (Err (Wrapped (''querying positions for client '' @ e_uuidString E clientID @
                '' instrument '' @ instrumentID) err),
             log_error ctx ''FindByClientAndInstrument: query failed''
               [(''client_id'', AStr (e_uuidString E clientID)), (''instrument_id'', AStr instrumentID),
                (''error'', AStr (error_text err))] w1))"

text \<open>The \<open>NUMERIC\<close> columns of a row, from the texts the repository sends.\<close>

definition numeric_columns ::
    "'d env \<Rightarrow> pg_server \<Rightarrow> 'd position \<Rightarrow> (rat \<times> rat \<times> rat \<times> rat \<times> rat) res" where
  "numeric_columns E S p =
     (let arg = (\<lambda>x. sv_numeric_in S (d_String (e_dec E) x)) in
      case (arg (pos_amount p), arg (pos_unitPrice p), arg (pos_totalValue p),
            arg (pos_collateralValue p), arg (pos_judiciaryCollateralValue p)) of
        (Some a, Some u, Some t, Some c, Some j) \<Rightarrow>
          (case (numeric_store 18 6 a, numeric_store 20 8 u, numeric_store 20 8 t,
                 numeric_store 20 8 c, numeric_store 20 8 j) of
             (Some a', Some u', Some t', Some c', Some j') \<Rightarrow> Ok (a', u', t', c', j')
           | _ \<Rightarrow> Err (pg_error S ''22003''))
      | _ \<Rightarrow> Err (pg_error S ''22P02''))"

definition inserted_row ::
    "pg_server \<Rightarrow> 'd position \<Rightarrow> rat \<times> rat \<times> rat \<times> rat \<times> rat \<Rightarrow> position_row" where
  "inserted_row S p cols =
     (case cols of (a, u, t, c, j) \<Rightarrow>
        \<lparr>p_position_id = pos_positionID p, p_client_id = pos_clientID p,
         p_asset_id = pos_assetID p, p_amount = a, p_unit_price = u, p_total_value = t,
         p_collateral_value = c, p_judiciary_collateral_value = j,
         p_created_at = sv_timestamptz S (pos_createdAt p),
         p_updated_at = sv_timestamptz S (pos_updatedAt p),
         p_purchased_at = sv_timestamptz S (pos_purchasedAt p),
         p_row_version = sint (pos_rowVersion p)\<rparr>)"

definition insert_position :: "'d env \<Rightarrow> pg_server \<Rightarrow> 'd position \<Rightarrow> db \<Rightarrow> (unit \<times> db) res" where
  "insert_position E S p d =
     (if \<not> int4_range (sint (pos_rowVersion p)) then Err (Opaque (sv_errtext S ''int4''))
      else case numeric_columns E S p of
        Panicked m \<Rightarrow> Panicked m
      | Err e \<Rightarrow> Err e
      | Ok cols \<Rightarrow>
          (let r = inserted_row S p cols
           in if \<not> position_checks r then Err (pg_error S ''23514'')
              else if list_ex (\<lambda>q. p_position_id q = p_position_id r) (db_positions d)
              then Err (pg_error S ''23505'')
              else if \<not> list_ex (\<lambda>q. c_client_id q = p_client_id r) (db_clients d) \<or>
                      \<not> list_ex (\<lambda>q. a_asset_id q = p_asset_id r) (db_assets d)
              then Err (pg_error S ''23503'')
              else Ok ((), d\<lparr>db_positions := db_positions d @ [r]\<rparr>)))"

definition PositionRepository_Create ::
    "'d env \<Rightarrow> pg_server \<Rightarrow> go_ctx \<Rightarrow> 'd position \<Rightarrow> (unit, pg_store) action" where
  "PositionRepository_Create E S ctx p w =
     endDBSpan ''db.position.create''
       (case pg_exec S ctx (insert_position E S p) (startDBSpan ''db.position.create'' ''INSERT'' w) of
          (Panicked m, w1) \<Rightarrow> (Panicked m, w1)
        | (Err err, w1) \<Rightarrow>
            (Err (Wrapped (''inserting position '' @ e_uuidString E (pos_positionID p)) err),
             log_error ctx ''Create: exec failed''
               [(''position_id'', AStr (e_uuidString E (pos_positionID p))),
                (''error'', AStr (error_text err))] w1)
        | (Ok _, w1) \<Rightarrow> (Ok (), w1))"

text \<open>
  \<open>UPDATE positions SET ... WHERE position_id = $8 AND row_version = $9\<close> with
  \<open>$9 = RowVersion() - 1\<close>: the number of rows affected and the new table.
\<close>

definition updated_row ::
    "pg_server \<Rightarrow> 'd position \<Rightarrow> rat \<times> rat \<times> rat \<times> rat \<times> rat \<Rightarrow> position_row \<Rightarrow> position_row" where
  "updated_row S p cols r =
     (case cols of (a, u, t, c, j) \<Rightarrow>
        r\<lparr>p_amount := a, p_unit_price := u, p_total_value := t, p_collateral_value := c,
          p_judiciary_collateral_value := j, p_updated_at := sv_timestamptz S (pos_updatedAt p),
          p_row_version := sint (pos_rowVersion p)\<rparr>)"

definition update_matches :: "'d position \<Rightarrow> position_row \<Rightarrow> bool" where
  "update_matches p r \<longleftrightarrow>
     p_position_id r = pos_positionID p \<and> p_row_version r = sint (pos_rowVersion p - 1)"

definition update_position :: "'d env \<Rightarrow> pg_server \<Rightarrow> 'd position \<Rightarrow> db \<Rightarrow> (nat \<times> db) res" where
  "update_position E S p d =
     (if \<not> int4_range (sint (pos_rowVersion p)) \<or> \<not> int4_range (sint (pos_rowVersion p - 1))
      then Err (Opaque (sv_errtext S ''int4''))
      else case filter (update_matches p) (db_positions d) of
        [] \<Rightarrow> Ok (0, d)
      | hit # rest \<Rightarrow>
          (case numeric_columns E S p of
             Panicked m \<Rightarrow> Panicked m
           | Err e \<Rightarrow> Err e
           | Ok cols \<Rightarrow>
               if \<not> list_all (\<lambda>r. position_checks (updated_row S p cols r)) (hit # rest)
               then Err (pg_error S ''23514'')
               else Ok (length (hit # rest), d\<lparr>db_positions :=
                 map (\<lambda>r. if update_matches p r then updated_row S p cols r else r) (db_positions d)\<rparr>)))"

definition PositionRepository_Update ::
    "'d env \<Rightarrow> pg_server \<Rightarrow> go_ctx \<Rightarrow> 'd position \<Rightarrow> (unit, pg_store) action" where
  "PositionRepository_Update E S ctx p w =
     endDBSpan ''db.position.update''
       (case pg_exec S ctx (update_position E S p) (startDBSpan ''db.position.update'' ''UPDATE'' w) of
          (Panicked m, w1) \<Rightarrow> (Panicked m, w1)
        | (Err err, w1) \<Rightarrow>
            (Err (Wrapped (''updating position '' @ e_uuidString E (pos_positionID p)) err),
             log_error ctx ''Update: exec failed''
               [(''position_id'', AStr (e_uuidString E (pos_positionID p))),
                (''error'', AStr (error_text err))] w1)
        | (Ok n, w1) \<Rightarrow>
            if n = 0
            then (Err (Wrapped (''position '' @ e_uuidString E (pos_positionID p))
                    (Sentinel ErrConcurrencyConflict)), w1)
            else (Ok (), w1))"

subsection \<open>Processed commands (\<open>processed_command_repository.go\<close>)\<close>

definition pgUniqueViolation :: string where
  "pgUniqueViolation = ''23505''"

definition select_command :: "string \<Rightarrow> string \<Rightarrow> db \<Rightarrow> command_row res" where
  "select_command commandType orderID d =
     (case filter (\<lambda>r. k_command_type r = commandType \<and> k_order_id r = orderID) (db_commands d) of
        r # _ \<Rightarrow> Ok r | [] \<Rightarrow> Err ErrNoRows)"

definition command_label :: "string \<Rightarrow> string \<Rightarrow> string" where
  "command_label commandType orderID = ''processed command ('' @ commandType @ '', '' @ orderID @ '')''"

definition ProcessedCommandRepository_FindByTypeAndOrderID ::
    "pg_server \<Rightarrow> go_ctx \<Rightarrow> string \<Rightarrow> string \<Rightarrow> (processed_command, pg_store) action" where
  "ProcessedCommandRepository_FindByTypeAndOrderID S ctx commandType orderID w =
     endDBSpan ''db.processed_command.find_by_type_and_order_id''
       (case pg_query S ctx (select_command commandType orderID)
              (startDBSpan ''db.processed_command.find_by_type_and_order_id'' ''SELECT'' w) of
          (Panicked m, w1) \<Rightarrow> (Panicked m, w1)
        | (Err err, w1) \<Rightarrow>
            if errors_Is_NoRows err
            then (Err (Wrapped (command_label commandType orderID) (Sentinel ErrNotFound)), w1)
            else (Err (Wrapped (''querying '' @ command_label commandType orderID) err),
              log_error ctx ''FindByTypeAndOrderID: query failed''
                [(''command_type'', AStr commandType), (''order_id'', AStr orderID),
                 (''error'', AStr (error_text err))] w1)
        | (Ok r, w1) \<Rightarrow>
            (Ok (ReconstructProcessedCommand (k_command_id r) (k_command_type r) (k_order_id r)
               (k_client_id r) (k_response_snapshot r) (k_created_at r)), w1))"

definition insert_command :: "pg_server \<Rightarrow> processed_command \<Rightarrow> db \<Rightarrow> (unit \<times> db) res" where
  "insert_command S c d =
     (case sv_jsonb S (pc_responseSnapshot c) of
        None \<Rightarrow> Err (pg_error S ''22P02'')
      | Some snapshot \<Rightarrow>
          if list_ex (\<lambda>r. k_command_id r = pc_commandID c \<or>
               k_command_type r = pc_commandType c \<and> k_order_id r = pc_orderID c) (db_commands d)
          then Err (pg_error S ''23505'')
          else Ok ((), d\<lparr>db_commands := db_commands d @
            [\<lparr>k_command_id = pc_commandID c, k_command_type = pc_commandType c,
              k_order_id = pc_orderID c, k_client_id = pc_clientID c,
              k_response_snapshot = snapshot,
              k_created_at = sv_timestamptz S (pc_createdAt c)\<rparr>]\<rparr>))"

definition ProcessedCommandRepository_Create ::
    "'d env \<Rightarrow> pg_server \<Rightarrow> go_ctx \<Rightarrow> processed_command \<Rightarrow> (unit, pg_store) action" where
  "ProcessedCommandRepository_Create E S ctx cmd w =
     endDBSpan ''db.processed_command.create''
       (case pg_exec S ctx (insert_command S cmd)
              (startDBSpan ''db.processed_command.create'' ''INSERT'' w) of
          (Panicked m, w1) \<Rightarrow> (Panicked m, w1)
        | (Err err, w1) \<Rightarrow>
            if errors_As_PgError err = Some pgUniqueViolation
            then (Err (Wrapped (command_label (pc_commandType cmd) (pc_orderID cmd))
                    (Sentinel ErrDuplicate)), w1)
            else (Err (Wrapped (''inserting processed command '' @ e_uuidString E (pc_commandID cmd)) err),
              log_error ctx ''Create: exec failed''
                [(''command_id'', AStr (e_uuidString E (pc_commandID cmd))),
                 (''error'', AStr (error_text err))] w1)
        | (Ok _, w1) \<Rightarrow> (Ok (), w1))"

subsection \<open>Transactions (\<open>transaction.go\<close>)\<close>

definition set_tx :: "db option \<Rightarrow> pg_store world \<Rightarrow> pg_store world" where
  "set_tx t w = w\<lparr>w_store := (w_store w)\<lparr>st_tx := t\<rparr>\<rparr>"

definition tx_Rollback :: "pg_server \<Rightarrow> (unit, pg_store) action" where
  "tx_Rollback S w =
     (case pg_call S w of (f, w1) \<Rightarrow>
        ((case f of Some e \<Rightarrow> Err e | None \<Rightarrow> Ok ()), set_tx None w1))"

definition tx_Commit :: "pg_server \<Rightarrow> (unit, pg_store) action" where
  "tx_Commit S w =
     (let applied = (\<lambda>w1. case st_tx (w_store w1) of
          Some d \<Rightarrow> w1\<lparr>w_store := \<lparr>st_db = d, st_tx = None\<rparr>\<rparr> | None \<Rightarrow> w1)
      in case pg_call S w of
           (None, w1) \<Rightarrow> (Ok (), applied w1)
         | (Some e, w1) \<Rightarrow>
             (Err e, if sv_commit_applied S (w_tick w) then applied w1 else set_tx None w1))"

text \<open>A panic of \<open>fn\<close> passes through: no rollback, only the deferred \<open>span.End()\<close>.\<close>

definition TransactionRunner_Do ::
    "pg_server \<Rightarrow> go_ctx \<Rightarrow> (go_ctx \<Rightarrow> ('a, pg_store) action) \<Rightarrow> ('a, pg_store) action" where
  "TransactionRunner_Do S ctx fn w =
     endDBSpan ''db.transaction''
       (case pg_call S (startDBSpan ''db.transaction'' ''TRANSACTION'' w) of
          (Some err, w1) \<Rightarrow>
            (Err (Wrapped ''beginning transaction'' err),
             log_error ctx ''Do: begin transaction failed'' [(''error'', AStr (error_text err))] w1)
        | (None, w1) \<Rightarrow>
            (case fn (ctx\<lparr>ctx_tx := True\<rparr>) (set_tx (Some (st_db (w_store w1))) w1) of
               (Panicked m, w2) \<Rightarrow> (Panicked m, w2)
             | (Err err, w2) \<Rightarrow>
                 (case tx_Rollback S w2 of
                    (Err rbErr, w3) \<Rightarrow> (Err (Joined err rbErr), w3)
                  | (_, w3) \<Rightarrow> (Err err, w3))
             | (Ok x, w2) \<Rightarrow>
                 (case tx_Commit S w2 of
                    (Err err, w3) \<Rightarrow>
                      (Err (Wrapped ''committing transaction'' err),
                       log_error ctx ''Do: commit transaction failed'' [(''error'', AStr (error_text err))] w3)
                  | (_, w3) \<Rightarrow> (Ok x, w3))))"

subsection \<open>Constructors\<close>

definition NewClientRepository :: "'d env \<Rightarrow> pg_server \<Rightarrow> pg_store client_repository" where
  "NewClientRepository E S =
     \<lparr>cr_FindByID = ClientRepository_FindByID E S, cr_Create = ClientRepository_Create E S\<rparr>"

definition NewAssetRepository :: "'d env \<Rightarrow> pg_server \<Rightarrow> pg_store asset_repository" where
  "NewAssetRepository E S =
     \<lparr>ar_FindByID = AssetRepository_FindByID E S,
      ar_FindByInstrumentID = AssetRepository_FindByInstrumentID E S,
      ar_Create = AssetRepository_Create E S\<rparr>"

definition NewPositionRepository :: "'d env \<Rightarrow> pg_server \<Rightarrow> ('d, pg_store) position_repository" where
  "NewPositionRepository E S =
     \<lparr>pr_FindByID = PositionRepository_FindByID E S,
      pr_FindByClientAndAsset = PositionRepository_FindByClientAndAsset E S,
      pr_FindByClientAndInstrument = PositionRepository_FindByClientAndInstrument E S,
      pr_Create = PositionRepository_Create E S, pr_Update = PositionRepository_Update E S\<rparr>"

definition NewProcessedCommandRepository ::
    "'d env \<Rightarrow> pg_server \<Rightarrow> pg_store processed_command_repository" where
  "NewProcessedCommandRepository E S =
     \<lparr>pcr_FindByTypeAndOrderID = ProcessedCommandRepository_FindByTypeAndOrderID S,
      pcr_Create = ProcessedCommandRepository_Create E S\<rparr>"

definition NewTransactionRunner :: "pg_server \<Rightarrow> ('a, pg_store) unit_of_work" where
  "NewTransactionRunner S = \<lparr>uow_Do = TransactionRunner_Do S\<rparr>"

end
