(* ===== verification/Store_Laws.thy ===== *)
theory Store_Laws
  imports Contracts Postgres "HOL-Library.Sublist"
begin

text \<open>
  What the adapters of \<open>internal/adapters/outbound/postgres\<close> promise.  A property of the tables
  that each SQL statement keeps (\<open>table_inv\<close>) is kept by every repository operation, by
  \<open>TransactionRunner.Do\<close> and by both services, under any faults and any interference of other
  sessions that keeps it too.  Two such properties: the schema's constraints (\<open>db_ok\<close>), and
  that nothing recorded is ever taken back (\<open>extends_db\<close>).  A server on which this session runs
  alone (\<open>alone\<close>) isolates transactions.
\<close>

subsection \<open>The schema's constraints\<close>

definition position_typed :: "position_row \<Rightarrow> bool" where
  "position_typed r \<longleftrightarrow>
     on_grid 6 (p_amount r) \<and> on_grid 8 (p_unit_price r) \<and> on_grid 8 (p_total_value r) \<and>
     on_grid 8 (p_collateral_value r) \<and> on_grid 8 (p_judiciary_collateral_value r) \<and>
     list_all (\<lambda>x. \<bar>x\<bar> < 10 ^ 12) [p_amount r, p_unit_price r, p_total_value r,
       p_collateral_value r, p_judiciary_collateral_value r] \<and>
     int4_range (p_row_version r)"

definition db_ok :: "db \<Rightarrow> bool" where
  "db_ok d \<longleftrightarrow>
     distinct (map c_client_id (db_clients d)) \<and>
     distinct (map a_asset_id (db_assets d)) \<and> list_all asset_checks (db_assets d) \<and>
     distinct (map p_position_id (db_positions d)) \<and>
     list_all (\<lambda>r. position_checks r \<and> position_typed r \<and>
       p_client_id r \<in> c_client_id ` set (db_clients d) \<and>
       p_asset_id r \<in> a_asset_id ` set (db_assets d)) (db_positions d) \<and>
     distinct (map k_command_id (db_commands d)) \<and>
     distinct (map (\<lambda>r. (k_command_type r, k_order_id r)) (db_commands d))"

subsection \<open>Properties every statement keeps\<close>

definition holds :: "(db \<Rightarrow> bool) \<Rightarrow> pg_store world \<Rightarrow> bool" where
  "holds P w \<longleftrightarrow> P (st_db (w_store w)) \<and> (\<forall>d. st_tx (w_store w) = Some d \<longrightarrow> P d)"

definition rely :: "pg_server \<Rightarrow> (db \<Rightarrow> bool) \<Rightarrow> bool" where
  "rely S P \<longleftrightarrow> (\<forall>k d. P d \<longrightarrow> P (sv_interfere S k d))"

definition table_stable :: "pg_server \<Rightarrow> (db \<Rightarrow> bool) \<Rightarrow> pg_store world \<Rightarrow> bool" where
  "table_stable S P w \<longleftrightarrow> (rely S P \<longrightarrow> holds P w)"

interpretation tstab: world_pred "table_stable S P" for S P
  by unfold_locales (simp_all add: table_stable_def holds_def)

lemma call_inv: "table_stable S P w \<Longrightarrow> table_stable S P (snd (pg_call S w))"
proof -
  assume "table_stable S P w"
  moreover have "rely S P \<Longrightarrow> P d \<Longrightarrow> P (sv_interfere S (w_tick w) d)" for d
    unfolding rely_def by blast
  ultimately show ?thesis
    by (cases "st_tx (w_store w)") (simp_all add: table_stable_def holds_def pg_call_def Let_def)
qed

lemma query_inv: "table_stable S P w \<Longrightarrow> table_stable S P (snd (pg_query S ctx q w))"
  using call_inv [of S P w] by (auto simp: pg_query_def split: prod.split option.split)

lemma span_inv: "table_stable S P w \<Longrightarrow> table_stable S P (startDBSpan sp q w)"
  "table_stable S P (snd rw) \<Longrightarrow> table_stable S P (snd (endDBSpan sp rw))"
  by (auto simp: startDBSpan_def endDBSpan_def tstab.inv_emit split: prod.split res.split)

lemma log_inv: "table_stable S P w \<Longrightarrow> table_stable S P (log_error ctx m as w)"
  by (simp add: log_error_def tstab.inv_emit)

lemma if_log_inv: "table_stable S P a \<Longrightarrow> table_stable S P b \<Longrightarrow> table_stable S P (if q then a else b)"
  by simp

text \<open>The reads of the services; \<open>sv_interfere\<close> is all they let happen to the tables.\<close>

lemma find_inv:
  assumes "table_stable S P w"
  shows "table_stable S P (snd (ClientRepository_FindByID E S ctx c w))"
    and "table_stable S P (snd (AssetRepository_FindByID E S ctx a w))"
    and "table_stable S P (snd (ProcessedCommandRepository_FindByTypeAndOrderID S ctx t k w))"
    and "table_stable S P (snd (PositionRepository_FindByClientAndInstrument E S ctx c i w))"
  by (simp_all only: ClientRepository_FindByID_def AssetRepository_FindByID_def
      ProcessedCommandRepository_FindByTypeAndOrderID_def
      PositionRepository_FindByClientAndInstrument_def)
    (rule tstab.run_inv query_inv span_inv log_inv if_log_inv assms | assumption)+

locale table_inv =
  fixes E :: "'d env" and S :: pg_server and P :: "db \<Rightarrow> bool"
  assumes stmt_client: "P d \<Longrightarrow> insert_client S cl d = Ok (u, d') \<Longrightarrow> P d'"
    and stmt_asset: "P d \<Longrightarrow> insert_asset S a d = Ok (u, d') \<Longrightarrow> P d'"
    and stmt_position: "P d \<Longrightarrow> insert_position E S p d = Ok (u, d') \<Longrightarrow> P d'"
    and stmt_update: "P d \<Longrightarrow> update_position E S p d = Ok (n, d') \<Longrightarrow> P d'"
    and stmt_command: "P d \<Longrightarrow> insert_command S cmd d = Ok (u, d') \<Longrightarrow> P d'"

sublocale table_inv \<subseteq> world_pred "table_stable S P"
  by unfold_locales (simp_all add: table_stable_def holds_def)

context table_inv begin

lemma write_inv:
  assumes "table_stable S P w" "\<And>d a d'. P d \<Longrightarrow> x d = Ok (a, d') \<Longrightarrow> P d'"
  shows "table_stable S P (snd (pg_exec S ctx x w))"
proof -
  obtain f v where v: "pg_call S w = (f, v)" by fastforce
  then have st: "table_stable S P v" using call_inv [OF assms(1)] by simp
  then have "holds P v \<Longrightarrow> P (executorFromContext ctx (w_store v))"
    by (auto simp: holds_def executorFromContext_def split: option.split)
  then have "x (executorFromContext ctx (w_store v)) = Ok (a, d) \<Longrightarrow> rely S P \<Longrightarrow> P d" for a d
    using st assms(2) by (auto simp: table_stable_def)
  then have "x (executorFromContext ctx (w_store v)) = Ok (a, d) \<Longrightarrow> table_stable S P (write_through ctx d v)"
    for a d using st by (auto simp: table_stable_def holds_def write_through_def)
  with st v show ?thesis by (simp add: pg_exec_def split: option.split res.split prod.split)
qed

lemmas pg_inv = run_inv query_inv span_inv log_inv if_log_inv

lemma repository_inv:
  assumes "table_stable S P w"
  shows "table_stable S P (snd (ClientRepository_FindByID E S ctx c w))"
    and "table_stable S P (snd (ClientRepository_Create E S ctx cl w))"
    and "table_stable S P (snd (AssetRepository_FindByID E S ctx a w))"
    and "table_stable S P (snd (AssetRepository_FindByInstrumentID E S ctx i w))"
    and "table_stable S P (snd (AssetRepository_Create E S ctx as w))"
    and "table_stable S P (snd (PositionRepository_FindByID E S ctx pid w))"
    and "table_stable S P (snd (PositionRepository_FindByClientAndAsset E S ctx c a w))"
    and "table_stable S P (snd (PositionRepository_FindByClientAndInstrument E S ctx c i w))"
    and "table_stable S P (snd (PositionRepository_Create E S ctx p w))"
    and "table_stable S P (snd (PositionRepository_Update E S ctx p w))"
    and "table_stable S P (snd (ProcessedCommandRepository_FindByTypeAndOrderID S ctx t k w))"
    and "table_stable S P (snd (ProcessedCommandRepository_Create E S ctx cmd w))"
  by (simp_all only: ClientRepository_FindByID_def ClientRepository_Create_def AssetRepository_FindByID_def
      AssetRepository_FindByInstrumentID_def AssetRepository_Create_def PositionRepository_FindByID_def
      PositionRepository_FindByClientAndAsset_def PositionRepository_FindByClientAndInstrument_def
      PositionRepository_Create_def PositionRepository_Update_def
      ProcessedCommandRepository_FindByTypeAndOrderID_def ProcessedCommandRepository_Create_def)
    (rule pg_inv assms write_inv | erule (1) stmt_client stmt_asset stmt_position stmt_update stmt_command | assumption)+

lemma Do_inv:
  assumes fn: "\<And>c v. table_stable S P v \<Longrightarrow> table_stable S P (snd (fn c v))" and w: "table_stable S P w"
  shows "table_stable S P (snd (TransactionRunner_Do S ctx fn w))"
proof -
  have set_tx: "table_stable S P v \<Longrightarrow> table_stable S P (set_tx None v)"
    "table_stable S P v \<Longrightarrow> table_stable S P (set_tx (Some (st_db (w_store v))) v)" for v
    by (auto simp: table_stable_def holds_def set_tx_def)
  have rb: "table_stable S P v \<Longrightarrow> table_stable S P (snd (tx_Rollback S v))" for v
    using call_inv [of S P v] by (auto simp: tx_Rollback_def set_tx split: prod.split)
  have cm: "table_stable S P v \<Longrightarrow> table_stable S P (snd (tx_Commit S v))" for v
    using call_inv [of S P v]
    by (auto simp: tx_Commit_def table_stable_def holds_def set_tx_def Let_def split: prod.split option.split)
  have opt: "table_stable S P v \<Longrightarrow> (\<And>e. table_stable S P (snd (f e))) \<Longrightarrow> table_stable S P (snd g) \<Longrightarrow>
      table_stable S P (snd (case z of None \<Rightarrow> g | Some e \<Rightarrow> f e))" for v f g and z :: "go_error option"
    by (cases z) simp_all
  show ?thesis
    unfolding TransactionRunner_Do_def
    by (intro pg_inv opt rb cm fn set_tx call_inv w)
qed

end

lemmas wiring_simps = NewClientRepository_def NewAssetRepository_def NewPositionRepository_def
  NewProcessedCommandRepository_def NewTransactionRunner_def

sublocale table_inv \<subseteq> ports_inv "table_stable S P" "NewClientRepository E S" "NewAssetRepository E S"
    "NewPositionRepository E S" "NewProcessedCommandRepository E S" "NewTransactionRunner S"
    "NewTransactionRunner S"
  by unfold_locales (simp_all add: wiring_simps repository_inv Do_inv)

subsection \<open>The statements keep the constraints\<close>

lemma numeric_store_grid: "numeric_store p s x = Some y \<Longrightarrow> on_grid s y \<and> \<bar>y\<bar> < 10 ^ (p - s)"
  by (auto simp: numeric_store_def Let_def split: if_splits)

lemma numeric_columns_grid:
  "numeric_columns E S p = Ok (a, u, t, c, j) \<Longrightarrow>
     on_grid 6 a \<and> on_grid 8 u \<and> on_grid 8 t \<and> on_grid 8 c \<and> on_grid 8 j \<and>
     list_all (\<lambda>x. \<bar>x\<bar> < 10 ^ 12) [a, u, t, c, j]"
  by (auto simp: numeric_columns_def Let_def split: option.splits prod.splits dest!: numeric_store_grid)

lemma insert_client_ok: "db_ok d \<Longrightarrow> insert_client S cl d = Ok (u, d') \<Longrightarrow> db_ok d'"
  by (simp add: insert_client_def list_ex_key split: if_splits) (auto simp: db_ok_def list_all_iff)

lemma insert_asset_ok: "db_ok d \<Longrightarrow> insert_asset S a d = Ok (u, d') \<Longrightarrow> db_ok d'"
  by (simp add: insert_asset_def list_ex_key split: if_splits)
    (auto simp: db_ok_def list_all_iff asset_row_of_def)

lemma inserted_row_fields [simp]:
  "p_position_id (inserted_row S p cols) = pos_positionID p"
  "p_client_id (inserted_row S p cols) = pos_clientID p"
  "p_asset_id (inserted_row S p cols) = pos_assetID p"
  "p_row_version (inserted_row S p cols) = sint (pos_rowVersion p)"
  by (simp_all add: inserted_row_def split: prod.split)

lemma inserted_row_typed:
  assumes "numeric_columns E S p = Ok cols" "int4_range (sint (pos_rowVersion p))"
  shows "position_typed (inserted_row S p cols)"
  using numeric_columns_grid [of E S p] assms
  by (cases cols) (auto simp: position_typed_def inserted_row_def)

text \<open>When an \<open>INSERT\<close> into positions succeeds, and what it adds.\<close>

lemma insert_position_Ok_iff:
  "insert_position E S p d = Ok (u, d') \<longleftrightarrow>
     int4_range (sint (pos_rowVersion p)) \<and>
     (\<exists>cols. numeric_columns E S p = Ok cols \<and> position_checks (inserted_row S p cols) \<and>
       pos_positionID p \<notin> p_position_id ` set (db_positions d) \<and>
       pos_clientID p \<in> c_client_id ` set (db_clients d) \<and>
       pos_assetID p \<in> a_asset_id ` set (db_assets d) \<and>
       d' = d\<lparr>db_positions := db_positions d @ [inserted_row S p cols]\<rparr>)"
  by (auto simp: insert_position_def list_ex_key Let_def simp del: split_paired_Ex
      split: res.split if_splits)

lemma insert_position_ok: "db_ok d \<Longrightarrow> insert_position E S p d = Ok (u, d') \<Longrightarrow> db_ok d'"
  by (auto simp: insert_position_Ok_iff db_ok_def list_all_iff inserted_row_typed
      simp del: split_paired_Ex)

lemma insert_command_ok: "db_ok d \<Longrightarrow> insert_command S cmd d = Ok (u, d') \<Longrightarrow> db_ok d'"
  by (simp add: insert_command_def list_ex_or list_ex_key list_ex_key2 split: if_splits option.splits)
    (auto simp: db_ok_def)

lemma updated_row_fields [simp]:
  "p_position_id (updated_row S p cols r) = p_position_id r"
  "p_client_id (updated_row S p cols r) = p_client_id r"
  "p_asset_id (updated_row S p cols r) = p_asset_id r"
  "p_created_at (updated_row S p cols r) = p_created_at r"
  "p_purchased_at (updated_row S p cols r) = p_purchased_at r"
  "p_row_version (updated_row S p cols r) = sint (pos_rowVersion p)"
  by (simp_all add: updated_row_def split: prod.split)

text \<open>What a successful \<open>UPDATE\<close> does to the table.\<close>

lemma update_position_cases:
  assumes "update_position E S p d = Ok (n, d')"
  obtains "n = 0" "d' = d" "\<forall>r \<in> set (db_positions d). \<not> update_matches p r"
  | cols where "0 < n" "numeric_columns E S p = Ok cols"
    "int4_range (sint (pos_rowVersion p))" "int4_range (sint (pos_rowVersion p - 1))"
    "\<forall>r \<in> set (db_positions d). update_matches p r \<longrightarrow> position_checks (updated_row S p cols r)"
    "d' = d\<lparr>db_positions :=
       map (\<lambda>r. if update_matches p r then updated_row S p cols r else r) (db_positions d)\<rparr>"
    "\<exists>r \<in> set (db_positions d). update_matches p r"
proof (cases "filter (update_matches p) (db_positions d)")
  case Nil
  then show thesis
    using assms that(1) by (auto simp: update_position_def filter_empty_conv split: if_splits)
next
  case (Cons hit rest)
  then have "set (hit # rest) = {r \<in> set (db_positions d). update_matches p r}"
    by (metis set_filter)
  moreover obtain cols where "numeric_columns E S p = Ok cols"
    using assms Cons by (auto simp: update_position_def split: if_splits res.splits)
  ultimately show thesis
    using assms Cons
    by (intro that(2) [of cols]) (auto simp: update_position_def list_all_iff split: if_splits)
qed

lemma updated_row_typed:
  assumes "numeric_columns E S p = Ok cols" "int4_range (sint (pos_rowVersion p))"
  shows "position_typed (updated_row S p cols r)"
  using numeric_columns_grid [of E S p] assms
  by (cases cols) (auto simp: position_typed_def updated_row_def)

lemma update_position_ok:
  assumes "db_ok d" "update_position E S p d = Ok (n, d')"
  shows "db_ok d'"
  using assms(2)
proof (cases rule: update_position_cases)
  case 1
  with assms(1) show ?thesis by simp
next
  case (2 cols)
  have "map p_position_id (db_positions d') = map p_position_id (db_positions d)"
    by (simp add: 2(6))
  then have "distinct (map p_position_id (db_positions d'))"
    using assms(1) by (simp only: db_ok_def)
  with assms(1) 2(5,6) updated_row_typed [OF 2(2,3)] show ?thesis
    by (auto simp: db_ok_def list_all_iff simp del: map_map)
qed

interpretation schema: table_inv E S db_ok for E :: "'d env" and S
  by unfold_locales (erule (1) insert_client_ok insert_asset_ok insert_position_ok update_position_ok
      insert_command_ok)+

subsection \<open>Nothing recorded is taken back\<close>

definition row_evolves :: "position_row \<Rightarrow> position_row \<Rightarrow> bool" where
  "row_evolves r q \<longleftrightarrow>
     p_position_id q = p_position_id r \<and> p_client_id q = p_client_id r \<and>
     p_asset_id q = p_asset_id r \<and> p_created_at q = p_created_at r \<and>
     p_purchased_at q = p_purchased_at r \<and> (q = r \<or> p_row_version r < p_row_version q)"

definition extends_db :: "db \<Rightarrow> db \<Rightarrow> bool" where
  "extends_db d0 d \<longleftrightarrow>
     prefix (db_clients d0) (db_clients d) \<and> prefix (db_assets d0) (db_assets d) \<and>
     prefix (db_commands d0) (db_commands d) \<and>
     length (db_positions d0) \<le> length (db_positions d) \<and>
     list_all2 row_evolves (db_positions d0) (take (length (db_positions d0)) (db_positions d))"

lemma row_evolves_refl [simp]: "row_evolves r r"
  by (simp add: row_evolves_def)

lemma extends_db_refl: "extends_db d d"
  by (simp add: extends_db_def list.rel_refl)

lemma int4_pred: "int4_range (sint v) \<Longrightarrow> int4_range (sint (v - 1 :: 64 word)) \<Longrightarrow> sint v = sint (v - 1) + 1"
proof -
  assume r: "int4_range (sint v)" "int4_range (sint (v - 1))"
  have "sint v = sint ((v - 1) + 1)" by simp
  also have "\<dots> = sint (v - 1) + 1"
    using r(2) by (subst sint_word_ariths) (simp add: signed_take_bit_int_eq_self int4_range_def)
  finally show ?thesis .
qed

lemma update_evolves:
  assumes "row_evolves r q" "update_matches p q"
    "int4_range (sint (pos_rowVersion p))" "int4_range (sint (pos_rowVersion p - 1))"
  shows "row_evolves r (updated_row S p cols q)"
  using assms int4_pred [OF assms(3,4)] by (auto simp: row_evolves_def update_matches_def)

lemma update_extends:
  assumes "extends_db d0 d" "update_position E S p d = Ok (n, d')"
  shows "extends_db d0 d'"
  using assms(2)
proof (cases rule: update_position_cases)
  case 1
  with assms(1) show ?thesis by simp
next
  case (2 cols)
  have "list_all2 row_evolves rs qs \<Longrightarrow>
      list_all2 row_evolves rs (map (\<lambda>r. if update_matches p r then updated_row S p cols r else r) qs)"
    for rs qs
    by (auto simp: list_all2_conv_all_nth update_evolves [OF _ _ 2(3,4)])
  with assms(1) show ?thesis
    by (simp add: extends_db_def 2(6) take_map)
qed

interpretation history: table_inv E S "extends_db d0" for E :: "'d env" and S and d0
proof unfold_locales
  show "extends_db d0 d \<Longrightarrow> update_position E S p d = Ok (n, d') \<Longrightarrow> extends_db d0 d'" for d p n d'
    by (rule update_extends)
qed (auto simp: extends_db_def insert_client_def insert_asset_def insert_position_def insert_command_def
    Let_def intro: prefix_order.trans split: if_splits res.splits option.splits)

subsection \<open>A session alone on its server\<close>

text \<open>
  No other session commits while the request runs; any round trip may still fail.
\<close>

definition committed :: "pg_store world \<Rightarrow> db" where
  "committed w = st_db (w_store w)"

definition open_tx :: "go_ctx \<Rightarrow> pg_store world \<Rightarrow> bool" where
  "open_tx ctx w \<longleftrightarrow> ctx_tx ctx \<and> st_tx (w_store w) \<noteq> None"

lemma store_of [simp, store_simps]:
  "w_store (snd (endDBSpan sp x)) = w_store (snd x)"
  "w_store (startDBSpan sp q w) = w_store w"
  "w_store (log_error ctx m as w) = w_store w"
  "fst (endDBSpan sp x) = fst x"
  by (auto simp: endDBSpan_def startDBSpan_def log_error_def split: prod.split res.split)

lemma endDBSpan_fields: "endDBSpan sp x = (r, w') \<Longrightarrow> fst x = r \<and> w_store w' = w_store (snd x)"
  by (metis store_of(1,4) fst_conv snd_conv)

lemma committed_emit [simp]: "committed (emit es w) = committed w" "open_tx ctx (emit es w) = open_tx ctx w"
  "committed (next_tick w) = committed w" "open_tx ctx (next_tick w) = open_tx ctx w"
  by (simp_all add: committed_def open_tx_def)

locale undisturbed_session =
  fixes E :: "'d env" and S :: pg_server
  assumes no_interference: "sv_interfere S k d = d"

sublocale undisturbed_session \<subseteq> same: world_pred "\<lambda>w. w_store w = s" for s
  by unfold_locales simp_all

sublocale undisturbed_session \<subseteq> pending: world_pred "\<lambda>w. committed w = c \<and> open_tx ctx w" for c ctx
  by unfold_locales (simp_all add: committed_def open_tx_def)

context undisturbed_session begin

lemma call_store: "w_store w = s \<Longrightarrow> w_store (snd (pg_call S w)) = s"
  by (cases "st_tx (w_store w)") (auto simp: pg_call_def Let_def no_interference)

lemma query_store: "w_store w = s \<Longrightarrow> w_store (snd (pg_query S ctx q w)) = s"
  using call_store [of w] by (auto simp: pg_query_def split: prod.split option.split)

lemma store_same:
  "w_store (snd x) = s \<Longrightarrow> w_store (snd (endDBSpan sp x)) = s"
  "w_store w = s \<Longrightarrow> w_store (startDBSpan sp q w) = s"
  "w_store w = s \<Longrightarrow> w_store (log_error ctx m as w) = s"
  "w_store w = s \<Longrightarrow> w_store v = s \<Longrightarrow> w_store (if b then w else v) = s"
  by simp_all

lemma find_store:
  "w_store (snd (ClientRepository_FindByID E S ctx c w)) = w_store w"
  "w_store (snd (AssetRepository_FindByID E S ctx a w)) = w_store w"
  "w_store (snd (PositionRepository_FindByClientAndInstrument E S ctx c i w)) = w_store w"
  "w_store (snd (ProcessedCommandRepository_FindByTypeAndOrderID S ctx t k w)) = w_store w"
  by (simp_all only: ClientRepository_FindByID_def AssetRepository_FindByID_def
      PositionRepository_FindByClientAndInstrument_def
      ProcessedCommandRepository_FindByTypeAndOrderID_def)
    (rule store_same same.run_inv query_store refl | assumption)+

lemma exec_pending:
  assumes "committed w = c \<and> open_tx ctx w"
  shows "committed (snd (pg_exec S ctx x w)) = c \<and> open_tx ctx (snd (pg_exec S ctx x w))"
  using call_store [of w] assms
  by (auto simp: pg_exec_def write_through_def committed_def open_tx_def
      split: prod.split option.split res.split)

lemma pending_steps:
  "committed (snd x) = c \<and> open_tx ctx (snd x) \<Longrightarrow>
     committed (snd (endDBSpan sp x)) = c \<and> open_tx ctx (snd (endDBSpan sp x))"
  "committed w = c \<and> open_tx ctx w \<Longrightarrow>
     committed (startDBSpan sp q w) = c \<and> open_tx ctx (startDBSpan sp q w)"
  "committed w = c \<and> open_tx ctx w \<Longrightarrow>
     committed (log_error ctx' m as w) = c \<and> open_tx ctx (log_error ctx' m as w)"
  by (simp_all add: committed_def open_tx_def)

lemma write_pending:
  assumes "committed w = c \<and> open_tx ctx w"
  shows "committed (snd (PositionRepository_Create E S ctx p w)) = c \<and>
      open_tx ctx (snd (PositionRepository_Create E S ctx p w))"
    and "committed (snd (PositionRepository_Update E S ctx p w)) = c \<and>
      open_tx ctx (snd (PositionRepository_Update E S ctx p w))"
    and "committed (snd (ProcessedCommandRepository_Create E S ctx cmd w)) = c \<and>
      open_tx ctx (snd (ProcessedCommandRepository_Create E S ctx cmd w))"
  by (simp_all only: PositionRepository_Create_def PositionRepository_Update_def
      ProcessedCommandRepository_Create_def)
    (rule pending_steps pending.run_inv exec_pending assms | assumption)+

lemma find_pending:
  "committed (snd (ClientRepository_FindByID E S ctx' c w)) = committed w"
  "committed (snd (AssetRepository_FindByID E S ctx' a w)) = committed w"
  "committed (snd (PositionRepository_FindByClientAndInstrument E S ctx' c i w)) = committed w"
  "open_tx ctx (snd (PositionRepository_FindByClientAndInstrument E S ctx' c i w)) = open_tx ctx w"
  "committed (snd (ProcessedCommandRepository_FindByTypeAndOrderID S ctx' t k w)) = committed w"
  by (simp_all add: committed_def open_tx_def find_store)

text \<open>A body that works through its transaction only: committed is what was, or what the body left.\<close>

lemma Do_atomic:
  assumes fn: "\<And>c v. committed v = committed w \<and> open_tx c v \<Longrightarrow>
      committed (snd (fn c v)) = committed w \<and> open_tx c (snd (fn c v))"
    and run: "TransactionRunner_Do S ctx fn w = (r, w')"
  shows "committed w' = committed w \<and> (\<forall>x. r \<noteq> Ok x) \<or>
    (\<exists>v x v1. w_store v = \<lparr>st_db = committed w, st_tx = Some (committed w)\<rparr> \<and>
       fn (ctx\<lparr>ctx_tx := True\<rparr>) v = (Ok x, v1) \<and> st_tx (w_store v1) = Some (committed w') \<and>
       (r = Ok x \<or> (\<exists>e k. r = Err (Wrapped ''committing transaction'' e) \<and> sv_commit_applied S k)))"
proof -
  let ?w0 = "startDBSpan ''db.transaction'' ''TRANSACTION'' w"
  obtain f w1 where w1: "pg_call S ?w0 = (f, w1)" by fastforce
  then have st1: "w_store w1 = w_store w" using call_store [of ?w0] by simp
  let ?w1 = "set_tx (Some (st_db (w_store w1))) w1" and ?c = "ctx\<lparr>ctx_tx := True\<rparr>"
  obtain q w2 where w2: "fn ?c ?w1 = (q, w2)" by fastforce
  have "committed ?w1 = committed w \<and> open_tx ?c ?w1"
    by (simp add: committed_def open_tx_def set_tx_def st1)
  from fn [OF this] have c2: "committed w2 = committed w" "st_tx (w_store w2) \<noteq> None"
    by (simp_all add: w2 open_tx_def)
  obtain g w3 where w3: "pg_call S w2 = (g, w3)" by fastforce
  then have c3: "w_store w3 = w_store w2" using call_store [of w2] by simp
  have v: "w_store ?w1 = \<lparr>st_db = committed w, st_tx = Some (committed w)\<rparr>"
    by (simp add: set_tx_def committed_def st1)
  note run' = run [unfolded TransactionRunner_Do_def w1 w2 tx_Rollback_def tx_Commit_def w3 prod.case Let_def]
  show ?thesis
  proof (cases f)
    case (Some e)
    then show ?thesis using run' by (auto simp: committed_def st1 dest!: endDBSpan_fields)
  next
    case None
    show ?thesis
    proof (cases "\<exists>x. q = Ok x \<and> (g = None \<or> sv_commit_applied S (w_tick w2))")
      case True
      then obtain x where x: "q = Ok x" "g = None \<or> sv_commit_applied S (w_tick w2)" by blast
      have "st_tx (w_store w2) = Some (committed w')"
        "r = Ok x \<or> (\<exists>e k. r = Err (Wrapped ''committing transaction'' e) \<and> sv_commit_applied S k)"
        using run' x c2(2) c3 by (cases g; auto simp: None committed_def dest!: endDBSpan_fields)+
      then show ?thesis using v w2 x(1) by blast
    next
      case False
      then show ?thesis
        using run' c2(1) c3 by (cases q; cases g) (auto simp: None committed_def set_tx_def dest!: endDBSpan_fields)
    qed
  qed
qed

end

text \<open>And a commit that reports an error did not take effect.\<close>

locale alone_session = undisturbed_session +
  assumes failed_commit: "\<not> sv_commit_applied S k"
begin

lemma Do_restores:
  assumes fn: "\<And>c v. committed v = committed w \<and> open_tx c v \<Longrightarrow>
      committed (snd (fn c v)) = committed w \<and> open_tx c (snd (fn c v))"
    and "\<not> is_Ok (fst (TransactionRunner_Do S ctx fn w))"
  shows "committed (snd (TransactionRunner_Do S ctx fn w)) = committed w"
proof -
  let ?w0 = "startDBSpan ''db.transaction'' ''TRANSACTION'' w"
  obtain f w1 where w1: "pg_call S ?w0 = (f, w1)" by fastforce
  then have st1: "w_store w1 = w_store w" using call_store [of ?w0] by simp
  let ?w1 = "set_tx (Some (st_db (w_store w1))) w1" and ?c = "ctx\<lparr>ctx_tx := True\<rparr>"
  obtain r w2 where w2: "fn ?c ?w1 = (r, w2)" by fastforce
  have "committed ?w1 = committed w \<and> open_tx ?c ?w1"
    by (simp add: committed_def open_tx_def set_tx_def st1)
  from fn [OF this] have c2: "committed w2 = committed w" by (simp add: w2)
  obtain g w3 where w3: "pg_call S w2 = (g, w3)" by fastforce
  then have c3: "st_db (w_store w3) = committed w" using call_store [of w2] c2 by (simp add: committed_def)
  note run = TransactionRunner_Do_def w1 w2 tx_Rollback_def tx_Commit_def w3 prod.case Let_def
  show ?thesis
  proof (cases f)
    case (Some e)
    then show ?thesis by (simp add: TransactionRunner_Do_def w1 committed_def st1)
  next
    case None
    show ?thesis
      using assms(2) c2 c3 unfolding run None option.case
      by (cases r; cases g) (simp_all add: committed_def failed_commit set_tx_def)
  qed
qed

end

sublocale alone_session \<subseteq> isolated_ports committed open_tx "NewClientRepository E S"
    "NewAssetRepository E S" "NewPositionRepository E S" "NewProcessedCommandRepository E S"
    "NewTransactionRunner S" "NewTransactionRunner S"
proof unfold_locales
  show "committed (snd (uow_Do (NewTransactionRunner S) ctx fn w)) = committed w"
    if "\<And>c v. committed v = committed w \<and> open_tx c v \<Longrightarrow>
        committed (snd (fn c v)) = committed w \<and> open_tx c (snd (fn c v))"
      "\<not> is_Ok (fst (uow_Do (NewTransactionRunner S) ctx fn w))"
    for ctx w and fn :: "go_ctx \<Rightarrow> (unit, pg_store) action"
    using Do_restores [OF that(1)] that(2) by (simp add: wiring_simps)
  show "committed (snd (uow_Do (NewTransactionRunner S) ctx fn w)) = committed w"
    if "\<And>c v. committed v = committed w \<and> open_tx c v \<Longrightarrow>
        committed (snd (fn c v)) = committed w \<and> open_tx c (snd (fn c v))"
      "\<not> is_Ok (fst (uow_Do (NewTransactionRunner S) ctx fn w))"
    for ctx w and fn :: "go_ctx \<Rightarrow> (withdraw_response, pg_store) action"
    using Do_restores [OF that(1)] that(2) by (simp add: wiring_simps)
qed (simp_all add: wiring_simps write_pending [OF conjI [OF refl]] find_pending)

definition alone_server :: "pg_server \<Rightarrow> pg_server" where
  "alone_server S = S\<lparr>sv_interfere := (\<lambda>_ d. d), sv_commit_applied := (\<lambda>_. False)\<rparr>"

interpretation undisturbed: undisturbed_session E "S\<lparr>sv_interfere := \<lambda>_ d. d\<rparr>" for E :: "'d env" and S
  by unfold_locales simp

lemma alone_sessionI:
  "(\<And>k d. sv_interfere S k d = d) \<Longrightarrow> (\<And>k. \<not> sv_commit_applied S k) \<Longrightarrow> alone_session S"
  by unfold_locales

interpretation alone: alone_session E "alone_server S" for E :: "'d env" and S
  by unfold_locales (simp_all add: alone_server_def)

end
