(* ===== verification/Handlers.thy ===== *)
theory Handlers
  imports Postgres
begin

text \<open>
  \<open>internal/adapters/inbound/httphandler\<close>, the request logger of
  \<open>internal/platform/logger.go\<close>, and the routing of \<open>cmd/http-lambda/main.go\<close>.  A handler gives
  an API Gateway response, an error for the Lambda runtime, or lets a panic through.
\<close>

record api_request =
  rq_Method :: string
  rq_Path :: string
  rq_Body :: string

record api_response =
  rp_StatusCode :: nat
  rp_Headers :: "(string \<times> string) list"
  rp_Body :: string

subsection \<open>Metrics\<close>

text \<open>
  \<open>createMetrics\<close>: the meter's answers for the counter and for the histogram (\<open>None\<close>: created).
\<close>

definition createMetrics :: "go_error option \<Rightarrow> go_error option \<Rightarrow> unit res" where
  "createMetrics counterErr histogramErr =
     (case counterErr of
        Some err \<Rightarrow> Panicked (''create wallet.command.count counter: '' @ error_text err)
      | None \<Rightarrow>
          (case histogramErr of
             Some err \<Rightarrow> Panicked (''create wallet.command.duration histogram: '' @ error_text err)
           | None \<Rightarrow> Ok ()))"

definition recordCommandMetrics ::
    "'d env \<Rightarrow> string \<Rightarrow> string \<Rightarrow> gotime \<Rightarrow> 's world \<Rightarrow> 's world" where
  "recordCommandMetrics E command outcome startTime w =
     (let as = [(''command'', AStr command), (''outcome'', AStr outcome)];
          (now, w1) = time_Now E (emit [CounterAdd ''wallet.command.count'' 1 as] w)
      in emit [HistogramRecord ''wallet.command.duration'' (millis_between startTime now) as] w1)"

subsection \<open>Request logger\<close>

text \<open>A \<open>LoggerFactory\<close> is its base logger; \<open>coldStart.Swap(false)\<close> works on \<open>w_cold\<close>.\<close>

definition LoggerFactory_FromContext ::
    "attrs \<Rightarrow> go_ctx \<Rightarrow> string \<Rightarrow> string \<Rightarrow> 's world \<Rightarrow> attrs \<times> 's world" where
  "LoggerFactory_FromContext base ctx trigger operation w =
     (base @ [(''trigger'', AStr trigger), (''operation'', AStr operation),
              (''cold_start'', ABool (w_cold w))] @
        (case ctx_request_id ctx of Some rid \<Rightarrow> [(''request_id'', AStr rid)] | None \<Rightarrow> []),
      w\<lparr>w_cold := False\<rparr>)"

definition logTerminalError :: "attrs \<Rightarrow> nat \<Rightarrow> go_error \<Rightarrow> 's world \<Rightarrow> 's world" where
  "logTerminalError logger status err w =
     (let as = [(''status'', AInt (int status)), (''error'', AStr (error_text err)),
                (''outcome'', AStr ''failed'')]
      in emit [LogRecord logger
           (if StatusInternalServerError \<le> status then LevelError else LevelWarn)
           ''request failed'' as] w)"

subsection \<open>Responses\<close>

text \<open>The package variable \<open>jsonMarshal = json.Marshal\<close> on the value already in JSON form.\<close>

definition jsonMarshal :: "json \<Rightarrow> string res" where
  "jsonMarshal body = Ok (json_print body)"

definition jsonResponse :: "nat \<Rightarrow> json \<Rightarrow> api_response res" where
  "jsonResponse statusCode body =
     (case jsonMarshal body of
        Panicked m \<Rightarrow> Panicked m
      | Err err \<Rightarrow> Err (Wrapped ''marshal response body'' err)
      | Ok data \<Rightarrow> Ok \<lparr>rp_StatusCode = statusCode,
          rp_Headers = [(''Content-Type'', ''application/json'')], rp_Body = data\<rparr>)"

text \<open>A \<open>map[string]string\<close> is encoded with its keys sorted.\<close>

definition errorResponse :: "nat \<Rightarrow> string \<Rightarrow> api_response res" where
  "errorResponse statusCode message = jsonResponse statusCode (json_of_members [(''error'', message)])"

definition codedErrorResponse :: "nat \<Rightarrow> string \<Rightarrow> string \<Rightarrow> api_response res" where
  "codedErrorResponse statusCode message code =
     jsonResponse statusCode (json_of_members [(''code'', code), (''error'', message)])"

subsection \<open>Deposit handler (\<open>deposit_handler.go\<close>)\<close>

record 's deposit_handler =
  dh_Execute :: "go_ctx \<Rightarrow> deposit_request \<Rightarrow> 's world \<Rightarrow> deposit_response exec \<times> 's world"
  dh_loggers :: attrs

definition NewDepositHandler ::
    "(go_ctx \<Rightarrow> deposit_request \<Rightarrow> 's world \<Rightarrow> deposit_response exec \<times> 's world) \<Rightarrow> attrs \<Rightarrow>
     's deposit_handler" where
  "NewDepositHandler service loggers = \<lparr>dh_Execute = service, dh_loggers = loggers\<rparr>"

abbreviation (input) depositRoute :: string where "depositRoute \<equiv> ''POST /deposits''"

text \<open>What the handler does with the service's outcome.\<close>

definition deposit_respond ::
    "'d env \<Rightarrow> attrs \<Rightarrow> gotime \<Rightarrow> deposit_response exec \<Rightarrow> 's world \<Rightarrow> api_response res \<times> 's world" where
  "deposit_respond E logger startTime r w =
     (case r of
        Crashed m \<Rightarrow> (Panicked m, w)
      | Failure statusCode err \<Rightarrow>
          (errorResponse statusCode (error_text err),
           recordCommandMetrics E ''deposit'' ''failed'' startTime
             (emit [SpanRecordError depositRoute (error_text err),
                    SpanStatus depositRoute CodeError (error_text err),
                    SpanAttr depositRoute ''wallet.outcome'' ''failed'']
               (logTerminalError logger statusCode err w)))
      | Success resp statusCode \<Rightarrow>
          (let outcome = (if statusCode = StatusOK then ''replayed'' else ''success'') in
           (jsonResponse statusCode (dto_json resp),
            recordCommandMetrics E ''deposit'' outcome startTime
              (emit [SpanStatus depositRoute CodeOk '''',
                     SpanAttr depositRoute ''wallet.outcome'' outcome] w))))"

definition deposit_handle_body ::
    "'d env \<Rightarrow> 's deposit_handler \<Rightarrow> go_ctx \<Rightarrow> api_request \<Rightarrow> gotime \<Rightarrow> 's world \<Rightarrow>
     api_response res \<times> 's world" where
  "deposit_handle_body E h ctx req startTime w =
     (if rq_Method req \<noteq> ''POST'' then (errorResponse StatusMethodNotAllowed ''method not allowed'', w)
      else case (case json_parse (rq_Body req) of Some j \<Rightarrow> deposit_request_of_json j | None \<Rightarrow> None) of
        None \<Rightarrow> (errorResponse StatusUnprocessableEntity ''invalid request body'', w)
      | Some depositReq \<Rightarrow>
          (let (logger, w1) = LoggerFactory_FromContext (dh_loggers h) ctx ''http'' ''deposit'' w;
               ctx1 = WithLogger ctx logger;
               (r, w2) = dh_Execute h ctx1 depositReq w1
           in deposit_respond E logger startTime r w2))"

definition DepositHandler_Handle ::
    "'d env \<Rightarrow> 's deposit_handler \<Rightarrow> go_ctx \<Rightarrow> api_request \<Rightarrow> 's world \<Rightarrow> api_response res \<times> 's world" where
  "DepositHandler_Handle E h ctx req w =
     (let (startTime, w1) = time_Now E (emit [SpanStart depositRoute] w);
          (r, w2) = deposit_handle_body E h ctx req startTime
            (emit [SpanAttr depositRoute ''http.method'' ''POST'',
                   SpanAttr depositRoute ''http.route'' ''/deposits'',
                   SpanAttr depositRoute ''wallet.command'' ''deposit''] w1)
      in (r, emit [SpanEnd depositRoute] w2))"

subsection \<open>Withdraw handler (\<open>withdraw_handler.go\<close>)\<close>

record 's withdraw_handler =
  wh_Execute :: "go_ctx \<Rightarrow> withdraw_request \<Rightarrow> 's world \<Rightarrow> withdraw_response exec \<times> 's world"
  wh_loggers :: attrs

definition NewWithdrawHandler ::
    "(go_ctx \<Rightarrow> withdraw_request \<Rightarrow> 's world \<Rightarrow> withdraw_response exec \<times> 's world) \<Rightarrow> attrs \<Rightarrow>
     's withdraw_handler" where
  "NewWithdrawHandler service loggers = \<lparr>wh_Execute = service, wh_loggers = loggers\<rparr>"

abbreviation (input) withdrawRoute :: string where "withdrawRoute \<equiv> ''POST /withdrawals''"

definition withdraw_respond ::
    "'d env \<Rightarrow> attrs \<Rightarrow> gotime \<Rightarrow> withdraw_response exec \<Rightarrow> 's world \<Rightarrow> api_response res \<times> 's world" where
  "withdraw_respond E logger startTime r w =
     (case r of
        Crashed m \<Rightarrow> (Panicked m, w)
      | Failure statusCode err \<Rightarrow>
          ((if errors_Is err ErrInsufficientPosition
            then codedErrorResponse statusCode (error_text err) ''INSUFFICIENT_POSITION''
            else if errors_Is err ErrConcurrencyConflict
            then codedErrorResponse statusCode (error_text err) ''CONCURRENCY_CONFLICT''
            else errorResponse statusCode (error_text err)),
           recordCommandMetrics E ''withdraw'' ''failed'' startTime
             (emit [SpanRecordError withdrawRoute (error_text err),
                    SpanStatus withdrawRoute CodeError (error_text err),
                    SpanAttr withdrawRoute ''wallet.outcome'' ''failed'']
               (logTerminalError logger statusCode err w)))
      | Success resp statusCode \<Rightarrow>
          (jsonResponse statusCode (withdraw_response_json resp),
           recordCommandMetrics E ''withdraw'' ''success'' startTime
             (emit [SpanStatus withdrawRoute CodeOk '''',
                    SpanAttr withdrawRoute ''wallet.outcome'' ''success''] w)))"

definition withdraw_handle_body ::
    "'d env \<Rightarrow> 's withdraw_handler \<Rightarrow> go_ctx \<Rightarrow> api_request \<Rightarrow> gotime \<Rightarrow> 's world \<Rightarrow>
     api_response res \<times> 's world" where
  "withdraw_handle_body E h ctx req startTime w =
     (if rq_Method req \<noteq> ''POST'' then (errorResponse StatusMethodNotAllowed ''method not allowed'', w)
      else case (case json_parse (rq_Body req) of Some j \<Rightarrow> withdraw_request_of_json j | None \<Rightarrow> None) of
        None \<Rightarrow> (errorResponse StatusUnprocessableEntity ''invalid request body'', w)
      | Some withdrawReq \<Rightarrow>
          (let (logger, w1) = LoggerFactory_FromContext (wh_loggers h) ctx ''http'' ''withdraw'' w;
               ctx1 = WithLogger ctx logger;
               (r, w2) = wh_Execute h ctx1 withdrawReq w1
           in withdraw_respond E logger startTime r w2))"

definition WithdrawHandler_Handle ::
    "'d env \<Rightarrow> 's withdraw_handler \<Rightarrow> go_ctx \<Rightarrow> api_request \<Rightarrow> 's world \<Rightarrow> api_response res \<times> 's world" where
  "WithdrawHandler_Handle E h ctx req w =
     (let (startTime, w1) = time_Now E (emit [SpanStart withdrawRoute] w);
          (r, w2) = withdraw_handle_body E h ctx req startTime
            (emit [SpanAttr withdrawRoute ''http.method'' ''POST'',
                   SpanAttr withdrawRoute ''http.route'' ''/withdrawals'',
                   SpanAttr withdrawRoute ''wallet.command'' ''withdraw''] w1)
      in (r, emit [SpanEnd withdrawRoute] w2))"

subsection \<open>Wiring and routing (\<open>cmd/http-lambda/main.go\<close>)\<close>

definition wallet_deposit_service :: "'d env \<Rightarrow> pg_server \<Rightarrow> ('d, pg_store) deposit_service" where
  "wallet_deposit_service E S =
     NewDepositService (NewClientRepository E S) (NewAssetRepository E S) (NewPositionRepository E S)
       (NewProcessedCommandRepository E S) (NewTransactionRunner S)"

definition wallet_withdraw_service :: "'d env \<Rightarrow> pg_server \<Rightarrow> ('d, pg_store) withdraw_service" where
  "wallet_withdraw_service E S =
     NewWithdrawService (NewClientRepository E S) (NewPositionRepository E S)
       (NewProcessedCommandRepository E S) (NewTransactionRunner S)"

definition route ::
    "'d env \<Rightarrow> 's deposit_handler \<Rightarrow> 's withdraw_handler \<Rightarrow> go_ctx \<Rightarrow> api_request \<Rightarrow> 's world \<Rightarrow>
     api_response res \<times> 's world" where
  "route E dh wh ctx req w =
     (if rq_Path req = ''/deposits'' then DepositHandler_Handle E dh ctx req w
      else if rq_Path req = ''/withdrawals'' then WithdrawHandler_Handle E wh ctx req w
      else (Ok \<lparr>rp_StatusCode = 404, rp_Headers = [(''Content-Type'', ''application/json'')],
                rp_Body = ''{'' @ [CHR 0x22] @ ''error'' @ [CHR 0x22] @ '':'' @ [CHR 0x22] @
                  ''not found'' @ [CHR 0x22] @ ''}''\<rparr>, w))"

definition wallet_lambda ::
    "'d env \<Rightarrow> pg_server \<Rightarrow> attrs \<Rightarrow> go_ctx \<Rightarrow> api_request \<Rightarrow> pg_store world \<Rightarrow>
     api_response res \<times> pg_store world" where
  "wallet_lambda E S base =
     route E (NewDepositHandler (DepositService_Execute E (wallet_deposit_service E S)) base)
       (NewWithdrawHandler (WithdrawService_Execute E (wallet_withdraw_service E S)) base)"

end
