(* ===== verification/Wallet.thy ===== *)
theory Wallet
  imports Store_Laws Handlers
begin

text \<open>
  The Lambda from end to end: what a handler adds around its service (nothing that touches the
  store), and the store properties of \<open>Store_Laws\<close> carried up to \<open>wallet_lambda\<close>.
\<close>

subsection \<open>A handler around its service\<close>

lemma respond_store [simp, store_simps]:
  "w_store (recordCommandMetrics E cmd oc t w) = w_store w"
  "w_store (logTerminalError lg st e w) = w_store w"
  by (simp_all add: recordCommandMetrics_def logTerminalError_def time_Now_def Let_def)

lemma jsonResponse_eq [simp]:
  "jsonResponse s j = Ok \<lparr>rp_StatusCode = s, rp_Headers = [(''Content-Type'', ''application/json'')],
     rp_Body = json_print j\<rparr>"
  by (simp add: jsonResponse_def jsonMarshal_def)

definition status_of :: "api_response res \<Rightarrow> nat option" where
  "status_of r = (case r of Ok resp \<Rightarrow> Some (rp_StatusCode resp) | _ \<Rightarrow> None)"

definition exec_status :: "'r exec \<Rightarrow> nat option" where
  "exec_status x = (case x of Success _ s \<Rightarrow> Some s | Failure s _ \<Rightarrow> Some s | Crashed _ \<Rightarrow> None)"

lemma deposit_respond_status [simp]:
  "status_of (fst (deposit_respond E lg t x w)) = exec_status x"
  "w_store (snd (deposit_respond E lg t x w)) = w_store w"
  by (simp_all add: deposit_respond_def status_of_def exec_status_def errorResponse_def Let_def
      split: exec.split)

lemma withdraw_respond_status [simp]:
  "status_of (fst (withdraw_respond E lg t x w)) = exec_status x"
  "w_store (snd (withdraw_respond E lg t x w)) = w_store w"
  by (simp_all add: withdraw_respond_def status_of_def exec_status_def errorResponse_def
      codedErrorResponse_def split: exec.split)

text \<open>The request a handler passes to its service.\<close>

definition decoded :: "(json \<Rightarrow> 'q option) \<Rightarrow> api_request \<Rightarrow> 'q option" where
  "decoded of_json req =
     (if rq_Method req \<noteq> ''POST'' then None
      else case json_parse (rq_Body req) of Some j \<Rightarrow> of_json j | None \<Rightarrow> None)"

text \<open>A request is answered without the service (405 or 422), or with what the service gave.\<close>

lemma DepositHandler_cases:
  assumes run: "DepositHandler_Handle E h ctx req w = (r, w')"
  obtains "w_store w' = w_store w" "status_of r \<in> {Some 405, Some 422}" "decoded deposit_request_of_json req = None"
  | lg q v t x v' where "w_store v = w_store w" "dh_Execute h (WithLogger ctx lg) q v = (x, v')"
    "w_store w' = w_store v'" "r = fst (deposit_respond E lg t x v')" "decoded deposit_request_of_json req = Some q"
proof -
  obtain t w0 r0 w1 where w0: "w_store w0 = w_store w" and body: "deposit_handle_body E h ctx req t w0 = (r0, w1)"
    and res: "r = r0" "w_store w' = w_store w1"
  proof -
    let ?w0 = "emit [SpanAttr depositRoute ''http.method'' ''POST'', SpanAttr depositRoute ''http.route'' ''/deposits'',
        SpanAttr depositRoute ''wallet.command'' ''deposit''] (next_tick (emit [SpanStart depositRoute] w))"
    obtain r0 w1 where "deposit_handle_body E h ctx req (e_now E (w_tick w)) ?w0 = (r0, w1)" by fastforce
    then show thesis using run by (intro that [of ?w0 "e_now E (w_tick w)" r0 w1]) (auto simp: DepositHandler_Handle_def time_Now_def)
  qed
  show thesis
  proof (cases "rq_Method req = ''POST'' \<and> (\<exists>j. json_parse (rq_Body req) = Some j \<and> deposit_request_of_json j \<noteq> None)")
    case False
    then have "w1 = w0 \<and> status_of r0 \<in> {Some 405, Some 422}"
      using body by (auto simp: deposit_handle_body_def errorResponse_def status_of_def split: if_splits option.splits)
    moreover have "decoded deposit_request_of_json req = None"
      using False by (auto simp: decoded_def split: option.split)
    ultimately show thesis using that(1) w0 res by simp
  next
    case True
    then obtain j q where q: "json_parse (rq_Body req) = Some j" "deposit_request_of_json j = Some q" by blast
    obtain lg v where lg: "LoggerFactory_FromContext (dh_loggers h) ctx ''http'' ''deposit'' w0 = (lg, v)" by fastforce
    then have v: "w_store v = w_store w" using w0 by (auto simp: LoggerFactory_FromContext_def)
    obtain x v' where x: "dh_Execute h (WithLogger ctx lg) q v = (x, v')" by fastforce
    have "(r0, w1) = deposit_respond E lg t x v'"
      using body True q lg x by (simp add: deposit_handle_body_def)
    then have "w_store w1 = w_store v'" "r0 = fst (deposit_respond E lg t x v')"
      by (metis deposit_respond_status(2) snd_conv, metis fst_conv)
    then show thesis using that(2) v x res True q by (simp add: decoded_def)
  qed
qed

lemma WithdrawHandler_cases:
  assumes run: "WithdrawHandler_Handle E h ctx req w = (r, w')"
  obtains "w_store w' = w_store w" "status_of r \<in> {Some 405, Some 422}" "decoded withdraw_request_of_json req = None"
  | lg q v t x v' where "w_store v = w_store w" "wh_Execute h (WithLogger ctx lg) q v = (x, v')"
    "w_store w' = w_store v'" "r = fst (withdraw_respond E lg t x v')" "decoded withdraw_request_of_json req = Some q"
proof -
  obtain t w0 r0 w1 where w0: "w_store w0 = w_store w" and body: "withdraw_handle_body E h ctx req t w0 = (r0, w1)"
    and res: "r = r0" "w_store w' = w_store w1"
  proof -
    let ?w0 = "emit [SpanAttr withdrawRoute ''http.method'' ''POST'', SpanAttr withdrawRoute ''http.route'' ''/withdrawals'',
        SpanAttr withdrawRoute ''wallet.command'' ''withdraw''] (next_tick (emit [SpanStart withdrawRoute] w))"
    obtain r0 w1 where "withdraw_handle_body E h ctx req (e_now E (w_tick w)) ?w0 = (r0, w1)" by fastforce
    then show thesis using run by (intro that [of ?w0 "e_now E (w_tick w)" r0 w1]) (auto simp: WithdrawHandler_Handle_def time_Now_def)
  qed
  show thesis
  proof (cases "rq_Method req = ''POST'' \<and> (\<exists>j. json_parse (rq_Body req) = Some j \<and> withdraw_request_of_json j \<noteq> None)")
    case False
    then have "w1 = w0 \<and> status_of r0 \<in> {Some 405, Some 422}"
      using body by (auto simp: withdraw_handle_body_def errorResponse_def status_of_def split: if_splits option.splits)
    moreover have "decoded withdraw_request_of_json req = None"
      using False by (auto simp: decoded_def split: option.split)
    ultimately show thesis using that(1) w0 res by simp
  next
    case True
    then obtain j q where q: "json_parse (rq_Body req) = Some j" "withdraw_request_of_json j = Some q" by blast
    obtain lg v where lg: "LoggerFactory_FromContext (wh_loggers h) ctx ''http'' ''withdraw'' w0 = (lg, v)" by fastforce
    then have v: "w_store v = w_store w" using w0 by (auto simp: LoggerFactory_FromContext_def)
    obtain x v' where x: "wh_Execute h (WithLogger ctx lg) q v = (x, v')" by fastforce
    have "(r0, w1) = withdraw_respond E lg t x v'"
      using body True q lg x by (simp add: withdraw_handle_body_def)
    then have "w_store w1 = w_store v'" "r0 = fst (withdraw_respond E lg t x v')"
      by (metis withdraw_respond_status(2) snd_conv, metis fst_conv)
    then show thesis using that(2) v x res True q by (simp add: decoded_def)
  qed
qed

subsection \<open>The whole Lambda\<close>

lemma route_cases:
  assumes "wallet_lambda E S base ctx req w = (r, w')"
  obtains "rq_Path req = ''/deposits''"
    "DepositHandler_Handle E (NewDepositHandler (DepositService_Execute E (wallet_deposit_service E S)) base)
       ctx req w = (r, w')"
  | "rq_Path req = ''/withdrawals''"
    "WithdrawHandler_Handle E (NewWithdrawHandler (WithdrawService_Execute E (wallet_withdraw_service E S)) base)
       ctx req w = (r, w')"
  | "rq_Path req \<notin> {''/deposits'', ''/withdrawals''}" "w' = w" "status_of r = Some 404"
  using assms by (auto simp: wallet_lambda_def route_def status_of_def split: if_splits)

text \<open>The answer and the store come from one call of a service, or the store is untouched.\<close>

lemma wallet_lambda_cases:
  assumes "wallet_lambda E S base ctx req w = (r, w')"
  obtains "w_store w' = w_store w" "status_of r \<in> {Some 404, Some 405, Some 422}"
  | lg q v x v' where "rq_Path req = ''/deposits''" "w_store v = w_store w"
    "DepositService_Execute E (wallet_deposit_service E S) (WithLogger ctx lg) q v = (x, v')"
    "w_store w' = w_store v'" "status_of r = exec_status x"
  | lg q v x v' where "rq_Path req = ''/withdrawals''" "w_store v = w_store w"
    "WithdrawService_Execute E (wallet_withdraw_service E S) (WithLogger ctx lg) q v = (x, v')"
    "w_store w' = w_store v'" "status_of r = exec_status x"
  using assms
proof (cases rule: route_cases)
  case 1
  from 1(2) show thesis
    by (cases rule: DepositHandler_cases)
      (auto simp: NewDepositHandler_def intro: that(1) that(2) [OF 1(1)])
next
  case 2
  from 2(2) show thesis
    by (cases rule: WithdrawHandler_cases)
      (auto simp: NewWithdrawHandler_def intro: that(1) that(3) [OF 2(1)])
qed (auto intro: that(1))

lemma table_stable_store: "w_store v = w_store w \<Longrightarrow> table_stable S P v = table_stable S P w"
  by (simp add: table_stable_def holds_def)

context table_inv begin

theorem inv_wallet_lambda:
  assumes "table_stable S P w"
  shows "table_stable S P (snd (wallet_lambda E S base ctx req w))"
proof (cases "wallet_lambda E S base ctx req w")
  case (Pair r w')
  note stable = table_stable_store [THEN iffD1, rotated]
  from Pair show ?thesis
  proof (cases rule: wallet_lambda_cases)
    case (2 lg q v x v')
    have "table_stable S P v" using assms stable 2(2) by metis
    with inv_DepositService_Execute [of v E "WithLogger ctx lg" q] have "table_stable S P v'"
      using 2(3) by (simp add: wallet_deposit_service_def)
    then show ?thesis using stable 2(4) Pair by (metis snd_conv)
  next
    case (3 lg q v x v')
    have "table_stable S P v" using assms stable 3(2) by metis
    with inv_WithdrawService_Execute [of v E "WithLogger ctx lg" q] have "table_stable S P v'"
      using 3(3) by (simp add: wallet_withdraw_service_def)
    then show ?thesis using stable 3(4) Pair by (metis snd_conv)
  qed (use assms stable Pair in \<open>metis snd_conv\<close>)
qed

end

context alone_session begin

theorem kept_wallet_lambda:
  assumes "wallet_lambda E S base ctx req w = (r, w')"
    and "status_of r \<noteq> Some (if rq_Path req = ''/deposits'' then 201 else 200)"
  shows "committed w' = committed w"
  using assms(1)
proof (cases rule: wallet_lambda_cases)
  case (2 lg q v x v')
  with kept_DepositService_Execute [of v E "WithLogger ctx lg" q] assms(2) show ?thesis
    by (auto simp: wallet_deposit_service_def kept_def committed_def exec_status_def split: exec.splits)
next
  case (3 lg q v x v')
  have "x = Success resp s \<Longrightarrow> s = 200" for resp s
    using withdraw_outcomes [of E "wallet_withdraw_service E S" "WithLogger ctx lg" q v] 3(3)
    by (simp add: outcome_in_def)
  with 3 kept_WithdrawService_Execute [of v E "WithLogger ctx lg" q] assms(2) show ?thesis
    by (auto simp: wallet_withdraw_service_def kept_def committed_def exec_status_def split: exec.splits)
qed (simp add: committed_def)

end

end
