(* ===== verification/Snapshot.thy ===== *)
theory Snapshot
  imports Withdraw
begin

text \<open>
  The stored response: what \<open>Execute\<close> marshals into \<open>response_snapshot\<close> comes back from the
  \<open>JSONB\<close> column as a document that \<open>deserializeSnapshot\<close> and \<open>deserializeWithdrawSnapshot\<close>
  turn into the same response.  PostgreSQL keeps a \<open>JSONB\<close> value up to the order of object
  members and insignificant white space; the locale \<open>jsonb_text\<close> states that of its text form.
\<close>

subsection \<open>Documents up to the order of members\<close>

inductive same_doc :: "json \<Rightarrow> json \<Rightarrow> bool" where
  same_refl: "same_doc j j"
| same_arr: "list_all2 same_doc vs us \<Longrightarrow> same_doc (JArr vs) (JArr us)"
| same_obj: "list_all2 (rel_prod (=) same_doc) ms ns \<Longrightarrow> mset ns = mset us \<Longrightarrow> same_doc (JObj ms) (JObj us)"

inductive_cases same_strE: "same_doc (JStr s) j"
inductive_cases same_arrE: "same_doc (JArr vs) j"
inductive_cases same_objE: "same_doc (JObj ms) j"

definition printable :: "string \<Rightarrow> bool" where
  "printable s = list_all (\<lambda>c. 32 \<le> byte c \<and> byte c < 127) s"

fun jsonb_safe :: "json \<Rightarrow> bool" where
  "jsonb_safe JNull = True"
| "jsonb_safe (JBool b) = True"
| "jsonb_safe (JNum t) = False"
| "jsonb_safe (JStr s) = printable s"
| "jsonb_safe (JArr vs) = list_all jsonb_safe vs"
| "jsonb_safe (JObj ms) = (distinct (map fst ms) \<and> list_all (\<lambda>(k, v). printable k \<and> jsonb_safe v) ms)"

lemma printable_ascii: "printable s \<Longrightarrow> ascii s"
  by (auto simp: printable_def ascii_def list_all_iff)

lemma jsonb_safe_plain: "jsonb_safe j \<Longrightarrow> plain_json j"
  by (induction j) (fastforce simp: list_all_iff printable_ascii)+

lemma same_members:
  assumes "same_doc (json_of_members kvs) j"
  obtains kvs' where "mset kvs' = mset kvs" "j = json_of_members kvs'"
proof -
  let ?f = "\<lambda>(k, s). (k, JStr s)" and ?g = "\<lambda>(k, v). (k, case v of JStr s \<Rightarrow> s | _ \<Rightarrow> [])"
  have gf: "?g (?f kv) = kv" for kv by (cases kv) simp
  have "list_all2 (rel_prod (=) same_doc) (map ?f kvs) ns \<Longrightarrow> ns = map ?f kvs" for ns
    by (induction kvs arbitrary: ns) (auto simp: list_all2_Cons1 elim!: same_strE)
  note str = this
  have "\<exists>us. j = JObj us \<and> mset us = mset (map ?f kvs)"
    using assms unfolding json_of_members_def by (rule same_objE) (auto dest!: str)
  then obtain us where us: "j = JObj us" "mset us = mset (map ?f kvs)" by blast
  have "mset (map ?g us) = image_mset ?g (image_mset ?f (mset kvs))" using us(2) by simp
  also have "\<dots> = mset kvs" by (simp add: image_mset.compositionality comp_def gf)
  finally have kvs: "mset (map ?g us) = mset kvs" .
  have "set us = ?f ` set kvs" using us(2) by (metis mset_eq_setD set_map)
  then have "map ?f (map ?g us) = us" by (auto simp: gf intro!: map_idI)
  with us(1) kvs show thesis by (intro that [of "map ?g us"]) (simp_all add: json_of_members_def)
qed

lemma dto_of_json_same:
  assumes "same_doc (dto_json d) j"
  shows "dto_of_json j = Some d"
proof -
  obtain kvs where kvs: "mset kvs = mset (dto_members d)" "j = json_of_members kvs"
    using same_members assms unfolding dto_json_def by blast
  have "mset (map (fold_name \<circ> fst) kvs) = mset (map (fold_name \<circ> fst) (dto_members d))"
    using kvs(1) by simp
  moreover have "distinct (map (fold_name \<circ> fst) (dto_members d))"
    using dto_names_fold_distinct by (simp only: map_map [symmetric] dto_members_names)
  ultimately have dist: "distinct (map (fold_name \<circ> fst) kvs)" by (metis mset_eq_imp_distinct_iff)
  have set: "set kvs = set (dto_members d)" using kvs(1) by (rule mset_eq_setD)
  have "dto_of_fields (get_string (map (\<lambda>(k, s). (k, JStr s)) kvs)) = d"
    unfolding dto_of_fields_def
    by (subst get_string_members [OF dist], simp add: set dto_members_def)+ simp
  then show ?thesis
    by (simp add: kvs(2) dto_of_json_def json_of_members_def decode_strings_def string_fields_members)
qed

lemma those_map_dto:
  "list_all2 same_doc (map dto_json ps) us \<Longrightarrow> those (map dto_of_json us) = Some ps"
  by (induction ps arbitrary: us) (auto simp: list_all2_Cons1 dto_of_json_same)

lemma withdraw_response_of_json_same:
  assumes "same_doc (withdraw_response_json r) j"
  shows "withdraw_response_of_json j = Some r"
proof -
  have "\<exists>us. j = JObj [(''positions'', JArr us)] \<and> list_all2 same_doc (map dto_json (wr_Positions r)) us"
  proof -
    let ?vs = "map dto_json (wr_Positions r)"
    have "\<exists>v. j = JObj [(''positions'', v)] \<and> same_doc (JArr ?vs) v"
      using assms unfolding withdraw_response_json_def
      by (rule same_objE) (auto simp: list_all2_Cons1 intro: same_refl)
    then obtain v where v: "j = JObj [(''positions'', v)]" "same_doc (JArr ?vs) v" by blast
    from v(2) have "\<exists>us. v = JArr us \<and> list_all2 same_doc ?vs us"
      by (rule same_arrE) (auto simp: list_all2_conv_all_nth intro: same_refl)
    with v(1) show ?thesis by blast
  qed
  then show ?thesis
    by (auto simp: withdraw_response_of_json_def positions_of_json_def same_field_def those_map_dto)
qed

subsection \<open>The texts of a response are printable\<close>

definition uuid_text_char :: "char \<Rightarrow> bool" where
  "uuid_text_char c \<longleftrightarrow> is_digit c \<or> in_range 97 102 c \<or> c = CHR ''-''"

definition uuid_texts :: "'d env \<Rightarrow> bool" where
  "uuid_texts E \<longleftrightarrow> (\<forall>u. list_all uuid_text_char (e_uuidString E u))"

lemma printable_append [simp]: "printable (s @ t) \<longleftrightarrow> printable s \<and> printable t"
  by (simp add: printable_def)

lemma printable_Cons [simp]: "printable (c # t) \<longleftrightarrow> 32 \<le> byte c \<and> byte c < 127 \<and> printable t"
  by (simp add: printable_def)

lemma printable_Nil [simp]: "printable []"
  by (simp add: printable_def)

lemma printable_digits: "\<forall>c \<in> set s. is_digit c \<Longrightarrow> printable s"
  by (auto simp: printable_def list_all_iff is_digit_def)

lemma printable_append_int: "printable (append_int x w)"
  using printable_digits [OF itoa_digits]
  by (simp add: append_int_def Let_def) (simp add: printable_def list_all_iff)

lemma printable_rfc3339: "printable (format_rfc3339 t)"
  by (simp add: format_rfc3339_def Let_def printable_append_int split: prod.split)

lemma printable_uuid: "uuid_texts E \<Longrightarrow> printable (e_uuidString E u)"
  by (force simp: uuid_texts_def printable_def list_all_iff uuid_text_char_def is_digit_def in_range_def)

definition printable_dto :: "position_dto \<Rightarrow> bool" where
  "printable_dto d = list_all (\<lambda>(k, s). printable s) (dto_members d)"

lemma dto_keys: "distinct (map fst (dto_members d))" "list_all (\<lambda>(k, s). printable k) (dto_members d)"
  by (simp_all add: dto_members_def)

lemma jsonb_safe_dto: "printable_dto d \<Longrightarrow> jsonb_safe (dto_json d)"
  using dto_keys [of d]
  by (auto simp: dto_json_def json_of_members_def printable_dto_def list_all_iff comp_def case_prod_unfold)

lemma json_depth_dto: "json_depth (dto_json d) = 1"
  by (simp add: dto_json_def json_of_members_def dto_members_def)

lemma json_parse_dto: "printable_dto d \<Longrightarrow> json_parse (json_print (dto_json d)) = Some (dto_json d)"
  by (rule json_parse_print)
    (simp_all add: jsonb_safe_plain jsonb_safe_dto json_depth_dto maxNestingDepth_def)

lemma jsonb_safe_withdraw:
  "list_all printable_dto (wr_Positions r) \<Longrightarrow> jsonb_safe (withdraw_response_json r)"
  by (auto simp: withdraw_response_json_def list_all_iff jsonb_safe_dto)

lemma json_parse_withdraw:
  assumes "list_all printable_dto (wr_Positions r)"
  shows "json_parse (json_print (withdraw_response_json r)) = Some (withdraw_response_json r)"
proof (rule json_parse_print)
  have "json_depth (withdraw_response_json r) \<le> 3"
    by (auto simp: withdraw_response_json_def json_depth_dto image_comp comp_def)
  then show "json_depth (withdraw_response_json r) \<le> maxNestingDepth" by (simp add: maxNestingDepth_def)
qed (simp add: jsonb_safe_plain jsonb_safe_withdraw assms)

context decimal_arith begin

lemma printable_String: "printable (d_String D x)"
  using String_chars [of x]
  by (auto simp: printable_def list_all_iff decimal_text_char_def is_digit_def)

lemma printable_position_dto: "e_dec E = D \<Longrightarrow> uuid_texts E \<Longrightarrow> printable_dto (position_to_dto E p)"
  by (simp add: printable_dto_def dto_members_def position_to_dto_def printable_uuid printable_rfc3339
      printable_String)

end

subsection \<open>The JSONB column\<close>

locale jsonb_text =
  fixes jsonb :: "string \<Rightarrow> string option"
  assumes accepts: "json_parse s = Some j \<Longrightarrow> jsonb_safe j \<Longrightarrow> jsonb s \<noteq> None"
    and same: "json_parse s = Some j \<Longrightarrow> jsonb_safe j \<Longrightarrow> jsonb s = Some t \<Longrightarrow>
      \<exists>j'. json_parse t = Some j' \<and> same_doc j j'"
begin

lemma deposit_snapshot:
  assumes "printable_dto r" "jsonb (json_print (dto_json r)) = Some t"
  shows "deserializeSnapshot E t = Success r 200"
proof -
  obtain j where "json_parse t = Some j" "same_doc (dto_json r) j"
    using same [OF json_parse_dto jsonb_safe_dto] assms by blast
  then show ?thesis by (simp add: deserializeSnapshot_def dto_of_json_same)
qed

lemma withdraw_snapshot:
  assumes "list_all printable_dto (wr_Positions r)" "jsonb (json_print (withdraw_response_json r)) = Some t"
  shows "deserializeWithdrawSnapshot E t = Success r 200"
proof -
  obtain j where "json_parse t = Some j" "same_doc (withdraw_response_json r) j"
    using same [OF json_parse_withdraw jsonb_safe_withdraw] assms by blast
  then show ?thesis by (simp add: deserializeWithdrawSnapshot_def withdraw_response_of_json_same)
qed

end

text \<open>A column that keeps the text it is given, if that is a JSON document.\<close>

definition ref_jsonb :: "string \<Rightarrow> string option" where
  "ref_jsonb s = (case json_parse s of Some j \<Rightarrow> Some s | None \<Rightarrow> None)"

interpretation refj: jsonb_text ref_jsonb
  by unfold_locales (auto simp: ref_jsonb_def intro: same_refl)

end
