(* ===== verification/Lots.thy ===== *)
theory Lots
  imports Withdraw
begin

text \<open>
  The arithmetic of a withdrawal: what one pass of the FIFO loop takes from a lot, that the loop
  never divides by zero and never drives an amount negative, how the desired value, the value
  taken and the residue balance, and how far the rounding to six digits can push each of them.
  A stored lot has its amount on the grid of the \<open>NUMERIC(18,6)\<close> column (\<open>lot_ok\<close>).
\<close>

definition lot_ok :: "('d \<Rightarrow> rat) \<Rightarrow> 'd position \<Rightarrow> bool" where
  "lot_ok val p \<longleftrightarrow> position_inv val p \<and> on_grid 6 (val (pos_amount p))"

text \<open>
  The most one lot's rounding can miss by, in units: half a step of \<open>Round(6)\<close> and half a step
  of the sixteen digits of the quotient.
\<close>

definition quantum :: rat where
  "quantum = 1 / 2 / 10 ^ 6 + 1 / 2 / 10 ^ 16"

text \<open>A lot and what the loop makes of it.\<close>

definition reduced :: "('d \<Rightarrow> rat) \<Rightarrow> 'd position \<Rightarrow> 'd position \<Rightarrow> bool" where
  "reduced val p q \<longleftrightarrow>
     pos_positionID q = pos_positionID p \<and> pos_clientID q = pos_clientID p \<and>
     pos_assetID q = pos_assetID p \<and> pos_unitPrice q = pos_unitPrice p \<and>
     pos_collateralValue q = pos_collateralValue p \<and>
     pos_judiciaryCollateralValue q = pos_judiciaryCollateralValue p \<and>
     pos_createdAt q = pos_createdAt p \<and> pos_purchasedAt q = pos_purchasedAt p \<and>
     pos_rowVersion q = pos_rowVersion p + 1 \<and>
     lot_ok val q \<and> val (pos_amount q) \<le> val (pos_amount p) \<and>
     - quantum * val (pos_unitPrice p) \<le> free_value val q"

definition value_taken :: "('d \<Rightarrow> rat) \<Rightarrow> 'd position list \<Rightarrow> 'd position list \<Rightarrow> rat" where
  "value_taken val ps qs =
     (\<Sum>(p, q) \<leftarrow> zip ps qs. val (pos_totalValue p) - val (pos_totalValue q))"

definition price_sum :: "('d \<Rightarrow> rat) \<Rightarrow> 'd position list \<Rightarrow> rat" where
  "price_sum val ps = (\<Sum>p \<leftarrow> ps. val (pos_unitPrice p))"

definition free_sum :: "('d \<Rightarrow> rat) \<Rightarrow> 'd position list \<Rightarrow> rat" where
  "free_sum val ps = (\<Sum>p \<leftarrow> ps. free_value val p)"

text \<open>
  What the loop promises for lots \<open>ps\<close> and a desired value \<open>r\<close>, when it leaves the updated
  lots \<open>qs\<close> and the residue \<open>r'\<close>: the lots touched are a prefix of \<open>ps\<close>, each reduced within
  its holding; value is conserved; the loop stops early only when nothing remains; a positive
  request touches at least one lot and is exceeded by at most a quantum of the last one; what
  is missing is what the lots could not cover, plus at most a quantum per lot.
\<close>

definition fifo_outcome ::
    "('d \<Rightarrow> rat) \<Rightarrow> 'd position list \<Rightarrow> rat \<Rightarrow> 'd position list \<Rightarrow> rat \<Rightarrow> bool" where
  "fifo_outcome val ps r qs r' \<longleftrightarrow>
     length qs \<le> length ps \<and> list_all2 (reduced val) (take (length qs) ps) qs \<and>
     r = value_taken val ps qs + r' \<and>
     (length qs < length ps \<longrightarrow> r' \<le> 0) \<and>
     (0 < r \<longrightarrow> ps \<noteq> [] \<longrightarrow> qs \<noteq> [] \<and> - quantum * val (pos_unitPrice (last qs)) \<le> r') \<and>
     r' \<le> max 0 (r - free_sum val ps) + quantum * price_sum val qs"

lemma quantum_pos: "0 < quantum"
  by (simp add: quantum_def)

lemma value_taken_Cons [simp]:
  "value_taken val (p # ps) (q # qs) =
     val (pos_totalValue p) - val (pos_totalValue q) + value_taken val ps qs"
  by (simp add: value_taken_def)

lemma value_taken_Nil [simp]: "value_taken val ps [] = 0" "value_taken val [] qs = 0"
  by (simp_all add: value_taken_def)

lemma price_sum_simps [simp]:
  "price_sum val [] = 0" "price_sum val (p # ps) = val (pos_unitPrice p) + price_sum val ps"
  by (simp_all add: price_sum_def)

lemma free_sum_simps [simp]:
  "free_sum val [] = 0" "free_sum val (p # ps) = free_value val p + free_sum val ps"
  by (simp_all add: free_sum_def)

lemma price_sum_nonneg: "(\<And>p. p \<in> set ps \<Longrightarrow> lot_ok val p) \<Longrightarrow> 0 \<le> price_sum val ps"
  unfolding price_sum_def by (rule sum_list_nonneg_map) (auto simp: lot_ok_def position_inv_def)

context decimal_arith begin

lemma select_eligible_spec:
  "select_eligible D ps el tot = (el', tot') \<Longrightarrow>
     el' = el @ filter (\<lambda>p. 0 < free_value val p) ps \<and>
     val tot' = val tot + free_sum val (filter (\<lambda>p. 0 < free_value val p) ps)"
proof (induction ps arbitrary: el tot)
  case (Cons p ps)
  show ?case
    using Cons.prems Cons.IH [of "el @ [p]" "d_Add D tot (AvailableValue D p)"] Cons.IH [of el tot]
    by (cases "0 < free_value val p") (simp_all add: val_simps val_AvailableValue)
qed simp

text \<open>One lot: the units sold are well defined, within the holding, and worth the wanted value
  up to a quantum.\<close>

lemma units_sold_spec:
  assumes ok: "lot_ok val p" and free: "0 < free_value val p" and rem: "0 < val rem"
  obtains u where "units_sold D p rem = Some u" "on_grid 6 (val u)" "0 \<le> val u"
    "val u \<le> val (pos_amount p)"
    "\<bar>val u * val (pos_unitPrice p) - min (val rem) (free_value val p)\<bar> \<le> quantum * val (pos_unitPrice p)"
proof -
  let ?pr = "val (pos_unitPrice p)" and ?am = "val (pos_amount p)"
  define v where "v = min (val rem) (free_value val p)"
  have inv: "position_inv val p" and grid: "on_grid 6 ?am"
    using ok by (auto simp: lot_ok_def)
  have pr: "0 < ?pr" using available_pos_price [OF inv free] by simp
  obtain q where q: "d_Div D (d_Min D rem (AvailableValue D p)) (pos_unitPrice p) = Some q"
    "val q = round_places 16 (v / ?pr)"
    using Div_nonzero [of "pos_unitPrice p" "d_Min D rem (AvailableValue D p)"] pr
    by (auto simp: val_Min val_AvailableValue v_def)
  define u where "u = d_Round D q 6"
  have u: "val u = round_places 6 (val q)" by (simp add: u_def val_Round_6)
  have v0: "0 \<le> v / ?pr" using free rem pr by (simp add: v_def)
  have "v \<le> ?am * ?pr" using free_le_total [OF inv] by (simp add: v_def min.coboundedI2)
  then have "v / ?pr \<le> ?am" using pr by (simp add: pos_divide_le_eq)
  then have qam: "val q \<le> ?am"
    using round_places_le_grid [OF v0 _ on_grid_mono [OF grid]] by (simp add: q(2))
  have q0: "0 \<le> val q" using v0 by (simp add: q(2) round_places_nonneg)
  have "\<bar>val u - val q\<bar> \<le> 1 / 2 / 10 ^ 6" "\<bar>val q - v / ?pr\<bar> \<le> 1 / 2 / 10 ^ 16"
    using round_places_error [OF q0, of 6] round_places_error [OF v0, of 16]
    by (simp_all only: u q(2))
  then have "\<bar>val u - v / ?pr\<bar> \<le> quantum"
    unfolding quantum_def by linarith
  then have "\<bar>val u - v / ?pr\<bar> * ?pr \<le> quantum * ?pr" using pr by (simp add: mult_right_mono)
  moreover have "\<bar>val u - v / ?pr\<bar> * ?pr = \<bar>val u * ?pr - v\<bar>"
    using pr by (simp add: abs_mult_pos [of ?pr] left_diff_distrib)
  ultimately have err: "\<bar>val u * ?pr - v\<bar> \<le> quantum * ?pr" by simp
  show thesis
  proof (rule that [of u])
    show "units_sold D p rem = Some u" by (simp add: units_sold_def q(1) u_def)
    show "on_grid 6 (val u)" "0 \<le> val u" using q0 by (simp_all add: u round_places_nonneg)
    show "val u \<le> ?am" using round_places_le_grid [OF q0 qam grid] by (simp add: u)
    show "\<bar>val u * ?pr - min (val rem) (free_value val p)\<bar> \<le> quantum * ?pr"
      using err by (simp add: v_def)
  qed
qed

lemma consume_step:
  assumes "lot_ok val p" "0 < free_value val p" "0 < val rem"
  obtains u q where "units_sold D p rem = Some u"
    "UpdateAmount D now p (d_Sub D (pos_amount p) u) = Ok q" "reduced val p q"
    "val (pos_totalValue p) - val (pos_totalValue q) = val u * val (pos_unitPrice p)"
    "\<bar>val u * val (pos_unitPrice p) - min (val rem) (free_value val p)\<bar> \<le> quantum * val (pos_unitPrice p)"
proof -
  obtain u where u: "units_sold D p rem = Some u" "on_grid 6 (val u)" "0 \<le> val u"
    "val u \<le> val (pos_amount p)"
    "\<bar>val u * val (pos_unitPrice p) - min (val rem) (free_value val p)\<bar> \<le> quantum * val (pos_unitPrice p)"
    using units_sold_spec [OF assms] .
  obtain q where q: "UpdateAmount D now p (d_Sub D (pos_amount p) u) = Ok q"
    using UpdateAmount_Ok_iff [of now p "d_Sub D (pos_amount p) u"] u(4) by (auto simp: val_simps)
  have inv: "position_inv val p" "on_grid 6 (val (pos_amount p))"
    using assms(1) by (auto simp: lot_ok_def)
  have upd: "q = p\<lparr>pos_amount := d_Sub D (pos_amount p) u,
      pos_totalValue := d_Mul D (d_Sub D (pos_amount p) u) (pos_unitPrice p),
      pos_rowVersion := pos_rowVersion p + 1, pos_updatedAt := now\<rparr>"
    using q by (auto simp: UpdateAmount_def split: if_splits)
  have taken: "val (pos_totalValue p) - val (pos_totalValue q) = val u * val (pos_unitPrice p)"
    using inv(1) by (simp add: upd val_simps position_inv_def algebra_simps)
  have "lot_ok val q"
    using UpdateAmount_inv [OF q inv(1)] on_grid_diff [OF inv(2) u(2)]
    by (simp add: lot_ok_def upd val_simps)
  moreover have "free_value val q = free_value val p - val u * val (pos_unitPrice p)"
    using taken by (simp add: free_value_def upd)
  then have "- quantum * val (pos_unitPrice p) \<le> free_value val q"
    using u(5) by linarith
  ultimately have "reduced val p q"
    using u(3) by (simp add: reduced_def upd val_simps)
  then show thesis using that u(1,5) q taken by blast
qed

lemma fifo_outcome_Cons:
  assumes ok: "lot_ok val p" and red: "reduced val p q"
    and taken: "val (pos_totalValue p) - val (pos_totalValue q) = t"
    and err: "\<bar>t - min r (free_value val p)\<bar> \<le> quantum * val (pos_unitPrice p)"
    and rest: "fifo_outcome val ps (r - t) qs r'"
    and stop: "r - t \<le> 0 \<Longrightarrow> qs = [] \<and> r' = r - t"
    and free: "\<And>p. p \<in> set ps \<Longrightarrow> 0 < free_value val p"
  shows "fifo_outcome val (p # ps) r (q # qs) r'"
proof -
  let ?e = "quantum * val (pos_unitPrice p)"
  have price: "val (pos_unitPrice q) = val (pos_unitPrice p)" using red by (simp add: reduced_def)
  have fs: "0 \<le> free_sum val ps"
    unfolding free_sum_def using free by (intro sum_list_nonneg_map) (simp add: less_imp_le)
  have "max 0 (r - t - free_sum val ps) \<le> max 0 (r - free_value val p - free_sum val ps) + ?e"
    using err fs by linarith
  moreover have "r' \<le> max 0 (r - t - free_sum val ps) + quantum * price_sum val qs"
    using rest unfolding fifo_outcome_def by blast
  ultimately have upper: "r' \<le> max 0 (r - free_sum val (p # ps)) + quantum * price_sum val (q # qs)"
    unfolding free_sum_simps price_sum_simps price distrib_left diff_diff_eq [symmetric] by linarith
  have lower: "- quantum * val (pos_unitPrice (last (q # qs))) \<le> r'"
  proof (cases "qs = []")
    case True
    then have "r' = r - t" using rest by (simp add: fifo_outcome_def)
    with True err show ?thesis by (simp add: price)
  next
    case False
    then have "0 < r - t" using stop by force
    moreover have "ps \<noteq> []" using False rest by (auto simp: fifo_outcome_def)
    ultimately show ?thesis using rest False by (simp add: fifo_outcome_def)
  qed
  show ?thesis
    using rest red taken upper lower by (auto simp: fifo_outcome_def)
qed

theorem consume_lots_spec:
  assumes "e_dec E = D"
    and "\<And>p. p \<in> set lots \<Longrightarrow> lot_ok val p \<and> 0 < free_value val p"
  shows "\<exists>sold rem'. consume_lots E lots rem aff w =
      (Ok (aff @ sold, rem'), w\<lparr>w_tick := w_tick w + length sold\<rparr>) \<and>
      fifo_outcome val lots (val rem) sold (val rem') \<and> (val rem \<le> 0 \<longrightarrow> sold = [] \<and> rem' = rem)"
  using assms(2)
proof (induction lots arbitrary: rem aff w)
  case Nil
  then show ?case by (simp add: fifo_outcome_def)
next
  case (Cons p ps)
  show ?case
  proof (cases "0 < val rem")
    case False
    moreover have "0 \<le> quantum * price_sum val []" by simp
    ultimately show ?thesis
      by (auto simp: fifo_outcome_def assms(1) val_simps)
  next
    case True
    have p: "lot_ok val p" "0 < free_value val p" using Cons.prems [of p] by auto
    let ?now = "e_now E (w_tick w)"
    obtain u q where s: "units_sold D p rem = Some u"
      "UpdateAmount D ?now p (d_Sub D (pos_amount p) u) = Ok q" "reduced val p q"
      "val (pos_totalValue p) - val (pos_totalValue q) = val u * val (pos_unitPrice p)"
      "\<bar>val u * val (pos_unitPrice p) - min (val rem) (free_value val p)\<bar> \<le> quantum * val (pos_unitPrice p)"
      using consume_step [OF p True] .
    let ?rem = "d_Sub D rem (d_Mul D u (pos_unitPrice p))"
    obtain sold rem' where r: "consume_lots E ps ?rem (aff @ [q]) (next_tick w) =
        (Ok ((aff @ [q]) @ sold, rem'), (next_tick w)\<lparr>w_tick := w_tick (next_tick w) + length sold\<rparr>)"
      "fifo_outcome val ps (val ?rem) sold (val rem')" "val ?rem \<le> 0 \<longrightarrow> sold = [] \<and> rem' = ?rem"
      using Cons.IH [of ?rem "aff @ [q]" "next_tick w"] Cons.prems by auto
    have "fifo_outcome val (p # ps) (val rem) (q # sold) (val rem')"
      using r(2,3) Cons.prems
      by (intro fifo_outcome_Cons [OF p(1) s(3,4,5)]) (auto simp: val_simps)
    moreover have "consume_lots E (p # ps) rem aff w =
        (Ok (aff @ q # sold, rem'), w\<lparr>w_tick := w_tick w + length (q # sold)\<rparr>)"
      using True s(1,2) r(1) by (simp add: assms(1) val_simps time_Now_def next_tick_def)
    ultimately show ?thesis using True by (intro exI [of _ "q # sold"] exI [of _ rem']) auto
  qed
qed

end

end
