(* ===== verification/Effects.thy ===== *)
theory Effects
  imports Wallet Snapshot Lots
begin

text \<open>
  What the commands do to the tables.  Each repository operation that succeeds inside a
  transaction is inverted to the statement it ran; a unit of work that succeeds, to its body and
  the commit; \<open>Execute\<close>, to the rows it adds or replaces.  Other sessions may commit between
  two statements of this one (\<open>sv_interfere\<close>), as long as they only extend what is recorded
  (\<open>growing\<close>).
\<close>

subsection \<open>Inversion of successful operations\<close>

lemmas endDBSpan_eq = endDBSpan_fields

lemma pg_call_fields:
  assumes "pg_call S w = (f, v)"
  shows "w_store v = \<lparr>st_db = sv_interfere S (w_tick w) (st_db (w_store w)),
      st_tx = map_option (sv_interfere S (w_tick w)) (st_tx (w_store w))\<rparr>"
  using assms by (auto simp: pg_call_def Let_def)

lemma pg_exec_tx:
  assumes "pg_exec S ctx x w = (Ok a, v)" "ctx_tx ctx" "st_tx (w_store w) = Some d"
  obtains d' where "x (sv_interfere S (w_tick w) d) = Ok (a, d')" "st_tx (w_store v) = Some d'"
    "st_db (w_store v) = sv_interfere S (w_tick w) (st_db (w_store w))"
proof -
  obtain f w1 where w1: "pg_call S w = (f, w1)" by fastforce
  note st = pg_call_fields [OF w1]
  from assms w1 st show thesis
    by (auto simp: pg_exec_def executorFromContext_def write_through_def intro: that
        split: option.splits res.splits prod.splits)
qed

lemma PositionRepository_Create_Ok:
  assumes "PositionRepository_Create E S ctx p w = (Ok a, v)" "ctx_tx ctx" "st_tx (w_store w) = Some d"
  obtains k d' where "insert_position E S p (sv_interfere S k d) = Ok ((), d')" "st_tx (w_store v) = Some d'"
    "st_db (w_store v) = sv_interfere S k (st_db (w_store w))"
proof -
  let ?w = "startDBSpan ''db.position.create'' ''INSERT'' w"
  obtain r w1 where w1: "pg_exec S ctx (insert_position E S p) ?w = (r, w1)" by fastforce
  with assms(1) have r: "r = Ok ()" "w_store v = w_store w1"
    by (auto simp: PositionRepository_Create_def dest!: endDBSpan_eq split: res.splits)
  have "st_tx (w_store ?w) = Some d" using assms(3) by simp
  with w1 [unfolded r(1)] assms(2) show thesis by (rule pg_exec_tx) (use r(2) that in auto)
qed

lemma PositionRepository_Update_Ok:
  assumes "PositionRepository_Update E S ctx p w = (Ok a, v)" "ctx_tx ctx" "st_tx (w_store w) = Some d"
  obtains k n d' where "update_position E S p (sv_interfere S k d) = Ok (n, d')" "0 < n"
    "st_tx (w_store v) = Some d'" "st_db (w_store v) = sv_interfere S k (st_db (w_store w))"
proof -
  let ?w = "startDBSpan ''db.position.update'' ''UPDATE'' w"
  obtain r w1 where w1: "pg_exec S ctx (update_position E S p) ?w = (r, w1)" by fastforce
  with assms(1) obtain n where r: "r = Ok n" "0 < n" "w_store v = w_store w1"
    by (auto simp: PositionRepository_Update_def dest!: endDBSpan_eq split: res.splits if_splits)
  have "st_tx (w_store ?w) = Some d" using assms(3) by simp
  with w1 [unfolded r(1)] assms(2) show thesis by (rule pg_exec_tx) (use r(2,3) that in auto)
qed

lemma ProcessedCommandRepository_Create_Ok:
  assumes "ProcessedCommandRepository_Create E S ctx cmd w = (Ok a, v)" "ctx_tx ctx"
    "st_tx (w_store w) = Some d"
  obtains k d' where "insert_command S cmd (sv_interfere S k d) = Ok ((), d')" "st_tx (w_store v) = Some d'"
    "st_db (w_store v) = sv_interfere S k (st_db (w_store w))"
proof -
  let ?w = "startDBSpan ''db.processed_command.create'' ''INSERT'' w"
  obtain r w1 where w1: "pg_exec S ctx (insert_command S cmd) ?w = (r, w1)" by fastforce
  with assms(1) have r: "r = Ok ()" "w_store v = w_store w1"
    by (auto simp: ProcessedCommandRepository_Create_def dest!: endDBSpan_eq split: res.splits if_splits)
  have "st_tx (w_store ?w) = Some d" using assms(3) by simp
  with w1 [unfolded r(1)] assms(2) show thesis by (rule pg_exec_tx) (use r(2) that in auto)
qed

lemma insert_command_Ok_iff:
  "insert_command S c d = Ok (u, d') \<longleftrightarrow>
     (\<exists>t. sv_jsonb S (pc_responseSnapshot c) = Some t \<and>
       pc_commandID c \<notin> k_command_id ` set (db_commands d) \<and>
       (pc_commandType c, pc_orderID c) \<notin> (\<lambda>r. (k_command_type r, k_order_id r)) ` set (db_commands d) \<and>
       d' = d\<lparr>db_commands := db_commands d @
         [\<lparr>k_command_id = pc_commandID c, k_command_type = pc_commandType c,
           k_order_id = pc_orderID c, k_client_id = pc_clientID c, k_response_snapshot = t,
           k_created_at = sv_timestamptz S (pc_createdAt c)\<rparr>]\<rparr>)"
  by (auto simp: insert_command_def list_ex_or list_ex_key list_ex_key2 split: option.split)

text \<open>A unit of work that succeeds: its body, run in a transaction on the committed state, and
  the commit of what it left.\<close>

lemma Do_Ok:
  assumes "TransactionRunner_Do S ctx fn w = (Ok x, w')"
  obtains k v v1 k' where "w_store v = \<lparr>st_db = sv_interfere S k (st_db (w_store w)),
      st_tx = Some (sv_interfere S k (st_db (w_store w)))\<rparr>"
    "fn (ctx\<lparr>ctx_tx := True\<rparr>) v = (Ok x, v1)"
    "\<forall>d. st_tx (w_store v1) = Some d \<longrightarrow>
       st_db (w_store w') = sv_interfere S k' d \<and> st_tx (w_store w') = None"
proof -
  let ?w0 = "startDBSpan ''db.transaction'' ''TRANSACTION'' w"
  obtain f w1 where w1: "pg_call S ?w0 = (f, w1)" by fastforce
  let ?v = "set_tx (Some (st_db (w_store w1))) w1"
  obtain r v1 where v1: "fn (ctx\<lparr>ctx_tx := True\<rparr>) ?v = (r, v1)" by fastforce
  obtain g w3 where w3: "pg_call S v1 = (g, w3)" by fastforce
  note run = TransactionRunner_Do_def w1 v1 tx_Rollback_def tx_Commit_def w3 prod.case Let_def
  have f: "f = None"
    using assms unfolding run by (cases f) (auto dest!: endDBSpan_eq)
  have r: "r = Ok x" "g = None"
    using assms unfolding run f option.case
    by (cases r; cases g; auto dest!: endDBSpan_eq split: if_splits)+
  have fin: "w_store w' = w_store (case st_tx (w_store w3) of
      Some d \<Rightarrow> w3\<lparr>w_store := \<lparr>st_db = d, st_tx = None\<rparr>\<rparr> | None \<Rightarrow> w3)"
    using assms unfolding run f r option.case res.case by (auto dest!: endDBSpan_eq)
  show thesis
  proof (rule that [of ?v "w_tick ?w0" v1])
    show "w_store ?v = \<lparr>st_db = sv_interfere S (w_tick ?w0) (st_db (w_store w)),
        st_tx = Some (sv_interfere S (w_tick ?w0) (st_db (w_store w)))\<rparr>"
      using pg_call_fields [OF w1] by (simp add: set_tx_def)
    show "fn (ctx\<lparr>ctx_tx := True\<rparr>) ?v = (Ok x, v1)" using v1 r by simp
    show "\<forall>d. st_tx (w_store v1) = Some d \<longrightarrow>
        st_db (w_store w') = sv_interfere S (w_tick v1) d \<and> st_tx (w_store w') = None"
      using fin pg_call_fields [OF w3] by auto
  qed
qed

subsection \<open>Other sessions\<close>

text \<open>\<open>v\<close> follows \<open>w\<close> by reads only: whatever interference keeps of \<open>w\<close> holds in \<open>v\<close>.\<close>

definition reach :: "pg_server \<Rightarrow> pg_store world \<Rightarrow> pg_store world \<Rightarrow> bool" where
  "reach S w v \<longleftrightarrow> (\<forall>P. table_stable S P w \<longrightarrow> table_stable S P v)"

definition growing :: "pg_server \<Rightarrow> bool" where
  "growing S \<longleftrightarrow> (\<forall>k d. extends_db d (sv_interfere S k d))"

lemma reach_store: "w_store v = w_store w \<Longrightarrow> reach S w v"
  by (simp add: reach_def table_stable_store [of v w])

lemma reach_trans: "reach S u v \<Longrightarrow> reach S v w \<Longrightarrow> reach S u w"
  by (simp add: reach_def)

lemma find_reach:
  "ClientRepository_FindByID E S ctx c w = (r1, v) \<Longrightarrow> reach S w v"
  "AssetRepository_FindByID E S ctx a w = (r2, v) \<Longrightarrow> reach S w v"
  "ProcessedCommandRepository_FindByTypeAndOrderID S ctx t k w = (r3, v) \<Longrightarrow> reach S w v"
  "PositionRepository_FindByClientAndInstrument E S ctx c i w = (r4, v) \<Longrightarrow> reach S w v"
  unfolding reach_def by (metis find_inv snd_conv)+

lemma row_evolves_trans: "row_evolves a b \<Longrightarrow> row_evolves b c \<Longrightarrow> row_evolves a c"
  by (auto simp: row_evolves_def)

lemma extends_db_trans:
  assumes "extends_db a b" "extends_db b c"
  shows "extends_db a c"
proof -
  let ?n = "length (db_positions a)"
  have "list_all2 row_evolves (take ?n (db_positions b)) (take ?n (db_positions c))"
    using assms list_all2_takeI [of row_evolves "db_positions b"
        "take (length (db_positions b)) (db_positions c)" ?n]
    by (simp add: extends_db_def min_absorb1)
  moreover have "list_all2 row_evolves (db_positions a) (take ?n (db_positions b))"
    using assms by (simp add: extends_db_def)
  ultimately have "list_all2 row_evolves (db_positions a) (take ?n (db_positions c))"
    using list_all2_trans [of row_evolves row_evolves row_evolves] row_evolves_trans by blast
  with assms show ?thesis
    by (auto simp: extends_db_def intro: prefix_order.trans)
qed

lemma growing_rely: "growing S \<Longrightarrow> rely S (extends_db d0)"
  by (auto simp: growing_def rely_def intro: extends_db_trans)

lemma reach_extends:
  assumes "reach S w v" "growing S" "st_tx (w_store w) = None"
  shows "extends_db (committed w) (committed v)"
  using assms growing_rely [OF assms(2)] extends_db_refl
  by (auto simp: reach_def table_stable_def holds_def committed_def)

lemma reach_alone:
  assumes "reach S w v" "\<And>k d. sv_interfere S k d = d" "st_tx (w_store w) = None"
  shows "committed v = committed w"
proof -
  have "rely S (\<lambda>d. d = committed w)" using assms(2) by (simp add: rely_def)
  with assms show ?thesis by (auto simp: reach_def table_stable_def holds_def committed_def)
qed

subsection \<open>A deposit that reports 201\<close>

lemma deposit_tx_Ok:
  assumes "deposit_tx E (wallet_deposit_service E S) req c p s ctx v = (Ok u, v1)"
    "ctx_tx ctx" "st_tx (w_store v) = Some d"
  obtains k1 d1 k2 d2 cmd where "insert_position E S p (sv_interfere S k1 d) = Ok ((), d1)"
    "insert_command S cmd (sv_interfere S k2 d1) = Ok ((), d2)" "st_tx (w_store v1) = Some d2"
    "pc_commandType cmd = commandTypeDeposit" "pc_orderID cmd = dr_OrderID req"
    "pc_clientID cmd = c" "pc_responseSnapshot cmd = s"
proof -
  note svc = wallet_deposit_service_def NewDepositService_def wiring_simps
  obtain r w1 where w1: "PositionRepository_Create E S ctx p v = (r, w1)" by fastforce
  let ?cmd = "NewProcessedCommand (e_uuidNew E (w_tick w1)) (e_now E (Suc (w_tick w1)))
    commandTypeDeposit (dr_OrderID req) c s"
  let ?w2 = "next_tick (next_tick w1)"
  have "r = Ok () \<and> (\<exists>cmd. ?cmd = Ok cmd \<and> ProcessedCommandRepository_Create E S ctx cmd ?w2 = (Ok (), v1))"
    using assms(1) w1
    by (auto simp: deposit_tx_def svc uuid_New_def time_Now_def split: res.splits prod.splits)
  then obtain cmd where r: "r = Ok ()" and cmd: "?cmd = Ok cmd"
    and rec: "ProcessedCommandRepository_Create E S ctx cmd ?w2 = (Ok (), v1)" by blast
  from w1 [unfolded r] assms(2,3) obtain k1 d1 where
    ins: "insert_position E S p (sv_interfere S k1 d) = Ok ((), d1)" and d1: "st_tx (w_store w1) = Some d1"
    by (rule PositionRepository_Create_Ok)
  from d1 have "st_tx (w_store ?w2) = Some d1" by simp
  with rec assms(2) obtain k2 d2 where "insert_command S cmd (sv_interfere S k2 d1) = Ok ((), d2)"
    "st_tx (w_store v1) = Some d2"
    by (rule ProcessedCommandRepository_Create_Ok)
  with ins cmd show thesis by (intro that) (auto simp: NewProcessedCommand_def split: if_splits)
qed

lemma deposit_body_201:
  assumes "deposit_body E (wallet_deposit_service E S) ctx req w = (Success resp 201, w')"
  obtains clientID assetID amount unitPrice v where
    "validateDepositRequest E req = Ok (clientID, assetID, amount, unitPrice)" "reach S w v"
    "deposit_fresh E (wallet_deposit_service E S) ctx req clientID assetID amount unitPrice v
       = (Success resp 201, w')"
  using assms
  by (auto simp: deposit_body_def fail_with_def finish_replay_def deserializeSnapshot_def
      wallet_deposit_service_def NewDepositService_def wiring_simps
      split: res.splits prod.splits if_splits option.splits exec.splits dest: find_reach intro: that)

lemma deposit_commit_201:
  assumes "deposit_commit E (wallet_deposit_service E S) ctx req c p resp0 s v = (Success resp 201, w')"
  obtains v' where "resp = resp0" "w_store w' = w_store v'"
    "TransactionRunner_Do S ctx (deposit_tx E (wallet_deposit_service E S) req c p s) v = (Ok (), v')"
proof -
  let ?svc = "wallet_deposit_service E S"
  have uow: "uow_Do (ds_unitOfWork ?svc) = TransactionRunner_Do S"
    by (simp add: wallet_deposit_service_def NewDepositService_def wiring_simps)
  obtain r v' where do: "TransactionRunner_Do S ctx (deposit_tx E ?svc req c p s) v = (r, v')" by fastforce
  have race: "deposit_replayAfterRace E ?svc ctx k u \<noteq> (Success y 201, u')" for k u y u'
    by (auto simp: deposit_replayAfterRace_def deserializeSnapshot_def
        split: prod.splits res.splits option.splits)
  show thesis
    using assms do race
    by (cases r) (auto simp: deposit_commit_def uow fail_with_def finish_replay_def
        split: if_splits prod.splits exec.splits intro: that)
qed

lemma deposit_fresh_201:
  assumes "deposit_fresh E (wallet_deposit_service E S) ctx req c a amt pr w = (Success resp 201, w')"
  obtains u now t p v v' where "NewPosition (e_dec E) u now c a amt pr t = Ok p"
    "resp = position_to_dto E p" "reach S w v" "w_store w' = w_store v'"
    "TransactionRunner_Do S ctx (deposit_tx E (wallet_deposit_service E S) req c p
       (json_print (dto_json resp))) v = (Ok (), v')"
proof -
  let ?svc = "wallet_deposit_service E S"
  note svc = wallet_deposit_service_def NewDepositService_def wiring_simps
  obtain r1 w1 where w1: "ClientRepository_FindByID E S ctx c w = (r1, w1)" by fastforce
  obtain r2 w2 where w2: "AssetRepository_FindByID E S ctx a w1 = (r2, w2)" by fastforce
  have ports: "cr_FindByID (ds_clients ?svc) = ClientRepository_FindByID E S"
    "ar_FindByID (ds_assets ?svc) = AssetRepository_FindByID E S"
    by (simp_all add: svc)
  let ?p = "NewPosition (e_dec E) (e_uuidNew E (Suc (Suc (w_tick w2)))) (e_now E (Suc (w_tick w2))) c a amt pr
    (time_UTC (e_now E (w_tick w2)))" and ?w3 = "next_tick (next_tick (next_tick w2))"
  obtain p where p: "?p = Ok p" and cm: "deposit_commit E ?svc ctx req c p (position_to_dto E p)
      (json_print (dto_json (position_to_dto E p))) ?w3 = (Success resp 201, w')"
    using assms w1 w2
    by (auto simp: deposit_fresh_def ports fail_with_def time_Now_def uuid_New_def depositMarshalJSON_def
        toDepositResponse_def Let_def split: res.splits if_splits prod.splits)
  from cm obtain v' where v': "resp = position_to_dto E p" "w_store w' = w_store v'"
    "TransactionRunner_Do S ctx (deposit_tx E ?svc req c p (json_print (dto_json (position_to_dto E p)))) ?w3
       = (Ok (), v')" by (rule deposit_commit_201)
  have "reach S w ?w3"
    using reach_trans [OF find_reach(1) [OF w1] find_reach(2) [OF w2]]
    by (rule reach_trans) (simp add: reach_store)
  with p v' show thesis using that by simp
qed

lemma deposit_Execute_201:
  assumes run: "DepositService_Execute E (wallet_deposit_service E S) ctx req w = (Success resp 201, w')"
  obtains c a amt pr u now t p v k0 k1 d1 k2 d2 k3 cmd where
    "validateDepositRequest E req = Ok (c, a, amt, pr)"
    "NewPosition (e_dec E) u now c a amt pr t = Ok p" "resp = position_to_dto E p" "reach S w v"
    "insert_position E S p (sv_interfere S k1 (sv_interfere S k0 (committed v))) = Ok ((), d1)"
    "insert_command S cmd (sv_interfere S k2 d1) = Ok ((), d2)"
    "committed w' = sv_interfere S k3 d2" "st_tx (w_store w') = None"
    "pc_commandType cmd = commandTypeDeposit" "pc_orderID cmd = dr_OrderID req"
    "pc_clientID cmd = c" "pc_responseSnapshot cmd = json_print (dto_json resp)"
proof -
  let ?svc = "wallet_deposit_service E S"
  let ?w0 = "emit [SpanStart depositSpan, SpanAttr depositSpan ''wallet.order_id'' (dr_OrderID req)] w"
  obtain w1 where body: "deposit_body E ?svc ctx req ?w0 = (Success resp 201, w1)"
    and w1: "w_store w' = w_store w1"
    using run by (auto simp: DepositService_Execute_def split: prod.splits)
  from body obtain c a amt pr v where val: "validateDepositRequest E req = Ok (c, a, amt, pr)"
    and v: "reach S ?w0 v" and fresh: "deposit_fresh E ?svc ctx req c a amt pr v = (Success resp 201, w1)"
    by (rule deposit_body_201)
  from fresh obtain u now t p v2 v3 where p: "NewPosition (e_dec E) u now c a amt pr t = Ok p"
    "resp = position_to_dto E p" "reach S v v2" "w_store w1 = w_store v3" and
    do: "TransactionRunner_Do S ctx (deposit_tx E ?svc req c p (json_print (dto_json resp))) v2 = (Ok (), v3)"
    by (rule deposit_fresh_201)
  from do show thesis
  proof (rule Do_Ok)
    fix k x x1 k'
    assume x: "w_store x = \<lparr>st_db = sv_interfere S k (st_db (w_store v2)),
        st_tx = Some (sv_interfere S k (st_db (w_store v2)))\<rparr>"
      and tx: "deposit_tx E ?svc req c p (json_print (dto_json resp)) (ctx\<lparr>ctx_tx := True\<rparr>) x = (Ok (), x1)"
      and cm: "\<forall>d. st_tx (w_store x1) = Some d \<longrightarrow>
        st_db (w_store v3) = sv_interfere S k' d \<and> st_tx (w_store v3) = None"
    have r: "reach S w v2" using reach_store [of ?w0 w] v p(3) by (simp add: reach_def)
    have "ctx_tx (ctx\<lparr>ctx_tx := True\<rparr>)" "st_tx (w_store x) = Some (sv_interfere S k (committed v2))"
      by (simp_all add: x committed_def)
    with tx obtain k1 d1 k2 d2 cmd where
      "insert_position E S p (sv_interfere S k1 (sv_interfere S k (committed v2))) = Ok ((), d1)"
      "insert_command S cmd (sv_interfere S k2 d1) = Ok ((), d2)" "st_tx (w_store x1) = Some d2"
      "pc_commandType cmd = commandTypeDeposit" "pc_orderID cmd = dr_OrderID req"
      "pc_clientID cmd = c" "pc_responseSnapshot cmd = json_print (dto_json resp)"
      by (rule deposit_tx_Ok)
    then show thesis
      using that [OF val p(1,2) r, of k1 k d1 cmd k2 d2 k'] cm w1 p(4) by (simp add: committed_def)
  qed
qed

subsection \<open>A command that is already recorded\<close>

lemma select_command_extends:
  assumes "extends_db d d'" "select_command t k d = Ok r"
  shows "select_command t k d' = Ok r"
proof -
  obtain ks where "db_commands d' = db_commands d @ ks"
    using assms(1) by (auto simp: extends_db_def prefix_def)
  with assms(2) show ?thesis
    by (auto simp: select_command_def split: list.splits)
qed

lemma select_inserted_command:
  assumes "insert_command S cmd d = Ok ((), d')"
  obtains r where "select_command (pc_commandType cmd) (pc_orderID cmd) d' = Ok r"
    "sv_jsonb S (pc_responseSnapshot cmd) = Some (k_response_snapshot r)" "k_client_id r = pc_clientID cmd"
proof -
  let ?hit = "\<lambda>r. k_command_type r = pc_commandType cmd \<and> k_order_id r = pc_orderID cmd"
  from assms obtain t where t: "sv_jsonb S (pc_responseSnapshot cmd) = Some t"
    "(pc_commandType cmd, pc_orderID cmd) \<notin> (\<lambda>r. (k_command_type r, k_order_id r)) ` set (db_commands d)"
    "d' = d\<lparr>db_commands := db_commands d @
         [\<lparr>k_command_id = pc_commandID cmd, k_command_type = pc_commandType cmd,
           k_order_id = pc_orderID cmd, k_client_id = pc_clientID cmd, k_response_snapshot = t,
           k_created_at = sv_timestamptz S (pc_createdAt cmd)\<rparr>]\<rparr>"
    unfolding insert_command_Ok_iff by blast
  then have "filter ?hit (db_commands d) = []" by (force simp: filter_empty_conv)
  with t show thesis by (intro that) (auto simp: select_command_def)
qed

lemma FindByTypeAndOrderID_hit:
  assumes "sv_fault S (w_tick w) = None" "\<not> ctx_tx ctx"
    "select_command t k (sv_interfere S (w_tick w) (committed w)) = Ok r"
  obtains v cmd where "ProcessedCommandRepository_FindByTypeAndOrderID S ctx t k w = (Ok cmd, v)"
    "pc_responseSnapshot cmd = k_response_snapshot r"
    "committed v = sv_interfere S (w_tick w) (committed w)"
  using assms
  by (auto simp: ProcessedCommandRepository_FindByTypeAndOrderID_def pg_query_def pg_call_def Let_def
      startDBSpan_def executorFromContext_def endDBSpan_def committed_def ReconstructProcessedCommand_def
      intro: that)

lemma finish_replay_eq: "finish_replay sp r w = (x, v) \<Longrightarrow> x = r \<and> committed v = committed w"
  by (auto simp: finish_replay_def committed_def split: exec.splits)

lemma deposit_hit:
  assumes "validateDepositRequest E req = Ok y" "sv_fault S (w_tick w) = None" "\<not> ctx_tx ctx"
    "select_command commandTypeDeposit (dr_OrderID req) (sv_interfere S (w_tick w) (committed w)) = Ok r"
    "DepositService_Execute E (wallet_deposit_service E S) ctx req w = (x, w')"
  shows "x = deserializeSnapshot E (k_response_snapshot r)"
    and "committed w' = sv_interfere S (w_tick w) (committed w)"
proof -
  let ?w0 = "emit [SpanStart depositSpan, SpanAttr depositSpan ''wallet.order_id'' (dr_OrderID req)] w"
  have "sv_fault S (w_tick ?w0) = None"
    "select_command commandTypeDeposit (dr_OrderID req) (sv_interfere S (w_tick ?w0) (committed ?w0)) = Ok r"
    using assms(2,4) by simp_all
  with assms(3) obtain v cmd where
    "ProcessedCommandRepository_FindByTypeAndOrderID S ctx commandTypeDeposit (dr_OrderID req) ?w0 = (Ok cmd, v)"
    "pc_responseSnapshot cmd = k_response_snapshot r" "committed v = sv_interfere S (w_tick ?w0) (committed ?w0)"
    by (elim FindByTypeAndOrderID_hit)
  with assms(1,5) show "x = deserializeSnapshot E (k_response_snapshot r)"
    "committed w' = sv_interfere S (w_tick w) (committed w)"
    by (auto simp: DepositService_Execute_def deposit_body_def wallet_deposit_service_def
        NewDepositService_def wiring_simps split: prod.splits dest!: finish_replay_eq)
qed

lemma withdraw_hit:
  assumes "validateWithdrawRequest E req = Ok y" "sv_fault S (w_tick w) = None" "\<not> ctx_tx ctx"
    "select_command commandTypeWithdraw (wq_OrderID req) (sv_interfere S (w_tick w) (committed w)) = Ok r"
    "WithdrawService_Execute E (wallet_withdraw_service E S) ctx req w = (x, w')"
  shows "x = deserializeWithdrawSnapshot E (k_response_snapshot r)"
    and "committed w' = sv_interfere S (w_tick w) (committed w)"
proof -
  let ?w0 = "emit [SpanStart withdrawSpan, SpanAttr withdrawSpan ''wallet.order_id'' (wq_OrderID req)] w"
  have "sv_fault S (w_tick ?w0) = None"
    "select_command commandTypeWithdraw (wq_OrderID req) (sv_interfere S (w_tick ?w0) (committed ?w0)) = Ok r"
    using assms(2,4) by simp_all
  with assms(3) obtain v cmd where
    "ProcessedCommandRepository_FindByTypeAndOrderID S ctx commandTypeWithdraw (wq_OrderID req) ?w0 = (Ok cmd, v)"
    "pc_responseSnapshot cmd = k_response_snapshot r" "committed v = sv_interfere S (w_tick ?w0) (committed ?w0)"
    by (elim FindByTypeAndOrderID_hit)
  with assms(1,5) show "x = deserializeWithdrawSnapshot E (k_response_snapshot r)"
    "committed w' = sv_interfere S (w_tick w) (committed w)"
    by (auto simp: WithdrawService_Execute_def withdraw_body_def wallet_withdraw_service_def
        NewWithdrawService_def wiring_simps split: prod.splits dest!: finish_replay_eq)
qed

lemma deposit_recorded:
  assumes "DepositService_Execute E (wallet_deposit_service E S) ctx req w = (Success resp 201, w')" "growing S"
  obtains r p where "select_command commandTypeDeposit (dr_OrderID req) (committed w') = Ok r"
    "sv_jsonb S (json_print (dto_json resp)) = Some (k_response_snapshot r)" "resp = position_to_dto E p"
  using assms(1)
proof (rule deposit_Execute_201)
  fix p cmd d1 d2 k2 k3
  assume ins: "insert_command S cmd (sv_interfere S k2 d1) = Ok ((), d2)"
    and cmd: "pc_commandType cmd = commandTypeDeposit" "pc_orderID cmd = dr_OrderID req"
      "pc_responseSnapshot cmd = json_print (dto_json resp)"
    and fin: "committed w' = sv_interfere S k3 d2" and p: "resp = position_to_dto E p"
  from ins obtain r where r: "select_command (pc_commandType cmd) (pc_orderID cmd) d2 = Ok r"
    "sv_jsonb S (pc_responseSnapshot cmd) = Some (k_response_snapshot r)"
    by (rule select_inserted_command)
  have "extends_db d2 (committed w')" using assms(2) fin by (simp add: growing_def)
  from select_command_extends [OF this r(1)] r(2) p show thesis
    by (intro that) (simp_all add: cmd)
qed

definition recorded :: "string \<Rightarrow> string \<Rightarrow> (string \<Rightarrow> 'r exec) \<Rightarrow> 'r \<Rightarrow> pg_store world \<Rightarrow> bool" where
  "recorded t k load resp w \<longleftrightarrow>
     (\<exists>r. select_command t k (committed w) = Ok r \<and> load (k_response_snapshot r) = Success resp 200)"

lemma recorded_emit [simp]: "recorded t k load resp (emit es w) = recorded t k load resp w"
  by (simp add: recorded_def)

lemma finish_replay_not_Success [simp]:
  "finish_replay sp (Failure st e) w \<noteq> (Success r s, v)" "finish_replay sp (Crashed m) w \<noteq> (Success r s, v)"
  by (simp_all add: finish_replay_def)

lemma FindByTypeAndOrderID_Ok:
  assumes "ProcessedCommandRepository_FindByTypeAndOrderID S ctx t k w = (Ok cmd, v)" "\<not> ctx_tx ctx"
  shows "\<exists>r. select_command t k (committed v) = Ok r \<and> pc_responseSnapshot cmd = k_response_snapshot r"
  using assms
  by (auto simp: ProcessedCommandRepository_FindByTypeAndOrderID_def pg_query_def executorFromContext_def
      endDBSpan_def committed_def ReconstructProcessedCommand_def
      split: prod.splits option.splits res.splits if_splits)

lemma finish_replay_recorded:
  assumes "finish_replay sp (load (pc_responseSnapshot cmd)) (emit es v) = (Success resp s, w')"
    "ProcessedCommandRepository_FindByTypeAndOrderID S ctx t k w = (Ok cmd, v)" "\<not> ctx_tx ctx"
    "\<And>x y n. load x = Success y n \<Longrightarrow> n = 200"
  shows "recorded t k load resp w'"
proof -
  have "load (pc_responseSnapshot cmd) = Success resp s" "committed w' = committed v"
    using finish_replay_eq [OF assms(1)] by simp_all
  with FindByTypeAndOrderID_Ok [OF assms(2,3)] assms(4) show ?thesis
    unfolding recorded_def by force
qed

lemma load_status:
  "deserializeSnapshot E x = Success y n \<Longrightarrow> n = 200"
  "deserializeWithdrawSnapshot E x = Success z n \<Longrightarrow> n = 200"
  by (auto simp: deserializeSnapshot_def deserializeWithdrawSnapshot_def split: option.splits)

lemma deposit_replay_recorded:
  assumes run: "DepositService_Execute E (wallet_deposit_service E S) ctx req w = (Success resp 200, w')"
    and tx: "\<not> ctx_tx ctx"
  shows "recorded commandTypeDeposit (dr_OrderID req) (deserializeSnapshot E) resp w'"
proof -
  let ?svc = "wallet_deposit_service E S"
  let ?rec = "recorded commandTypeDeposit (dr_OrderID req) (deserializeSnapshot E) resp"
  have find: "pcr_FindByTypeAndOrderID (ds_processedCommands ?svc) = ProcessedCommandRepository_FindByTypeAndOrderID S"
    by (simp add: wallet_deposit_service_def NewDepositService_def wiring_simps)
  note replayed = finish_replay_recorded [where load = "deserializeSnapshot E", OF _ _ tx load_status(1)]
  have commit: "?rec v'" if "deposit_commit E ?svc ctx req c p r0 s v = (Success resp 200, v')" for c p r0 s v v'
    using that
    by (auto simp: deposit_commit_def deposit_replayAfterRace_def find fail_with_def finish_replay_def
        split: prod.splits res.splits if_splits exec.splits
        intro!: replayed [where sp = depositSpan])
  have fresh: "?rec v'" if "deposit_fresh E ?svc ctx req c a amt pr v = (Success resp 200, v')" for c a amt pr v v'
    using that
    by (auto simp: deposit_fresh_def fail_with_def Let_def depositMarshalJSON_def
        split: prod.splits res.splits if_splits dest!: commit)
  have body: "?rec v'" if "deposit_body E ?svc ctx req v = (Success resp 200, v')" for v v'
    using that
    by (auto simp: deposit_body_def fail_with_def find split: prod.splits res.splits if_splits
        dest: fresh replayed)
  show ?thesis
    using run body by (auto simp: DepositService_Execute_def split: prod.splits)
qed

subsection \<open>A withdrawal that succeeds\<close>

lemma record_withdrawal_Ok:
  assumes "record_withdrawal E (wallet_withdraw_service E S) req c af ctx w = (Ok resp, v)"
  obtains cmd where "resp = toWithdrawResponse E af"
    "ProcessedCommandRepository_Create E S ctx cmd (next_tick (next_tick w)) = (Ok (), v)"
    "pc_commandType cmd = commandTypeWithdraw" "pc_orderID cmd = wq_OrderID req" "pc_clientID cmd = c"
    "pc_responseSnapshot cmd = json_print (withdraw_response_json resp)"
  using assms
  by (auto simp: record_withdrawal_def wallet_withdraw_service_def NewWithdrawService_def wiring_simps
      withdrawMarshalJSON_def uuid_New_def time_Now_def NewProcessedCommand_def Let_def
      split: res.splits prod.splits if_splits intro: that)

lemma withdraw_tx_Ok:
  assumes "withdraw_tx E (wallet_withdraw_service E S) req c x ctx v = (Ok resp, v1)"
  obtains ps w1 eligible total affected rem w2 w3 where
    "PositionRepository_FindByClientAndInstrument E S ctx c (wq_InstrumentID req) v = (Ok ps, w1)"
    "select_eligible (e_dec E) ps [] (d_Zero (e_dec E)) = (eligible, total)"
    "\<not> d_LessThan (e_dec E) total x"
    "consume_lots E eligible x [] w1 = (Ok (affected, rem), w2)"
    "update_lots (wallet_withdraw_service E S) ctx affected w2 = (Ok (), w3)"
    "record_withdrawal E (wallet_withdraw_service E S) req c affected ctx w3 = (Ok resp, v1)"
proof -
  have find: "pr_FindByClientAndInstrument (ws_positions (wallet_withdraw_service E S)) =
      PositionRepository_FindByClientAndInstrument E S"
    by (simp add: wallet_withdraw_service_def NewWithdrawService_def wiring_simps)
  show thesis
    using assms
    by (auto simp: withdraw_tx_def find split: res.splits prod.splits if_splits intro: that)
qed

lemma withdraw_commit_Ok:
  assumes "withdraw_commit E (wallet_withdraw_service E S) ctx req c x v = (Success resp s, w')" "\<not> ctx_tx ctx"
  obtains v' where "w_store w' = w_store v'"
    "TransactionRunner_Do S ctx (withdraw_tx E (wallet_withdraw_service E S) req c x) v = (Ok resp, v')"
  | "recorded commandTypeWithdraw (wq_OrderID req) (deserializeWithdrawSnapshot E) resp w'"
proof -
  let ?svc = "wallet_withdraw_service E S"
  have ports: "uow_Do (ws_unitOfWork ?svc) = TransactionRunner_Do S"
    "pcr_FindByTypeAndOrderID (ws_processedCommands ?svc) = ProcessedCommandRepository_FindByTypeAndOrderID S"
    by (simp_all add: wallet_withdraw_service_def NewWithdrawService_def wiring_simps)
  note replayed = finish_replay_recorded
    [where load = "deserializeWithdrawSnapshot E" and sp = withdrawSpan, OF _ _ assms(2) load_status(2)]
  obtain r v' where do: "TransactionRunner_Do S ctx (withdraw_tx E ?svc req c x) v = (r, v')" by fastforce
  show thesis
  proof (cases r)
    case (Ok y)
    with assms(1) do show thesis by (intro that(1)) (auto simp: withdraw_commit_def ports)
  next
    case (Err e)
    with assms(1) do show thesis
      by (intro that(2)) (auto simp: withdraw_commit_def withdraw_replayAfterRace_def ports fail_with_def
          split: prod.splits res.splits if_splits dest: replayed)
  qed (use assms(1) do in \<open>simp add: withdraw_commit_def ports\<close>)
qed

lemma withdraw_Execute_Ok:
  assumes "WithdrawService_Execute E (wallet_withdraw_service E S) ctx req w = (Success resp s, w')" "\<not> ctx_tx ctx"
  obtains c x v v' where "validateWithdrawRequest E req = Ok (c, x)" "reach S w v" "w_store w' = w_store v'"
    "TransactionRunner_Do S ctx (withdraw_tx E (wallet_withdraw_service E S) req c x) v = (Ok resp, v')"
  | "recorded commandTypeWithdraw (wq_OrderID req) (deserializeWithdrawSnapshot E) resp w'"
proof -
  let ?svc = "wallet_withdraw_service E S"
  let ?w0 = "emit [SpanStart withdrawSpan, SpanAttr withdrawSpan ''wallet.order_id'' (wq_OrderID req)] w"
  have ports: "cr_FindByID (ws_clients ?svc) = ClientRepository_FindByID E S"
    "pcr_FindByTypeAndOrderID (ws_processedCommands ?svc) = ProcessedCommandRepository_FindByTypeAndOrderID S"
    by (simp_all add: wallet_withdraw_service_def NewWithdrawService_def wiring_simps)
  obtain w1 where body: "withdraw_body E ?svc ctx req ?w0 = (Success resp s, w1)" and w1: "w_store w' = w_store w1"
    using assms(1) by (auto simp: WithdrawService_Execute_def split: prod.splits)
  have rec: "recorded t k load resp w1 \<Longrightarrow> recorded t k load resp w'" for t k and load :: "string \<Rightarrow> withdraw_response exec"
    using w1 by (simp add: recorded_def committed_def)
  note replayed = finish_replay_recorded
    [where load = "deserializeWithdrawSnapshot E", OF _ _ assms(2) load_status(2)]
  consider (hit) "recorded commandTypeWithdraw (wq_OrderID req) (deserializeWithdrawSnapshot E) resp w1"
    | (fresh) c x v where "validateWithdrawRequest E req = Ok (c, x)" "reach S ?w0 v"
      "withdraw_commit E ?svc ctx req c x v = (Success resp s, w1)"
    using body
    by (auto simp: withdraw_body_def withdraw_fresh_def ports fail_with_def
        split: prod.splits res.splits if_splits dest: replayed intro: reach_trans [OF find_reach(3) find_reach(1)])
  then show thesis
  proof cases
    case hit
    then show thesis using rec that(2) by blast
  next
    case (fresh c x v)
    have "reach S w v" using reach_store [of ?w0 w] fresh(2) by (simp add: reach_def)
    from fresh(3) assms(2) show thesis
      by (cases rule: withdraw_commit_Ok) (use fresh(1) \<open>reach S w v\<close> w1 rec that in auto)
  qed
qed

text \<open>The updates of the affected lots, one statement after the other.\<close>

inductive updates :: "'d env \<Rightarrow> pg_server \<Rightarrow> db \<Rightarrow> 'd position list \<Rightarrow> db \<Rightarrow> bool" for E S where
  updates_Nil: "updates E S d [] d"
| updates_Cons: "update_position E S p (sv_interfere S k d) = Ok (n, d1) \<Longrightarrow> 0 < n \<Longrightarrow>
    updates E S d1 ps d2 \<Longrightarrow> updates E S d (p # ps) d2"

inductive_simps updates_simps: "updates E S d [] d'" "updates E S d (p # ps) d'"

lemma update_lots_Ok:
  assumes "update_lots (wallet_withdraw_service E S) ctx lots w = (Ok (), v)" "ctx_tx ctx"
    "st_tx (w_store w) = Some d"
  shows "\<exists>d'. updates E S d lots d' \<and> st_tx (w_store v) = Some d'"
  using assms
proof (induction lots arbitrary: w d)
  case Nil
  then show ?case by (auto intro: updates_Nil)
next
  case (Cons p ps)
  have upd: "pr_Update (ws_positions (wallet_withdraw_service E S)) = PositionRepository_Update E S"
    by (simp add: wallet_withdraw_service_def NewWithdrawService_def wiring_simps)
  obtain r w1 where w1: "PositionRepository_Update E S ctx p w = (r, w1)" by fastforce
  with Cons.prems(1) have r: "r = Ok ()" and rest: "update_lots (wallet_withdraw_service E S) ctx ps w1 = (Ok (), v)"
    by (auto simp: upd split: res.splits)
  from w1 [unfolded r] Cons.prems(2,3) obtain k n d1 where
    "update_position E S p (sv_interfere S k d) = Ok (n, d1)" "0 < n" "st_tx (w_store w1) = Some d1"
    by (rule PositionRepository_Update_Ok)
  with Cons.IH [OF rest Cons.prems(2)] show ?case by (blast intro: updates_Cons)
qed

lemma consume_lots_store: "consume_lots E lots rem aff w = (r, v) \<Longrightarrow> w_store v = w_store w"
proof (induction lots arbitrary: rem aff w)
  case (Cons p ps)
  then show ?case
    by (auto simp: time_Now_def Let_def split: if_splits option.splits res.splits)
qed simp

lemma collectPositions_Ok_None: "collectPositions E S rows err = Ok ps \<Longrightarrow> err = None"
  by (induction rows arbitrary: ps) (auto split: option.splits res.splits)

lemma fetch_rows_None: "fetch_rows S k rows = (rs, None) \<Longrightarrow> rs = rows"
  by (auto simp: fetch_rows_def split: option.splits prod.splits)

lemma find_lots_Ok:
  assumes "PositionRepository_FindByClientAndInstrument E S ctx c i w = (Ok ps, v)" "ctx_tx ctx"
    "st_tx (w_store w) = Some d"
  obtains k where "collectPositions E S (select_lots c i (sv_interfere S k d)) None = Ok ps"
    "st_tx (w_store v) = Some (sv_interfere S k d)"
proof -
  let ?rows = "select_lots c i (sv_interfere S (w_tick w) d)"
  obtain rs err where f: "fetch_rows S (w_tick w) ?rows = (rs, err)" by fastforce
  have "collectPositions E S rs err = Ok ps" "st_tx (w_store v) = Some (sv_interfere S (w_tick w) d)"
    using assms f
    by (auto simp: PositionRepository_FindByClientAndInstrument_def pg_query_def pg_call_def Let_def
        executorFromContext_def startDBSpan_def dest!: endDBSpan_eq
        split: prod.splits option.splits res.splits)
  moreover from this(1) have "err = None" by (rule collectPositions_Ok_None)
  ultimately show thesis using f fetch_rows_None that by blast
qed

lemma withdraw_Do_Ok:
  assumes "TransactionRunner_Do S ctx (withdraw_tx E (wallet_withdraw_service E S) req c x) v = (Ok resp, v')"
  obtains k0 k1 ps eligible total affected rem d1 k2 d2 k3 cmd and wc wc' :: "pg_store world" where
    "collectPositions E S (select_lots c (wq_InstrumentID req)
       (sv_interfere S k1 (sv_interfere S k0 (committed v)))) None = Ok ps"
    "select_eligible (e_dec E) ps [] (d_Zero (e_dec E)) = (eligible, total)"
    "\<not> d_LessThan (e_dec E) total x"
    "consume_lots E eligible x [] wc = (Ok (affected, rem), wc')"
    "updates E S (sv_interfere S k1 (sv_interfere S k0 (committed v))) affected d1"
    "insert_command S cmd (sv_interfere S k2 d1) = Ok ((), d2)"
    "committed v' = sv_interfere S k3 d2" "st_tx (w_store v') = None" "resp = toWithdrawResponse E affected"
    "pc_commandType cmd = commandTypeWithdraw" "pc_orderID cmd = wq_OrderID req" "pc_clientID cmd = c"
    "pc_responseSnapshot cmd = json_print (withdraw_response_json resp)"
  using assms
proof (rule Do_Ok)
  let ?svc = "wallet_withdraw_service E S" and ?ctx = "ctx\<lparr>ctx_tx := True\<rparr>"
  fix k0 y y1 k3
  assume y: "w_store y = \<lparr>st_db = sv_interfere S k0 (st_db (w_store v)),
        st_tx = Some (sv_interfere S k0 (st_db (w_store v)))\<rparr>"
    and tx: "withdraw_tx E ?svc req c x ?ctx y = (Ok resp, y1)"
    and cm: "\<forall>d. st_tx (w_store y1) = Some d \<longrightarrow>
        st_db (w_store v') = sv_interfere S k3 d \<and> st_tx (w_store v') = None"
  have ctx: "ctx_tx ?ctx" and y0: "st_tx (w_store y) = Some (sv_interfere S k0 (committed v))"
    by (simp_all add: y committed_def)
  from tx obtain ps w1 el tot af rem w2 w3 where
    find: "PositionRepository_FindByClientAndInstrument E S ?ctx c (wq_InstrumentID req) y = (Ok ps, w1)"
    and sel: "select_eligible (e_dec E) ps [] (d_Zero (e_dec E)) = (el, tot)" "\<not> d_LessThan (e_dec E) tot x"
    and con: "consume_lots E el x [] w1 = (Ok (af, rem), w2)"
    and upd: "update_lots ?svc ?ctx af w2 = (Ok (), w3)"
    and rec: "record_withdrawal E ?svc req c af ?ctx w3 = (Ok resp, y1)"
    by (rule withdraw_tx_Ok)
  from find ctx y0 obtain k1 where ps: "collectPositions E S (select_lots c (wq_InstrumentID req)
       (sv_interfere S k1 (sv_interfere S k0 (committed v)))) None = Ok ps"
    and w1: "st_tx (w_store w1) = Some (sv_interfere S k1 (sv_interfere S k0 (committed v)))"
    by (rule find_lots_Ok)
  from w1 have "st_tx (w_store w2) = Some (sv_interfere S k1 (sv_interfere S k0 (committed v)))"
    using consume_lots_store [OF con] by simp
  from update_lots_Ok [OF upd ctx this] obtain d1 where
    d1: "updates E S (sv_interfere S k1 (sv_interfere S k0 (committed v))) af d1" "st_tx (w_store w3) = Some d1"
    by blast
  from rec obtain cmd where resp: "resp = toWithdrawResponse E af"
    and cr: "ProcessedCommandRepository_Create E S ?ctx cmd (next_tick (next_tick w3)) = (Ok (), y1)"
    and cmd: "pc_commandType cmd = commandTypeWithdraw" "pc_orderID cmd = wq_OrderID req" "pc_clientID cmd = c"
    "pc_responseSnapshot cmd = json_print (withdraw_response_json resp)"
    by (rule record_withdrawal_Ok)
  have "st_tx (w_store (next_tick (next_tick w3))) = Some d1" using d1(2) by simp
  with cr ctx obtain k2 d2 where d2: "insert_command S cmd (sv_interfere S k2 d1) = Ok ((), d2)"
    "st_tx (w_store y1) = Some d2" by (rule ProcessedCommandRepository_Create_Ok)
  show thesis
    using that [OF ps sel con d1(1) d2(1) _ _ resp cmd] cm d2(2) by (simp add: committed_def)
qed

lemma withdraw_recorded:
  assumes "WithdrawService_Execute E (wallet_withdraw_service E S) ctx req w = (Success resp s, w')"
    "\<not> ctx_tx ctx" "growing S"
    and load: "\<And>ps t. sv_jsonb S (json_print (withdraw_response_json (toWithdrawResponse E ps))) = Some t \<Longrightarrow>
      deserializeWithdrawSnapshot E t = Success (toWithdrawResponse E ps) 200"
  shows "recorded commandTypeWithdraw (wq_OrderID req) (deserializeWithdrawSnapshot E) resp w'"
  using assms(1,2)
proof (rule withdraw_Execute_Ok)
  fix c x v v'
  assume w': "w_store w' = w_store v'"
    and "TransactionRunner_Do S ctx (withdraw_tx E (wallet_withdraw_service E S) req c x) v = (Ok resp, v')"
  from this(2) show ?thesis
  proof (rule withdraw_Do_Ok)
    fix cmd d1 d2 k2 k3 and affected :: "'a position list"
    assume ins: "insert_command S cmd (sv_interfere S k2 d1) = Ok ((), d2)"
      and cmd: "pc_commandType cmd = commandTypeWithdraw" "pc_orderID cmd = wq_OrderID req"
        "pc_responseSnapshot cmd = json_print (withdraw_response_json resp)"
      and fin: "committed v' = sv_interfere S k3 d2" and resp: "resp = toWithdrawResponse E affected"
    from ins obtain r where r: "select_command (pc_commandType cmd) (pc_orderID cmd) d2 = Ok r"
      "sv_jsonb S (pc_responseSnapshot cmd) = Some (k_response_snapshot r)"
      by (rule select_inserted_command)
    have "extends_db d2 (committed w')" using assms(3) fin w' by (simp add: growing_def committed_def)
    from select_command_extends [OF this r(1)] r(2) load show ?thesis
      by (auto simp: recorded_def cmd resp)
  qed
qed

end
