(* ===== verification/Liveness.thy ===== *)
theory Liveness
  imports Effects
begin

text \<open>
  When commands succeed.  On a server without faults and interference (\<open>quiet\<close>) every
  operation runs through; \<open>pg_text\<close> states how decimals and \<open>NUMERIC\<close> columns exchange texts.
  A deposit of a fresh order whose values fit the columns is then answered 201; a withdrawal
  over stored lots whose prices leave the product of an amount and a price on the grid of
  \<open>total_value\<close> is answered 200.
\<close>

subsection \<open>A quiet server\<close>

definition quiet :: "pg_server \<Rightarrow> bool" where
  "quiet S \<longleftrightarrow> (\<forall>k. sv_fault S k = None \<and> sv_stream S k = None) \<and> (\<forall>k d. sv_interfere S k d = d)"

lemma quiet_growing: "quiet S \<Longrightarrow> growing S"
  by (simp add: quiet_def growing_def extends_db_refl)

lemma quiet_call: "quiet S \<Longrightarrow> pg_call S w = (None, next_tick w)"
  by (cases "st_tx (w_store w)") (simp_all add: quiet_def pg_call_def next_tick_def Let_def)

lemma quiet_query:
  "quiet S \<Longrightarrow> pg_query S ctx q w = (q (executorFromContext ctx (w_store w)), next_tick w)"
  by (simp add: pg_query_def quiet_call)

lemma quiet_exec:
  "quiet S \<Longrightarrow> pg_exec S ctx x w =
     (case x (executorFromContext ctx (w_store w)) of
        Ok (a, d) \<Rightarrow> (Ok a, write_through ctx d (next_tick w))
      | Err e \<Rightarrow> (Err e, next_tick w)
      | Panicked m \<Rightarrow> (Panicked m, next_tick w))"
  by (simp add: pg_exec_def quiet_call)

text \<open>The four reads and three writes of the services on a quiet server.\<close>

lemma quiet_client:
  "quiet S \<Longrightarrow> select_client c (executorFromContext ctx (w_store w)) = Ok r \<Longrightarrow>
     \<exists>v x. ClientRepository_FindByID E S ctx c w = (Ok x, v) \<and> w_store v = w_store w"
  by (simp add: ClientRepository_FindByID_def quiet_query endDBSpan_def)

lemma quiet_asset:
  "quiet S \<Longrightarrow> select_asset (\<lambda>r. a_asset_id r = a) (executorFromContext ctx (w_store w)) = Ok r \<Longrightarrow>
     \<exists>v x. AssetRepository_FindByID E S ctx a w = (Ok x, v) \<and> w_store v = w_store w \<and>
       as_productType x = a_product_type r"
  by (simp add: AssetRepository_FindByID_def quiet_query scanAsset_def endDBSpan_def ReconstructAsset_def)

lemma quiet_no_command:
  "quiet S \<Longrightarrow> select_command t k (executorFromContext ctx (w_store w)) = Err ErrNoRows \<Longrightarrow>
     \<exists>v e. ProcessedCommandRepository_FindByTypeAndOrderID S ctx t k w = (Err e, v) \<and>
       errors_Is e ErrNotFound \<and> w_store v = w_store w"
  by (simp add: ProcessedCommandRepository_FindByTypeAndOrderID_def quiet_query endDBSpan_def)

lemma quiet_lots:
  "quiet S \<Longrightarrow> collectPositions E S (select_lots c i (executorFromContext ctx (w_store w))) None = Ok ps \<Longrightarrow>
     \<exists>v. PositionRepository_FindByClientAndInstrument E S ctx c i w = (Ok ps, v) \<and> w_store v = w_store w"
  using quiet_def [of S]
  by (simp add: PositionRepository_FindByClientAndInstrument_def quiet_query endDBSpan_def fetch_rows_def)

lemma quiet_create:
  "quiet S \<Longrightarrow> ctx_tx ctx \<Longrightarrow> st_tx (w_store w) = Some d \<Longrightarrow> insert_position E S p d = Ok ((), d') \<Longrightarrow>
     \<exists>v. PositionRepository_Create E S ctx p w = (Ok (), v) \<and> w_store v = (w_store w)\<lparr>st_tx := Some d'\<rparr>"
  by (simp add: PositionRepository_Create_def quiet_exec executorFromContext_def endDBSpan_def write_through_def)

lemma quiet_update:
  "quiet S \<Longrightarrow> ctx_tx ctx \<Longrightarrow> st_tx (w_store w) = Some d \<Longrightarrow> update_position E S p d = Ok (n, d') \<Longrightarrow> 0 < n \<Longrightarrow>
     \<exists>v. PositionRepository_Update E S ctx p w = (Ok (), v) \<and> w_store v = (w_store w)\<lparr>st_tx := Some d'\<rparr>"
  by (simp add: PositionRepository_Update_def quiet_exec executorFromContext_def endDBSpan_def write_through_def)

lemma quiet_record:
  "quiet S \<Longrightarrow> ctx_tx ctx \<Longrightarrow> st_tx (w_store w) = Some d \<Longrightarrow> insert_command S cmd d = Ok ((), d') \<Longrightarrow>
     \<exists>v. ProcessedCommandRepository_Create E S ctx cmd w = (Ok (), v) \<and> w_store v = (w_store w)\<lparr>st_tx := Some d'\<rparr>"
  by (simp add: ProcessedCommandRepository_Create_def quiet_exec executorFromContext_def endDBSpan_def
      write_through_def)

lemma quiet_Do:
  assumes "quiet S"
    and "\<And>v. w_store v = \<lparr>st_db = st_db (w_store w), st_tx = Some (st_db (w_store w))\<rparr> \<Longrightarrow>
      \<exists>y v' d. fn (ctx\<lparr>ctx_tx := True\<rparr>) v = (Ok y, v') \<and> st_tx (w_store v') = Some d"
  shows "\<exists>x v'. TransactionRunner_Do S ctx fn w = (Ok x, v')"
proof -
  let ?v = "set_tx (Some (st_db (w_store w))) (next_tick (startDBSpan ''db.transaction'' ''TRANSACTION'' w))"
  obtain y v' d where "fn (ctx\<lparr>ctx_tx := True\<rparr>) ?v = (Ok y, v')" "st_tx (w_store v') = Some d"
    using assms(2) [of ?v] by (auto simp: set_tx_def)
  then show ?thesis
    by (simp add: TransactionRunner_Do_def quiet_call [OF assms(1)] tx_Commit_def endDBSpan_def)
qed

subsection \<open>Values that fit their columns\<close>

definition fits :: "('d \<Rightarrow> rat) \<Rightarrow> 'd position \<Rightarrow> bool" where
  "fits val p \<longleftrightarrow> position_inv val p \<and>
     on_grid 6 (val (pos_amount p)) \<and> val (pos_amount p) < 10 ^ 12 \<and>
     on_grid 8 (val (pos_unitPrice p)) \<and> val (pos_unitPrice p) < 10 ^ 12 \<and>
     on_grid 8 (val (pos_totalValue p)) \<and> val (pos_totalValue p) < 10 ^ 12 \<and>
     on_grid 8 (val (pos_collateralValue p)) \<and> val (pos_collateralValue p) < 10 ^ 12 \<and>
     on_grid 8 (val (pos_judiciaryCollateralValue p)) \<and> val (pos_judiciaryCollateralValue p) < 10 ^ 12"

lemma numeric_store_fits:
  assumes "0 \<le> x" "on_grid s x" "x < 10 ^ (n - s)"
  shows "numeric_store n s x = Some x"
  using assms round_places_grid [OF assms(1,2)] by (simp add: numeric_store_def)

locale pg_text = decimal_arith D val for D :: "'d decimal_lib" and val :: "'d \<Rightarrow> rat" +
  fixes S :: pg_server
  assumes numeric_in: "sv_numeric_in S (d_String D x) = Some (val x)"
    and numeric_out: "on_grid s y \<Longrightarrow> \<exists>x. d_NewFromString D (sv_numeric_out S s y) = Some x \<and> val x = y"
begin

lemma numeric_columns_fits:
  assumes "fits val p" "e_dec E = D"
  shows "numeric_columns E S p = Ok (val (pos_amount p), val (pos_unitPrice p), val (pos_totalValue p),
    val (pos_collateralValue p), val (pos_judiciaryCollateralValue p))"
proof -
  have nn: "0 \<le> val (pos_totalValue p)" "0 \<le> val (pos_amount p)" "0 \<le> val (pos_unitPrice p)"
    "0 \<le> val (pos_collateralValue p)" "0 \<le> val (pos_judiciaryCollateralValue p)"
    using assms(1) by (auto simp: fits_def position_inv_def)
  have "numeric_store 18 6 (val (pos_amount p)) = Some (val (pos_amount p))"
    "numeric_store 20 8 (val (pos_unitPrice p)) = Some (val (pos_unitPrice p))"
    "numeric_store 20 8 (val (pos_totalValue p)) = Some (val (pos_totalValue p))"
    "numeric_store 20 8 (val (pos_collateralValue p)) = Some (val (pos_collateralValue p))"
    "numeric_store 20 8 (val (pos_judiciaryCollateralValue p)) = Some (val (pos_judiciaryCollateralValue p))"
    using assms(1) by (auto simp: fits_def intro!: numeric_store_fits nn)
  then show ?thesis by (simp add: numeric_columns_def numeric_in assms(2))
qed

lemma position_checks_fits:
  assumes "fits val p" "0 < v"
  shows "position_checks (r\<lparr>p_amount := val (pos_amount p), p_unit_price := val (pos_unitPrice p),
    p_total_value := val (pos_totalValue p), p_collateral_value := val (pos_collateralValue p),
    p_judiciary_collateral_value := val (pos_judiciaryCollateralValue p), p_updated_at := t,
    p_row_version := v\<rparr>)"
  using assms by (simp add: position_checks_def fits_def position_inv_def)

lemma insert_position_fits:
  assumes "fits val p" "e_dec E = D" "int4_range (sint (pos_rowVersion p))" "0 < sint (pos_rowVersion p)"
    "pos_positionID p \<notin> p_position_id ` set (db_positions d)"
    "pos_clientID p \<in> c_client_id ` set (db_clients d)" "pos_assetID p \<in> a_asset_id ` set (db_assets d)"
  obtains d' where "insert_position E S p d = Ok ((), d')" "db_commands d' = db_commands d"
proof -
  let ?cols = "(val (pos_amount p), val (pos_unitPrice p), val (pos_totalValue p),
    val (pos_collateralValue p), val (pos_judiciaryCollateralValue p))"
  have "position_checks (inserted_row S p ?cols)"
    using assms(1,4) by (simp add: position_checks_def fits_def position_inv_def inserted_row_def)
  then have "insert_position E S p d = Ok ((), d\<lparr>db_positions := db_positions d @ [inserted_row S p ?cols]\<rparr>)"
    unfolding insert_position_Ok_iff using assms numeric_columns_fits [OF assms(1,2)] by auto
  then show thesis by (rule that) simp
qed

end

subsection \<open>Deposits\<close>

text \<open>What a fresh deposit needs of the tables and the UUID source.\<close>

definition can_deposit :: "'d env \<Rightarrow> db \<Rightarrow> deposit_request \<Rightarrow> uuid \<Rightarrow> uuid \<Rightarrow> bool" where
  "can_deposit E d req c a \<longleftrightarrow> c \<noteq> 0 \<and>
     c \<in> c_client_id ` set (db_clients d) \<and>
     (\<exists>r. select_asset (\<lambda>r. a_asset_id r = a) d = Ok r \<and> a_product_type r \<in> set validProductTypes) \<and>
     (commandTypeDeposit, dr_OrderID req) \<notin> (\<lambda>r. (k_command_type r, k_order_id r)) ` set (db_commands d) \<and>
     (\<forall>k. e_uuidNew E k \<notin> p_position_id ` set (db_positions d) \<union> k_command_id ` set (db_commands d))"

lemma select_client_mem: "c \<in> c_client_id ` set (db_clients d) \<Longrightarrow> \<exists>r. select_client c d = Ok r"
  by (auto simp: select_client_def filter_empty_conv split: list.split)

lemma select_asset_mem: "select_asset (\<lambda>r. a_asset_id r = a) d = Ok r \<Longrightarrow> a \<in> a_asset_id ` set (db_assets d)"
proof -
  assume "select_asset (\<lambda>r. a_asset_id r = a) d = Ok r"
  then obtain rs where "filter (\<lambda>r. a_asset_id r = a) (db_assets d) = r # rs"
    by (auto simp: select_asset_def split: list.splits)
  then have "r \<in> set (filter (\<lambda>r. a_asset_id r = a) (db_assets d))" by simp
  then show ?thesis by auto
qed

lemma select_command_none:
  "(t, k) \<notin> (\<lambda>r. (k_command_type r, k_order_id r)) ` set (db_commands d) \<Longrightarrow>
     select_command t k d = Err ErrNoRows"
proof -
  assume "(t, k) \<notin> (\<lambda>r. (k_command_type r, k_order_id r)) ` set (db_commands d)"
  then have "filter (\<lambda>r. k_command_type r = t \<and> k_order_id r = k) (db_commands d) = []"
    by (force simp: filter_empty_conv)
  then show ?thesis by (simp add: select_command_def)
qed

lemma validated_order: "validateDepositRequest E req = Ok y \<Longrightarrow> dr_OrderID req \<noteq> []"
  by (auto simp: validateDepositRequest_def split: if_splits option.splits)

context pg_text begin

lemma deposit_tx_quiet:
  assumes "quiet S" "e_dec E = D" "can_deposit E d req c a" "dr_OrderID req \<noteq> []"
    "fits val p" "pos_rowVersion p = 1" "pos_positionID p = e_uuidNew E k" "pos_clientID p = c" "pos_assetID p = a"
    "s \<noteq> []" "sv_jsonb S s \<noteq> None" "ctx_tx ctx" "st_tx (w_store v) = Some d"
  shows "\<exists>v' d'. deposit_tx E (wallet_deposit_service E S) req c p s ctx v = (Ok (), v') \<and>
    st_tx (w_store v') = Some d'"
proof -
  have one: "int4_range (sint (pos_rowVersion p))" "0 < sint (pos_rowVersion p)"
    using assms(6) by (simp_all add: int4_range_def)
  have "pos_assetID p \<in> a_asset_id ` set (db_assets d)"
    using assms(3,9) select_asset_mem by (auto simp: can_deposit_def)
  then obtain d1 where d1: "insert_position E S p d = Ok ((), d1)" "db_commands d1 = db_commands d"
    using insert_position_fits [OF assms(5,2) one, of d] assms(3,7,8) unfolding can_deposit_def by auto
  obtain w1 where w1: "PositionRepository_Create E S ctx p v = (Ok (), w1)" "st_tx (w_store w1) = Some d1"
    using quiet_create [OF assms(1,12,13) d1(1)] by auto
  let ?cmd = "\<lparr>pc_commandID = e_uuidNew E (w_tick w1), pc_commandType = commandTypeDeposit,
    pc_orderID = dr_OrderID req, pc_clientID = c, pc_responseSnapshot = s,
    pc_createdAt = e_now E (Suc (w_tick w1))\<rparr>"
  have cmd: "NewProcessedCommand (e_uuidNew E (w_tick w1)) (e_now E (Suc (w_tick w1))) commandTypeDeposit
      (dr_OrderID req) c s = Ok ?cmd"
    using assms(3,4,10) by (simp add: NewProcessedCommand_def commandTypeDeposit_def can_deposit_def)
  obtain t where "sv_jsonb S s = Some t" using assms(11) by blast
  then obtain d2 where d2: "insert_command S ?cmd d1 = Ok ((), d2)"
    unfolding insert_command_Ok_iff using assms(3) d1(2) by (auto simp: can_deposit_def)
  have "st_tx (w_store (next_tick (next_tick w1))) = Some d1" using w1(2) by simp
  from quiet_record [OF assms(1,12) this d2] obtain w2 where
    "ProcessedCommandRepository_Create E S ctx ?cmd (next_tick (next_tick w1)) = (Ok (), w2)"
    "st_tx (w_store w2) = Some d2" by fastforce
  with w1(1) cmd show ?thesis
    by (simp add: deposit_tx_def wallet_deposit_service_def NewDepositService_def wiring_simps
        uuid_New_def time_Now_def)
qed

theorem deposit_succeeds:
  assumes "quiet S" "e_dec E = D" "jsonb_text (sv_jsonb S)" "uuid_texts E"
    and req: "validateDepositRequest E req = Ok (c, a, amt, pr)" "can_deposit E (committed w) req c a"
    and grid: "on_grid 6 (val amt)" "val amt < 10 ^ 12" "on_grid 8 (val pr)" "val pr < 10 ^ 12"
      "on_grid 8 (val amt * val pr)" "val amt * val pr < 10 ^ 12"
    and "\<not> ctx_tx ctx"
  shows "\<exists>resp w'. DepositService_Execute E (wallet_deposit_service E S) ctx req w = (Success resp 201, w')"
proof -
  let ?svc = "wallet_deposit_service E S"
  let ?w0 = "emit [SpanStart depositSpan, SpanAttr depositSpan ''wallet.order_id'' (dr_OrderID req)] w"
  note svc = wallet_deposit_service_def NewDepositService_def wiring_simps
  have db: "executorFromContext ctx (w_store v) = committed w" if "w_store v = w_store w" for v
    using that assms(13) by (simp add: executorFromContext_def committed_def)
  have pos: "0 < val amt" "0 < val pr"
    using req(1) by (auto simp: validateDepositRequest_def assms(2) val_simps split: if_splits option.splits)
  obtain v1 e where v1: "ProcessedCommandRepository_FindByTypeAndOrderID S ctx commandTypeDeposit
      (dr_OrderID req) ?w0 = (Err e, v1)" "errors_Is e ErrNotFound" "w_store v1 = w_store w"
    using quiet_no_command [OF assms(1), of commandTypeDeposit "dr_OrderID req" ctx ?w0]
      select_command_none [of commandTypeDeposit "dr_OrderID req" "committed w"] req(2) db [of ?w0]
    by (auto simp: can_deposit_def)
  obtain x2 v2 where v2: "ClientRepository_FindByID E S ctx c v1 = (Ok x2, v2)" "w_store v2 = w_store w"
  proof -
    obtain q where "select_client c (executorFromContext ctx (w_store v1)) = Ok q"
      using select_client_mem [of c "committed w"] req(2) db [OF v1(3)] by (auto simp: can_deposit_def)
    from quiet_client [OF assms(1) this, of E] v1(3) that show thesis by auto
  qed
  obtain r where r: "select_asset (\<lambda>r. a_asset_id r = a) (committed w) = Ok r"
    "a_product_type r \<in> set validProductTypes" using req(2) by (auto simp: can_deposit_def)
  obtain x3 v3 where v3: "AssetRepository_FindByID E S ctx a v2 = (Ok x3, v3)" "w_store v3 = w_store w"
    "as_productType x3 = a_product_type r"
    using quiet_asset [OF assms(1), of a ctx v2 r E] r(1) db [OF v2(2)] v2(2) by auto
  let ?k = "w_tick v3" and ?v4 = "next_tick (next_tick (next_tick v3))"
  obtain p where p: "NewPosition (e_dec E) (e_uuidNew E (Suc (Suc ?k))) (e_now E (Suc ?k)) c a amt pr
      (time_UTC (e_now E ?k)) = Ok p" "fits val p" "pos_rowVersion p = 1" "pos_clientID p = c" "pos_assetID p = a"
      "pos_positionID p = e_uuidNew E (Suc (Suc ?k))"
    using pos grid by (simp add: domain_simps assms(2) val_simps fits_def position_inv_def)
  let ?resp = "position_to_dto E p"
  let ?s = "json_print (dto_json ?resp)"
  have pr: "printable_dto ?resp" by (rule printable_position_dto [OF assms(2,4)])
  have s: "?s \<noteq> []" "sv_jsonb S ?s \<noteq> None"
    using jsonb_text.accepts [OF assms(3) json_parse_dto [OF pr] jsonb_safe_dto [OF pr]]
    by (simp_all add: dto_json_def json_of_members_def)
  have "\<exists>x v'. TransactionRunner_Do S ctx (deposit_tx E ?svc req c p ?s) ?v4 = (Ok x, v')"
    by (rule quiet_Do [OF assms(1)])
      (use deposit_tx_quiet [OF assms(1,2) req(2) validated_order [OF req(1)] p(2,3,6,4,5) s] v3(2)
        in \<open>simp add: committed_def\<close>)
  then obtain v5 where "TransactionRunner_Do S ctx (deposit_tx E ?svc req c p ?s) ?v4 = (Ok (), v5)" by auto
  then have "deposit_commit E ?svc ctx req c p ?resp ?s ?v4 = (Success ?resp 201, spanOK depositSpan ''success'' v5)"
    by (simp add: deposit_commit_def svc)
  with v1 v2 v3 p(1) r(2) req(1) show ?thesis
    by (simp add: DepositService_Execute_def deposit_body_def deposit_fresh_def svc ValidateProductType_def
        time_Now_def uuid_New_def toDepositResponse_def depositMarshalJSON_def Let_def split: prod.split)
qed

end

subsection \<open>Stored lots read back\<close>

definition represents :: "('d \<Rightarrow> rat) \<Rightarrow> position_row \<Rightarrow> 'd position \<Rightarrow> bool" where
  "represents val r p \<longleftrightarrow>
     pos_positionID p = p_position_id r \<and> pos_clientID p = p_client_id r \<and> pos_assetID p = p_asset_id r \<and>
     val (pos_amount p) = p_amount r \<and> val (pos_unitPrice p) = p_unit_price r \<and>
     val (pos_totalValue p) = p_total_value r \<and> val (pos_collateralValue p) = p_collateral_value r \<and>
     val (pos_judiciaryCollateralValue p) = p_judiciary_collateral_value r \<and>
     pos_createdAt p = p_created_at r \<and> pos_updatedAt p = p_updated_at r \<and>
     pos_purchasedAt p = p_purchased_at r \<and> sint (pos_rowVersion p) = p_row_version r"

lemma sint_int4: "int4_range n \<Longrightarrow> sint (word_of_int n :: 64 word) = n"
  by (simp add: int4_range_def sint_sbintrunc' signed_take_bit_int_eq_self)

lemma represents_lot_ok:
  assumes "represents val r p" "position_checks r" "position_typed r"
  shows "lot_ok val p"
  using assms by (simp add: represents_def position_checks_def position_typed_def lot_ok_def position_inv_def)

context pg_text begin

lemma scanPosition_Ok:
  assumes "e_dec E = D" "position_checks r" "position_typed r"
  obtains p where "scanPosition E S r = Ok p" "represents val r p"
proof -
  have ty: "on_grid 6 (p_amount r)" "on_grid 8 (p_unit_price r)" "on_grid 8 (p_total_value r)"
    "on_grid 8 (p_collateral_value r)" "on_grid 8 (p_judiciary_collateral_value r)" "int4_range (p_row_version r)"
    using assms(3) by (simp_all add: position_typed_def)
  obtain a where a: "d_NewFromString D (sv_numeric_out S 6 (p_amount r)) = Some a" "val a = p_amount r"
    using numeric_out [OF ty(1)] by blast
  obtain u where u: "d_NewFromString D (sv_numeric_out S 8 (p_unit_price r)) = Some u" "val u = p_unit_price r"
    using numeric_out [OF ty(2)] by blast
  obtain t where t: "d_NewFromString D (sv_numeric_out S 8 (p_total_value r)) = Some t" "val t = p_total_value r"
    using numeric_out [OF ty(3)] by blast
  obtain c where c: "d_NewFromString D (sv_numeric_out S 8 (p_collateral_value r)) = Some c"
    "val c = p_collateral_value r" using numeric_out [OF ty(4)] by blast
  obtain j where j: "d_NewFromString D (sv_numeric_out S 8 (p_judiciary_collateral_value r)) = Some j"
    "val j = p_judiciary_collateral_value r" using numeric_out [OF ty(5)] by blast
  show thesis
    using assms(2) sint_int4 [OF ty(6)] a u t c j
    by (intro that) (auto simp: scanPosition_def parsePosition_def assms(1) domain_simps val_simps
        position_checks_def represents_def)
qed

lemma collectPositions_Ok:
  assumes "e_dec E = D" "\<And>r. r \<in> set rows \<Longrightarrow> position_checks r \<and> position_typed r"
  shows "\<exists>ps. collectPositions E S rows None = Ok ps \<and> list_all2 (represents val) rows ps"
  using assms(2)
proof (induction rows)
  case (Cons r rows)
  obtain p where "scanPosition E S r = Ok p" "represents val r p"
    using scanPosition_Ok [OF assms(1)] Cons.prems by (metis list.set_intros(1))
  with Cons show ?case by auto
qed simp

text \<open>A lot that was read, reduced and is written back.\<close>

lemma reduced_fits:
  assumes "represents val r p" "position_checks r" "position_typed r" "on_grid 2 (p_unit_price r)"
    "reduced val p q"
  shows "fits val q"
proof -
  have q: "lot_ok val q" "val (pos_unitPrice q) = p_unit_price r" "val (pos_amount q) \<le> p_amount r"
    "val (pos_collateralValue q) = p_collateral_value r"
    "val (pos_judiciaryCollateralValue q) = p_judiciary_collateral_value r"
    using assms(1,5) by (simp_all add: represents_def reduced_def)
  then have inv: "position_inv val q" "on_grid 6 (val (pos_amount q))" by (simp_all add: lot_ok_def)
  have tot: "val (pos_totalValue q) = val (pos_amount q) * p_unit_price r"
    using inv(1) q(2) by (simp add: position_inv_def)
  have "on_grid 8 (val (pos_totalValue q))"
    using on_grid_mult [OF inv(2) assms(4)] tot by simp
  moreover have "val (pos_totalValue q) \<le> p_total_value r"
    using tot q(3) assms(2) by (simp add: position_checks_def mult_right_mono)
  moreover have "p_amount r < 10 ^ 12" "p_unit_price r < 10 ^ 12" "p_total_value r < 10 ^ 12"
    "p_collateral_value r < 10 ^ 12" "p_judiciary_collateral_value r < 10 ^ 12"
    using assms(3) by (auto simp: position_typed_def)
  ultimately show ?thesis
    using inv q assms(3) unfolding fits_def position_typed_def by auto
qed

lemma update_position_quiet:
  assumes "e_dec E = D" "fits val q" "r \<in> set (db_positions d)" "update_matches q r"
    "int4_range (sint (pos_rowVersion q))" "int4_range (sint (pos_rowVersion q - 1))" "0 < sint (pos_rowVersion q)"
  obtains n d' where "update_position E S q d = Ok (n, d')" "0 < n" "db_commands d' = db_commands d"
    "\<And>r'. r' \<in> set (db_positions d) \<Longrightarrow> p_position_id r' \<noteq> pos_positionID q \<Longrightarrow> r' \<in> set (db_positions d')"
proof -
  let ?cols = "(val (pos_amount q), val (pos_unitPrice q), val (pos_totalValue q),
    val (pos_collateralValue q), val (pos_judiciaryCollateralValue q))"
  obtain hit rest where hit: "filter (update_matches q) (db_positions d) = hit # rest"
    using assms(3,4) by (cases "filter (update_matches q) (db_positions d)") (auto simp: filter_empty_conv)
  have "position_checks (updated_row S q ?cols r')" for r'
    using position_checks_fits [OF assms(2,7)] by (simp add: updated_row_def)
  then have upd: "update_position E S q d = Ok (length (hit # rest), d\<lparr>db_positions :=
      map (\<lambda>r. if update_matches q r then updated_row S q ?cols r else r) (db_positions d)\<rparr>)"
    using assms(5,6) hit numeric_columns_fits [OF assms(2,1)] by (simp add: update_position_def list_all_iff)
  show thesis
    by (rule that [OF upd]) (auto simp: update_matches_def intro!: rev_image_eqI)
qed

end


subsection \<open>The lot query\<close>

definition lot_of :: "uuid \<Rightarrow> string \<Rightarrow> db \<Rightarrow> position_row \<Rightarrow> bool" where
  "lot_of c i d p \<longleftrightarrow> p_client_id p = c \<and>
     list_ex (\<lambda>a. p_asset_id p = a_asset_id a \<and> a_instrument_id a = i) (db_assets d)"

lemma join_assets:
  assumes "distinct (map a_asset_id as)"
  shows "[p. a \<leftarrow> as, p_asset_id p = a_asset_id a \<and> a_instrument_id a = i] =
    (if list_ex (\<lambda>a. p_asset_id p = a_asset_id a \<and> a_instrument_id a = i) as then [p] else [])"
  using assms
proof (induction as)
  case (Cons a as)
  have "\<not> list_ex (\<lambda>b. p_asset_id p = a_asset_id b \<and> a_instrument_id b = i) as" if "p_asset_id p = a_asset_id a"
    using Cons.prems that by (auto simp: list_ex_iff)
  with Cons show ?case by auto
qed simp

text \<open>Asset ids are unique, so the join gives each of the client's lots once, oldest first.\<close>

lemma select_lots_filter:
  assumes "db_ok d"
  shows "select_lots c i d = sort_key (\<lambda>p. instant (p_purchased_at p)) (filter (lot_of c i d) (db_positions d))"
proof -
  have dist: "distinct (map a_asset_id (db_assets d))" using assms by (simp add: db_ok_def)
  have "[p. p \<leftarrow> ps, p_client_id p = c, a \<leftarrow> db_assets d, p_asset_id p = a_asset_id a \<and> a_instrument_id a = i] =
      filter (lot_of c i d) ps" for ps
    by (induction ps) (simp_all add: join_assets [OF dist] lot_of_def)
  then show ?thesis by (simp add: select_lots_def)
qed

lemma select_lots_rows:
  assumes "db_ok d"
  shows "distinct (map p_position_id (select_lots c i d))"
    and "r \<in> set (select_lots c i d) \<Longrightarrow> r \<in> set (db_positions d)"
    and "r \<in> set (select_lots c i d) \<Longrightarrow> position_checks r \<and> position_typed r"
proof -
  have "mset (map p_position_id (select_lots c i d)) =
      mset (map p_position_id (filter (lot_of c i d) (db_positions d)))"
    by (simp add: select_lots_filter [OF assms])
  moreover have "distinct (map p_position_id (filter (lot_of c i d) (db_positions d)))"
    using assms by (simp add: db_ok_def distinct_map_filter)
  ultimately show "distinct (map p_position_id (select_lots c i d))"
    by (metis mset_eq_imp_distinct_iff)
  show "r \<in> set (db_positions d)" if "r \<in> set (select_lots c i d)"
    using that by (auto simp: select_lots_filter [OF assms])
  then show "position_checks r \<and> position_typed r" if "r \<in> set (select_lots c i d)"
    using that assms by (auto simp: db_ok_def list_all_iff)
qed

subsection \<open>Withdrawals\<close>

definition writable :: "('d \<Rightarrow> rat) \<Rightarrow> db \<Rightarrow> 'd position \<Rightarrow> bool" where
  "writable val d q \<longleftrightarrow> fits val q \<and> 0 < sint (pos_rowVersion q) \<and> int4_range (sint (pos_rowVersion q)) \<and>
     int4_range (sint (pos_rowVersion q - 1)) \<and> (\<exists>r \<in> set (db_positions d). update_matches q r)"

lemma update_lots_quiet:
  "updates E S d qs d' \<Longrightarrow> quiet S \<Longrightarrow> ctx_tx ctx \<Longrightarrow> st_tx (w_store w) = Some d \<Longrightarrow>
     \<exists>v. update_lots (wallet_withdraw_service E S) ctx qs w = (Ok (), v) \<and> st_tx (w_store v) = Some d'"
proof (induction arbitrary: w rule: updates.induct)
  case (updates_Cons p k d n d1 ps d2)
  have upd: "pr_Update (ws_positions (wallet_withdraw_service E S)) = PositionRepository_Update E S"
    by (simp add: wallet_withdraw_service_def NewWithdrawService_def wiring_simps)
  have "update_position E S p d = Ok (n, d1)"
    using updates_Cons.hyps(1) updates_Cons.prems(1) by (simp add: quiet_def)
  from quiet_update [OF updates_Cons.prems this updates_Cons.hyps(2)] obtain v where
    v: "PositionRepository_Update E S ctx p w = (Ok (), v)" "st_tx (w_store v) = Some d1" by auto
  from updates_Cons.IH [OF updates_Cons.prems(1,2) v(2)] v(1) show ?case by (simp add: upd)
qed simp

context pg_text begin

lemma updates_writable:
  assumes "quiet S" "e_dec E = D"
  shows "distinct (map pos_positionID qs) \<Longrightarrow> (\<And>q. q \<in> set qs \<Longrightarrow> writable val d q) \<Longrightarrow>
    \<exists>d'. updates E S d qs d' \<and> db_commands d' = db_commands d"
proof (induction qs arbitrary: d)
  case Nil
  then show ?case by (auto intro: updates_Nil)
next
  case (Cons q qs)
  have q: "writable val d q" using Cons.prems(2) by simp
  then obtain r where r: "r \<in> set (db_positions d)" "update_matches q r" by (auto simp: writable_def)
  obtain n d1 where d1: "update_position E S q d = Ok (n, d1)" "0 < n" "db_commands d1 = db_commands d"
    and keep: "\<And>r'. r' \<in> set (db_positions d) \<Longrightarrow> p_position_id r' \<noteq> pos_positionID q \<Longrightarrow> r' \<in> set (db_positions d1)"
    using update_position_quiet [OF assms(2) _ r] q unfolding writable_def by metis
  have "writable val d1 q'" if "q' \<in> set qs" for q'
  proof -
    have "pos_positionID q' \<in> set (map pos_positionID qs)" using that by simp
    then have "pos_positionID q' \<noteq> pos_positionID q" using Cons.prems(1) by (metis distinct.simps(2) list.map(2))
    moreover have "writable val d q'" using Cons.prems(2) that by simp
    ultimately show ?thesis using keep unfolding writable_def by (metis update_matches_def)
  qed
  with Cons.IH [of d1] Cons.prems(1) obtain d2 where "updates E S d1 qs d2" "db_commands d2 = db_commands d1" by auto
  with d1 assms(1) show ?case by (metis quiet_def updates_Cons)
qed

lemma reduced_writable:
  assumes "represents val r p" "position_checks r" "position_typed r" "on_grid 2 (p_unit_price r)"
    "p_row_version r < 2147483647" "reduced val p q" "r \<in> set (db_positions d)"
  shows "writable val d q"
proof -
  have v: "pos_rowVersion q = pos_rowVersion p + 1" "sint (pos_rowVersion p) = p_row_version r"
    using assms(1,6) by (simp_all add: represents_def reduced_def)
  have r: "0 < p_row_version r" using assms(2) by (simp add: position_checks_def)
  then have "sint (pos_rowVersion p + 1) = p_row_version r + 1"
    using v(2) assms(5) by (subst sint_word_ariths) (simp add: signed_take_bit_int_eq_self)
  moreover have "update_matches q r"
    using assms(1,6) by (simp add: update_matches_def represents_def reduced_def)
  ultimately show ?thesis
    using reduced_fits [OF assms(1-4,6)] v r assms(5,7)
    by (auto simp: writable_def int4_range_def)
qed

lemma sold_writable:
  assumes db: "db_ok d" "\<And>r. r \<in> set (select_lots c i d) \<Longrightarrow> on_grid 2 (p_unit_price r) \<and> p_row_version r < 2147483647"
    and ps: "list_all2 (represents val) (select_lots c i d) ps"
    and sold: "list_all2 (reduced val) (take n (filter P ps)) sold"
  shows "distinct (map pos_positionID sold)" and "q \<in> set sold \<Longrightarrow> writable val d q"
proof -
  have "map pos_positionID ps = map p_position_id (select_lots c i d)"
    using ps by (induction rule: list_all2_induct) (simp_all add: represents_def)
  then have "distinct (map pos_positionID ps)" using select_lots_rows(1) [OF db(1)] by simp
  then have "distinct (map pos_positionID (take n (filter P ps)))"
    by (metis distinct_map_filter distinct_take take_map)
  moreover have "map pos_positionID sold = map pos_positionID (take n (filter P ps))"
    using sold by (induction rule: list_all2_induct) (simp_all add: reduced_def)
  ultimately show "distinct (map pos_positionID sold)" by simp
  assume "q \<in> set sold"
  then obtain p where p: "p \<in> set (take n (filter P ps))" "reduced val p q"
    using list_all2_in2 [OF sold] by blast
  then have "p \<in> set ps" by (auto dest: in_set_takeD)
  then obtain r where r: "r \<in> set (select_lots c i d)" "represents val r p"
    using list_all2_in2 [OF ps] by blast
  show "writable val d q"
    using reduced_writable [OF r(2) _ _ _ _ p(2)] select_lots_rows(2,3) [OF db(1) r(1)] db(2) [OF r(1)] by blast
qed

end

text \<open>What a fresh withdrawal needs of the tables and the UUID source.\<close>

definition can_withdraw :: "'d env \<Rightarrow> db \<Rightarrow> withdraw_request \<Rightarrow> uuid \<Rightarrow> rat \<Rightarrow> bool" where
  "can_withdraw E d req c x \<longleftrightarrow> db_ok d \<and> c \<noteq> 0 \<and> c \<in> c_client_id ` set (db_clients d) \<and>
     (commandTypeWithdraw, wq_OrderID req) \<notin> (\<lambda>r. (k_command_type r, k_order_id r)) ` set (db_commands d) \<and>
     (\<forall>k. e_uuidNew E k \<notin> k_command_id ` set (db_commands d)) \<and>
     (\<forall>r \<in> set (select_lots c (wq_InstrumentID req) d). on_grid 2 (p_unit_price r) \<and> p_row_version r < 2147483647) \<and>
     x \<le> (\<Sum>r \<leftarrow> select_lots c (wq_InstrumentID req) d.
       max 0 (p_total_value r - p_collateral_value r - p_judiciary_collateral_value r))"

lemma sum_free_represents:
  "list_all2 (represents val) rows ps \<Longrightarrow>
     (\<Sum>r \<leftarrow> rows. max 0 (p_total_value r - p_collateral_value r - p_judiciary_collateral_value r)) =
     free_sum val (filter (\<lambda>p. 0 < free_value val p) ps)"
  by (induction rule: list_all2_induct) (simp_all add: represents_def free_value_def max_def)

lemma validated_withdraw:
  assumes "validateWithdrawRequest E req = Ok (c, x)" "decimal_arith (e_dec E) val"
  shows "wq_OrderID req \<noteq> []" "0 < val x"
  using assms by (auto simp: validateWithdrawRequest_def decimal_arith.val_simps split: if_splits option.splits)

context pg_text begin

lemma withdraw_tx_quiet:
  assumes S: "quiet S" "jsonb_text (sv_jsonb S)" and E: "e_dec E = D" "uuid_texts E"
    and can: "can_withdraw E d req c (val x)" "wq_OrderID req \<noteq> []" "0 < val x"
    and tx: "ctx_tx ctx" "st_tx (w_store v) = Some d"
  shows "\<exists>resp v' d'. withdraw_tx E (wallet_withdraw_service E S) req c x ctx v = (Ok resp, v') \<and>
    st_tx (w_store v') = Some d'"
proof -
  let ?svc = "wallet_withdraw_service E S" and ?rows = "select_lots c (wq_InstrumentID req) d"
  note svc = wallet_withdraw_service_def NewWithdrawService_def wiring_simps
  have db: "db_ok d" and rows: "\<And>r. r \<in> set ?rows \<Longrightarrow> on_grid 2 (p_unit_price r) \<and> p_row_version r < 2147483647"
    using can(1) by (auto simp: can_withdraw_def)
  obtain ps where ps: "collectPositions E S ?rows None = Ok ps" "list_all2 (represents val) ?rows ps"
    using collectPositions_Ok [OF E(1)] select_lots_rows(3) [OF db] by blast
  have "executorFromContext ctx (w_store v) = d" using tx by (simp add: executorFromContext_def)
  then obtain v1 where v1: "PositionRepository_FindByClientAndInstrument E S ctx c (wq_InstrumentID req) v = (Ok ps, v1)"
    "w_store v1 = w_store v"
    using quiet_lots [OF S(1)] ps(1) by metis
  obtain el tot where sel: "select_eligible D ps [] (d_Zero D) = (el, tot)" by fastforce
  then have el: "el = filter (\<lambda>p. 0 < free_value val p) ps" "val tot = free_sum val el"
    using select_eligible_spec [OF sel] by (simp_all add: val_simps)
  have enough: "val x \<le> val tot"
    using can(1) sum_free_represents [OF ps(2)] el by (simp add: can_withdraw_def)
  have "ps \<noteq> []" using enough can(3) el by auto
  have "lot_ok val p \<and> 0 < free_value val p" if "p \<in> set el" for p
    using that el list_all2_in2 [OF ps(2)] represents_lot_ok select_lots_rows(3) [OF db] by fastforce
  from consume_lots_spec [OF E(1) this, of el x "[]" v1] obtain sold rem where
    con: "consume_lots E el x [] v1 = (Ok (sold, rem), v1\<lparr>w_tick := w_tick v1 + length sold\<rparr>)"
    and out: "fifo_outcome val el (val x) sold (val rem)" by auto
  let ?v2 = "v1\<lparr>w_tick := w_tick v1 + length sold\<rparr>"
  have red: "list_all2 (reduced val) (take (length sold) (filter (\<lambda>p. 0 < free_value val p) ps)) sold"
    using out el by (simp add: fifo_outcome_def)
  obtain d1 where d1: "updates E S d sold d1" "db_commands d1 = db_commands d"
    using updates_writable [OF S(1) E(1) sold_writable [OF db rows ps(2) red]] by blast
  obtain v3 where v3: "update_lots ?svc ctx sold ?v2 = (Ok (), v3)" "st_tx (w_store v3) = Some d1"
    using update_lots_quiet [OF d1(1) S(1) tx(1), of ?v2] v1(2) tx(2) by auto
  let ?resp = "toWithdrawResponse E sold"
  let ?s = "json_print (withdraw_response_json ?resp)"
  have pr: "list_all printable_dto (wr_Positions ?resp)"
    by (simp add: toWithdrawResponse_def list_all_iff printable_position_dto [OF E])
  obtain t where t: "sv_jsonb S ?s = Some t"
    using jsonb_text.accepts [OF S(2) json_parse_withdraw [OF pr] jsonb_safe_withdraw [OF pr]] by blast
  let ?cmd = "\<lparr>pc_commandID = e_uuidNew E (w_tick v3), pc_commandType = commandTypeWithdraw,
    pc_orderID = wq_OrderID req, pc_clientID = c, pc_responseSnapshot = ?s, pc_createdAt = e_now E (Suc (w_tick v3))\<rparr>"
  have cmd: "NewProcessedCommand (e_uuidNew E (w_tick v3)) (e_now E (Suc (w_tick v3))) commandTypeWithdraw
      (wq_OrderID req) c ?s = Ok ?cmd"
    using can by (simp add: NewProcessedCommand_def commandTypeWithdraw_def can_withdraw_def withdraw_response_json_def)
  obtain d2 where "insert_command S ?cmd d1 = Ok ((), d2)"
    unfolding insert_command_Ok_iff using can(1) d1(2) t by (auto simp: can_withdraw_def)
  moreover have "st_tx (w_store (next_tick (next_tick v3))) = Some d1" using v3(2) by simp
  ultimately obtain v4 where
    "ProcessedCommandRepository_Create E S ctx ?cmd (next_tick (next_tick v3)) = (Ok (), v4)"
    "st_tx (w_store v4) = Some d2"
    using quiet_record [OF S(1) tx(1)] by fastforce
  with v1(1) \<open>ps \<noteq> []\<close> sel enough con v3(1) cmd show ?thesis
    by (simp add: withdraw_tx_def record_withdrawal_def svc E(1) val_simps not_less withdrawMarshalJSON_def
        uuid_New_def time_Now_def Let_def)
qed

theorem withdraw_succeeds:
  assumes S: "quiet S" "jsonb_text (sv_jsonb S)" and E: "e_dec E = D" "uuid_texts E"
    and req: "validateWithdrawRequest E req = Ok (c, x)" "can_withdraw E (committed w) req c (val x)"
    and ctx: "\<not> ctx_tx ctx"
  shows "\<exists>resp w'. WithdrawService_Execute E (wallet_withdraw_service E S) ctx req w = (Success resp 200, w')"
proof -
  let ?svc = "wallet_withdraw_service E S"
  let ?w0 = "emit [SpanStart withdrawSpan, SpanAttr withdrawSpan ''wallet.order_id'' (wq_OrderID req)] w"
  note svc = wallet_withdraw_service_def NewWithdrawService_def wiring_simps
  have db: "executorFromContext ctx (w_store v) = committed w" if "w_store v = w_store w" for v
    using that ctx by (simp add: executorFromContext_def committed_def)
  have ok: "wq_OrderID req \<noteq> []" "0 < val x"
    using validated_withdraw [OF req(1)] decimal_arith_axioms E(1) by auto
  obtain v1 e where v1: "ProcessedCommandRepository_FindByTypeAndOrderID S ctx commandTypeWithdraw
      (wq_OrderID req) ?w0 = (Err e, v1)" "errors_Is e ErrNotFound" "w_store v1 = w_store w"
    using quiet_no_command [OF S(1), of commandTypeWithdraw "wq_OrderID req" ctx ?w0]
      select_command_none [of commandTypeWithdraw "wq_OrderID req" "committed w"] req(2) db [of ?w0]
    by (auto simp: can_withdraw_def)
  obtain q where "select_client c (executorFromContext ctx (w_store v1)) = Ok q"
    using select_client_mem [of c "committed w"] req(2) db [OF v1(3)] by (auto simp: can_withdraw_def)
  from quiet_client [OF S(1) this, of E] obtain x2 v2 where
    v2: "ClientRepository_FindByID E S ctx c v1 = (Ok x2, v2)" "w_store v2 = w_store w"
    using v1(3) by auto
  have "\<exists>y v'. TransactionRunner_Do S ctx (withdraw_tx E ?svc req c x) v2 = (Ok y, v')"
    by (rule quiet_Do [OF S(1)])
      (use withdraw_tx_quiet [OF S E req(2) ok] v2(2) in \<open>simp add: committed_def\<close>)
  then obtain resp v3 where "TransactionRunner_Do S ctx (withdraw_tx E ?svc req c x) v2 = (Ok resp, v3)" by auto
  with v1 v2 req(1) show ?thesis
    by (simp add: WithdrawService_Execute_def withdraw_body_def withdraw_fresh_def withdraw_commit_def svc
        split: prod.split)
qed

end


end
