(* ===== verification/Reference.thy ===== *)
theory Reference
  imports Liveness
begin

text \<open>
  A concrete environment and server, to apply the theorems to: decimals as scaled integers, a
  clock that advances one second per call, counted UUIDs with their canonical text, and a
  server without faults or interference that reads and writes the texts of its types.  It shows
  that the hypotheses on the surroundings can hold together.
\<close>

subsection \<open>Environment\<close>

fun hex_digits :: "nat \<Rightarrow> nat \<Rightarrow> string" where
  "hex_digits 0 n = []"
| "hex_digits (Suc k) n = hex_digits k (n div 16) @ [hex_lower (n mod 16)]"

definition ref_uuidString :: "uuid \<Rightarrow> string" where
  "ref_uuidString u =
     (let h = hex_digits 32 (unat u) in
      take 8 h @ ''-'' @ take 4 (drop 8 h) @ ''-'' @ take 4 (drop 12 h) @ ''-'' @
        take 4 (drop 16 h) @ ''-'' @ drop 20 h)"

definition ref_uuidParse :: "string \<Rightarrow> uuid option" where
  "ref_uuidParse s =
     (let h = take 8 s @ take 4 (drop 9 s) @ take 4 (drop 14 s) @ take 4 (drop 19 s) @ drop 24 s in
      if length s = 36 \<and> map (\<lambda>i. s ! i) [8, 13, 18, 23] = ''----''
      then map_option (\<lambda>ds. word_of_nat (foldl (\<lambda>a d. 16 * a + d) 0 ds)) (those (map hex_val h))
      else None)"

definition ref_env :: "refdec env" where
  "ref_env =
     \<lparr>e_dec = ref_decimal,
      e_now = (\<lambda>k. \<lparr>t_sec = 1700000000 + int k, t_nsec = 0, t_off = 0\<rparr>),
      e_uuidNew = (\<lambda>k. word_of_nat (Suc k)), e_uuidParse = ref_uuidParse, e_uuidString = ref_uuidString,
      e_jsonErr = (\<lambda>_. ''invalid JSON''), e_decErr = (\<lambda>_. ''invalid decimal'')\<rparr>"

definition ref_numeric_out :: "nat \<Rightarrow> rat \<Rightarrow> string" where
  "ref_numeric_out s y =
     (if y < 0 then ''-'' else '''') @ ref_abs_String (nat \<lfloor>\<bar>y\<bar> * 10 ^ s\<rfloor>) s"

definition ref_server :: pg_server where
  "ref_server =
     \<lparr>sv_fault = (\<lambda>_. None), sv_interfere = (\<lambda>_ d. d), sv_commit_applied = (\<lambda>_. False),
      sv_stream = (\<lambda>_. None),
      sv_errtext = (\<lambda>code. ''SQLSTATE '' @ code),
      sv_numeric_in = (\<lambda>s. map_option ref_val (ref_NewFromString s)),
      sv_numeric_out = ref_numeric_out, sv_jsonb = ref_jsonb,
      sv_timestamptz = (\<lambda>t. t), sv_date = (\<lambda>t. t)\<rparr>"

subsection \<open>It meets the hypotheses\<close>

lemma ref_NewFromString_abs:
  "ref_NewFromString ((if neg then ''-'' else '''') @ ref_abs_String d t) =
     Some (if neg then - int d else int d, t)"
proof -
  obtain c r where h: "ref_abs_String d t = c # r" "is_digit c"
    using ref_abs_String_head by blast
  then have "c \<noteq> CHR ''-''" "c \<noteq> CHR ''+''" by (auto simp: is_digit_def)
  with h(1) ref_parse_abs_String [of d t] show ?thesis by simp
qed

lemma ref_numeric_out_parse:
  assumes "on_grid s y"
  shows "\<exists>x. ref_NewFromString (ref_numeric_out s y) = Some x \<and> ref_val x = y"
proof -
  obtain k :: int where k: "y = of_int k / 10 ^ s" using assms by (rule on_gridE)
  then have "\<bar>y\<bar> * 10 ^ s = of_int \<bar>k\<bar>" by (simp add: abs_divide)
  then have f: "\<lfloor>\<bar>y\<bar> * 10 ^ s\<rfloor> = \<bar>k\<bar>" by (simp only: floor_of_int)
  have sg: "y < 0 \<longleftrightarrow> k < 0" by (simp add: k divide_less_0_iff)
  show ?thesis
    unfolding ref_numeric_out_def f ref_NewFromString_abs sg by (auto simp: k)
qed

interpretation reft: pg_text ref_decimal ref_val ref_server
proof unfold_locales
  show "sv_numeric_in ref_server (d_String ref_decimal x) = Some (ref_val x)" for x
    using ref_NewFromString_String [of x] by (auto simp: ref_server_def ref_decimal_def)
  show "\<exists>x. d_NewFromString ref_decimal (sv_numeric_out ref_server s y) = Some x \<and> ref_val x = y"
    if "on_grid s y" for s y
    using ref_numeric_out_parse [OF that] by (simp add: ref_server_def ref_decimal_def del: split_paired_Ex)
qed

lemma ref_quiet: "quiet ref_server"
  by (simp add: quiet_def ref_server_def)

lemma ref_jsonb_text: "jsonb_text (sv_jsonb ref_server)"
  using refj.jsonb_text_axioms by (simp add: ref_server_def)

lemma hex_lower_char: "n < 16 \<Longrightarrow> uuid_text_char (hex_lower n)"
  by (simp add: hex_lower_def uuid_text_char_def is_digit_def in_range_def)

lemma hex_digits_chars: "list_all uuid_text_char (hex_digits k n)"
  by (induction k n rule: hex_digits.induct) (simp_all add: hex_lower_char)

lemma ref_uuid_texts: "uuid_texts ref_env"
proof -
  have "list_all P h \<Longrightarrow> list_all P (take n h)" "list_all P h \<Longrightarrow> list_all P (drop n h)"
    for P and h :: string and n
    by (auto simp: list_all_iff dest: in_set_takeD in_set_dropD)
  with hex_digits_chars [of 32] show ?thesis
    by (simp add: uuid_texts_def ref_env_def ref_uuidString_def Let_def)
      (simp add: uuid_text_char_def)
qed

lemma ref_fields [simp]:
  "e_dec ref_env = ref_decimal" "e_uuidParse ref_env = ref_uuidParse"
  "e_uuidNew ref_env k = word_of_nat (Suc k)"
  "d_NewFromString ref_decimal = ref_NewFromString" "d_IsPositive ref_decimal x \<longleftrightarrow> 0 < fst x"
  by (simp_all add: ref_env_def ref_decimal_def)

subsection \<open>A wallet with one client, one asset and no lots\<close>

definition epoch :: gotime where
  "epoch = \<lparr>t_sec = 0, t_nsec = 0, t_off = 0\<rparr>"

definition demo_client :: client_row where
  "demo_client = \<lparr>c_client_id = 7, c_external_id = ''ext-7'', c_created_at = epoch\<rparr>"

definition demo_asset :: asset_row where
  "demo_asset =
     \<lparr>a_asset_id = 9, a_instrument_id = ''CDB-9'', a_product_type = ''CDB'', a_offer_id = None,
      a_emission_entity_id = ''bank'', a_issuer_document_id = None, a_market_code = None,
      a_asset_name = ''CDB 9'', a_issuance_date = epoch, a_maturity_date = epoch, a_created_at = epoch\<rparr>"

definition demo_db :: db where
  "demo_db = \<lparr>db_clients = [demo_client], db_assets = [demo_asset], db_positions = [], db_commands = []\<rparr>"

definition demo_world :: "db \<Rightarrow> pg_store world" where
  "demo_world d =
     \<lparr>w_store = \<lparr>st_db = d, st_tx = None\<rparr>, w_tick = 0, w_tel = [], w_slog = [], w_cold = True\<rparr>"

definition demo_ctx :: go_ctx where
  "demo_ctx = \<lparr>ctx_logger = None, ctx_tx = False, ctx_request_id = None\<rparr>"

definition demo_deposit :: deposit_request where
  "demo_deposit =
     \<lparr>dr_ClientID = ''00000000-0000-0000-0000-000000000007'',
      dr_AssetID = ''00000000-0000-0000-0000-000000000009'',
      dr_OrderID = ''order-1'', dr_Amount = ''10.5'', dr_UnitPrice = ''2.25''\<rparr>"

lemma demo_uuids:
  "ref_uuidParse ''00000000-0000-0000-0000-000000000007'' = Some 7"
  "ref_uuidParse ''00000000-0000-0000-0000-000000000009'' = Some 9"
  by code_simp+

lemma demo_numbers:
  "ref_NewFromString ''10.5'' = Some (105, 1)" "ref_NewFromString ''2.25'' = Some (225, 2)"
  by code_simp+

lemma demo_deposit_valid: "validateDepositRequest ref_env demo_deposit = Ok (7, 9, (105, 1), (225, 2))"
  by (simp add: validateDepositRequest_def demo_deposit_def demo_uuids demo_numbers
      del: ref_NewFromString.simps)


lemma demo_world_fields [simp]:
  "committed (demo_world d) = d" "w_store (demo_world d) = \<lparr>st_db = d, st_tx = None\<rparr>"
  "w_tick (demo_world d) = 0"
  by (simp_all add: demo_world_def committed_def)

lemma demo_ctx_tx [simp]: "\<not> ctx_tx demo_ctx"
  by (simp add: demo_ctx_def)

lemma demo_can_deposit: "can_deposit ref_env demo_db demo_deposit 7 9"
  by (simp add: can_deposit_def demo_db_def demo_client_def demo_asset_def select_asset_def
      validProductTypes_def)

lemma ref_on_grid: "t \<le> s \<Longrightarrow> on_grid s (ref_val (c, t))"
  using on_grid_mono [OF on_grid_of_int_div [of t c]] by simp

lemma demo_values:
  "on_grid 6 (ref_val (105, 1))" "ref_val (105, 1) < 10 ^ 12" "on_grid 8 (ref_val (225, 2))"
  "ref_val (225, 2) < 10 ^ 12" "on_grid 8 (ref_val (105, 1) * ref_val (225, 2))"
  "ref_val (105, 1) * ref_val (225, 2) < 10 ^ 12"
  by (simp_all add: on_grid_def)

lemma demo_deposit_201:
  "\<exists>resp w'. DepositService_Execute ref_env (wallet_deposit_service ref_env ref_server) demo_ctx demo_deposit
     (demo_world demo_db) = (Success resp 201, w')"
  by (rule reft.deposit_succeeds [OF ref_quiet ref_fields(1) ref_jsonb_text ref_uuid_texts demo_deposit_valid
      _ demo_values]) (simp_all add: demo_can_deposit)

lemma ref_server_fields [simp]:
  "sv_interfere ref_server k d = d" "sv_fault ref_server k = None" "\<not> sv_commit_applied ref_server k"
  by (simp_all add: ref_server_def)

subsection \<open>The same wallet with two lots\<close>

definition demo_row :: "uuid \<Rightarrow> rat \<Rightarrow> int \<Rightarrow> position_row" where
  "demo_row i amount bought =
     \<lparr>p_position_id = i, p_client_id = 7, p_asset_id = 9, p_amount = amount, p_unit_price = 9 / 4,
      p_total_value = amount * (9 / 4), p_collateral_value = 0, p_judiciary_collateral_value = 0,
      p_created_at = epoch, p_updated_at = epoch, p_purchased_at = epoch\<lparr>t_sec := bought\<rparr>, p_row_version = 1\<rparr>"

definition demo_lots_db :: db where
  "demo_lots_db = demo_db\<lparr>db_positions := [demo_row 1 10 2000, demo_row 2 4 1000]\<rparr>"

definition demo_withdraw :: withdraw_request where
  "demo_withdraw =
     \<lparr>wq_ClientID = ''00000000-0000-0000-0000-000000000007'', wq_InstrumentID = ''CDB-9'',
      wq_OrderID = ''order-2'', wq_DesiredValue = ''10.5''\<rparr>"

lemma demo_withdraw_valid: "validateWithdrawRequest ref_env demo_withdraw = Ok (7, (105, 1))"
  by (simp add: validateWithdrawRequest_def demo_withdraw_def demo_uuids demo_numbers
      del: ref_NewFromString.simps)

lemma demo_lots_db_ok: "db_ok demo_lots_db"
  by (simp add: db_ok_def demo_lots_db_def demo_db_def demo_client_def demo_asset_def demo_row_def
      asset_checks_def position_checks_def position_typed_def int4_range_def on_grid_def)

lemma demo_select_lots: "select_lots 7 ''CDB-9'' demo_lots_db = [demo_row 2 4 1000, demo_row 1 10 2000]"
  by (simp add: select_lots_def demo_lots_db_def demo_db_def demo_asset_def demo_row_def instant_def epoch_def)

lemma demo_can_withdraw: "can_withdraw ref_env demo_lots_db demo_withdraw 7 (ref_val (105, 1))"
proof -
  have "wq_InstrumentID demo_withdraw = ''CDB-9''" by (simp add: demo_withdraw_def)
  with demo_lots_db_ok demo_select_lots show ?thesis
    unfolding can_withdraw_def
    by (simp add: demo_row_def on_grid_def) (simp add: demo_lots_db_def demo_db_def demo_client_def)
qed

lemma demo_withdraw_200:
  "\<exists>resp w'. WithdrawService_Execute ref_env (wallet_withdraw_service ref_env ref_server) demo_ctx demo_withdraw
     (demo_world demo_lots_db) = (Success resp 200, w')"
  by (rule reft.withdraw_succeeds [OF ref_quiet ref_jsonb_text ref_fields(1) ref_uuid_texts demo_withdraw_valid])
    (simp_all only: demo_world_fields demo_can_withdraw demo_ctx_tx not_False_eq_True)


end
