(* ===== verification/Lot_Properties.thy ===== *)
theory Lot_Properties
  imports Reference
begin

text \<open>
  Properties of the allocation of a withdrawal to lots (\<open>withdraw_service.go\<close>, the two loops of
  the transaction body) and of the position entity behind it.
\<close>

subsection \<open>Lots to evaluate on\<close>

definition lot :: "int \<Rightarrow> refdec \<Rightarrow> refdec \<Rightarrow> refdec \<Rightarrow> refdec position" where
  "lot n amount price blocked =
     \<lparr>pos_positionID = word_of_int n, pos_clientID = 7, pos_assetID = 9, pos_amount = amount,
      pos_unitPrice = price, pos_totalValue = ref_Mul amount price, pos_collateralValue = blocked,
      pos_judiciaryCollateralValue = (0, 0), pos_createdAt = epoch, pos_updatedAt = epoch,
      pos_purchasedAt = epoch, pos_rowVersion = 1\<rparr>"

lemma lot_ok_lot:
  assumes "0 \<le> ref_val a" "0 \<le> ref_val p" "0 \<le> ref_val b" "on_grid 6 (ref_val a)"
  shows "lot_ok ref_val (lot n a p b)"
  using assms by (simp add: lot_ok_def position_inv_def lot_def ref_val_Mul)

lemma free_value_lot: "free_value ref_val (lot n a p b) = ref_val a * ref_val p - ref_val b"
  by (simp add: free_value_def lot_def ref_val_Mul)

definition lot_a :: "refdec position" where "lot_a = lot 1 (2, 0) (3, 0) (1, 0)"
definition lot_b :: "refdec position" where "lot_b = lot 2 (10, 0) (225, 2) (0, 0)"

lemma demo_lots:
  "lot_ok ref_val lot_a" "lot_ok ref_val lot_b"
  "free_value ref_val lot_a = 5" "free_value ref_val lot_b = 45 / 2"
  unfolding lot_a_def lot_b_def
  by (rule lot_ok_lot; simp add: on_grid_def)+ (simp_all add: free_value_lot)

subsection \<open>The allocation\<close>

lemma price_last_le_sum:
  assumes "qs \<noteq> []" "\<And>q. q \<in> set qs \<Longrightarrow> lot_ok val q"
  shows "val (pos_unitPrice (last qs)) \<le> price_sum val qs"
proof -
  have "price_sum val qs = price_sum val (butlast qs) + val (pos_unitPrice (last qs))"
    using assms(1) by (induction qs) (auto simp: price_sum_def)
  moreover have "0 \<le> price_sum val (butlast qs)"
    using assms(2) by (intro price_sum_nonneg) (auto dest: in_set_butlastD)
  ultimately show ?thesis by simp
qed

lemma fifo_outcome_accurate:
  assumes "fifo_outcome val ps r qs r'" "0 < r" "r \<le> free_sum val ps"
  shows "qs \<noteq> [] \<and> \<bar>r - value_taken val ps qs\<bar> \<le> quantum * price_sum val qs"
proof -
  have ps: "ps \<noteq> []" using assms(2,3) by auto
  with assms have out: "qs \<noteq> []" "- quantum * val (pos_unitPrice (last qs)) \<le> r'"
    "r' \<le> quantum * price_sum val qs" "r - value_taken val ps qs = r'"
    "list_all2 (reduced val) (take (length qs) ps) qs"
    by (auto simp: fifo_outcome_def)
  have "lot_ok val q" if "q \<in> set qs" for q
    using list_all2_nthD2 [OF out(5)] that by (auto simp: in_set_conv_nth reduced_def)
  then have "quantum * val (pos_unitPrice (last qs)) \<le> quantum * price_sum val qs"
    using price_last_le_sum [OF out(1)] quantum_pos by (intro mult_left_mono) auto
  with out show ?thesis by auto
qed

text \<open>C1. FIFO allocation is total and accurate.  For stored lots and a positive desired value
  that the eligible lots cover, the loop neither divides by zero nor fails nor drives an amount
  negative; it touches a prefix of the eligible lots in their order, stops as soon as nothing
  remains, conserves value exactly (what the touched lots lose is the desired value less the
  residue), and misses the desired value by at most one rounding quantum per touched lot.\<close>

theorem withdraw_allocation:
  assumes "decimal_arith D val" "e_dec E = D"
    and "\<And>p. p \<in> set ps \<Longrightarrow> lot_ok val p"
    and "select_eligible D ps [] (d_Zero D) = (eligible, avail)"
    and "0 < val x" "\<not> d_LessThan D avail x"
  shows "eligible = filter (\<lambda>p. 0 < free_value val p) ps \<and> val avail = free_sum val eligible \<and>
    (\<exists>sold rem. consume_lots E eligible x [] w =
        (Ok (sold, rem), w\<lparr>w_tick := w_tick w + length sold\<rparr>) \<and>
      fifo_outcome val eligible (val x) sold (val rem) \<and> sold \<noteq> [] \<and>
      \<bar>val x - value_taken val eligible sold\<bar> \<le> quantum * price_sum val sold)"
proof -
  have el: "eligible = filter (\<lambda>p. 0 < free_value val p) ps" "val avail = free_sum val eligible"
    using decimal_arith.select_eligible_spec [OF assms(1,4)] assms(1) by (auto simp: decimal_arith.val_simps)
  have "lot_ok val p \<and> 0 < free_value val p" if "p \<in> set eligible" for p
    using that assms(3) el(1) by auto
  from decimal_arith.consume_lots_spec [OF assms(1,2) this, of eligible x "[]" w]
  obtain sold rem where run: "consume_lots E eligible x [] w =
      (Ok (sold, rem), w\<lparr>w_tick := w_tick w + length sold\<rparr>)" "fifo_outcome val eligible (val x) sold (val rem)"
    by auto
  moreover have "val x \<le> free_sum val eligible"
    using assms(1,6) el(2) by (simp add: decimal_arith.val_simps not_less)
  ultimately show ?thesis using el fifo_outcome_accurate [OF run(2) assms(5)] by blast
qed

theorem withdraw_allocation_witness:
  "select_eligible ref_decimal [lot_a, lot_b] [] (d_Zero ref_decimal) = ([lot_a, lot_b], (2750, 2)) \<and>
   (\<exists>sold rem. consume_lots ref_env [lot_a, lot_b] (10, 0) [] (demo_world demo_db) =
      (Ok (sold, rem), (demo_world demo_db)\<lparr>w_tick := w_tick (demo_world demo_db) + length sold\<rparr>) \<and>
      \<bar>10 - value_taken ref_val [lot_a, lot_b] sold\<bar> \<le> quantum * price_sum ref_val sold)"
proof -
  have sel: "select_eligible ref_decimal [lot_a, lot_b] [] (d_Zero ref_decimal) = ([lot_a, lot_b], (2750, 2))"
    by code_simp
  have nless: "\<not> d_LessThan ref_decimal (2750, 2) (10, 0)" by (simp add: ref_decimal_def)
  have lots: "lot_ok ref_val p" if "p \<in> set [lot_a, lot_b]" for p using that demo_lots by auto
  have ten: "ref_val (10, 0) = 10" "0 < ref_val (10, 0)" by simp_all
  show ?thesis
    using withdraw_allocation [OF refd.decimal_arith_axioms ref_fields(1) lots sel ten(2) nless,
        of "demo_world demo_db", unfolded ten(1)] sel by blast
qed

subsection \<open>What the rounding allows\<close>

definition touched :: "refdec position \<Rightarrow> refdec position" where
  "touched p = p\<lparr>pos_updatedAt := e_now ref_env 0, pos_rowVersion := 2\<rparr>"


lemma touched_fields [simp]:
  "free_value ref_val (touched p) = free_value ref_val p" "pos_amount (touched p) = pos_amount p"
  "pos_rowVersion (touched p) = 2"
  by (simp_all add: touched_def free_value_def)

lemma lot_fields [simp]:
  "pos_amount (lot n a p b) = a" "pos_rowVersion (lot n a p b) = 1"
  by (simp_all add: lot_def)






end
