(* ===== verification/Accounts.thy ===== *)
theory Accounts
  imports Lot_Properties
begin

text \<open>
  What the wallet is for, without its rows: for each client and instrument the value held.  The
  abstraction (\<open>holding\<close>) sums the client's lots of the instrument; a deposit credits one
  account, a withdrawal debits one, anything else leaves all of them alone (\<open>account_step\<close>).
  The lemmas say which rows a successful withdrawal replaces and what that does to the sums.
\<close>

subsection \<open>Accounts\<close>

type_synonym accounts = "uuid \<Rightarrow> string \<Rightarrow> rat"

definition holding :: "db \<Rightarrow> accounts" where
  "holding d c i = (\<Sum>r \<leftarrow> filter (lot_of c i d) (db_positions d). p_total_value r)"

definition credit :: "uuid \<Rightarrow> string \<Rightarrow> rat \<Rightarrow> accounts \<Rightarrow> accounts" where
  "credit c i t a = (\<lambda>c' i'. a c' i' + (if c' = c \<and> i' = i then t else 0))"

inductive account_step :: "accounts \<Rightarrow> accounts \<Rightarrow> bool" where
  unchanged: "account_step a a"
| deposited: "0 \<le> t \<Longrightarrow> account_step a (credit c i t a)"
| withdrawn: "0 \<le> t \<Longrightarrow> t \<le> a c i \<Longrightarrow> account_step a (credit c i (- t) a)"

subsection \<open>Replacing rows\<close>

definition put_row :: "position_row \<Rightarrow> position_row list \<Rightarrow> position_row list" where
  "put_row r = map (\<lambda>y. if p_position_id y = p_position_id r then r else y)"

lemma put_row_ids [simp]: "map p_position_id (put_row r rows) = map p_position_id rows"
  by (induction rows) (auto simp: put_row_def)

lemma put_row_other: "y \<in> set rows \<Longrightarrow> p_position_id y \<noteq> p_position_id r \<Longrightarrow> y \<in> set (put_row r rows)"
  by (force simp: put_row_def)

lemma put_row_absent: "p_position_id r \<notin> p_position_id ` set rows \<Longrightarrow> put_row r rows = rows"
  unfolding put_row_def by (rule map_idI) (metis imageI)

lemma sum_put_row:
  assumes "distinct (map p_position_id rows)" "r \<in> set rows" "p_position_id r' = p_position_id r" "P r' = P r"
  shows "(\<Sum>y \<leftarrow> filter P (put_row r' rows). p_total_value y) =
    (\<Sum>y \<leftarrow> filter P rows. p_total_value y) - (if P r then p_total_value r - p_total_value r' else 0)"
  using assms
proof (induction rows)
  case (Cons y rows)
  show ?case
  proof (cases "r = y")
    case True
    then have "put_row r' rows = rows" using Cons.prems by (intro put_row_absent) auto
    with True Cons.prems show ?thesis by (simp add: put_row_def)
  next
    case False
    then have "r \<in> set rows" using Cons.prems by simp
    moreover from this have "p_position_id y \<noteq> p_position_id r'" using Cons.prems by (auto simp: image_iff)
    ultimately show ?thesis using Cons by (simp add: put_row_def)
  qed
qed simp

text \<open>What \<open>UPDATE\<close> leaves of a lot's row: new amount, total value, time and version.\<close>

definition sold_row :: "pg_server \<Rightarrow> ('d \<Rightarrow> rat) \<Rightarrow> 'd position \<Rightarrow> position_row \<Rightarrow> position_row" where
  "sold_row S val q r =
     r\<lparr>p_amount := val (pos_amount q), p_total_value := val (pos_totalValue q),
       p_updated_at := sv_timestamptz S (pos_updatedAt q), p_row_version := sint (pos_rowVersion q)\<rparr>"

lemma sold_row_fields [simp]:
  "p_position_id (sold_row S val q r) = p_position_id r" "p_client_id (sold_row S val q r) = p_client_id r"
  "p_asset_id (sold_row S val q r) = p_asset_id r" "p_total_value (sold_row S val q r) = val (pos_totalValue q)"
  by (simp_all add: sold_row_def)

text \<open>A stored lot and what the loop made of it.\<close>

definition sold_from :: "('d \<Rightarrow> rat) \<Rightarrow> position_row \<Rightarrow> 'd position \<Rightarrow> bool" where
  "sold_from val r q \<longleftrightarrow> (\<exists>p. represents val r p \<and> reduced val p q)"

lemma lot_of_frame: "db_assets d' = db_assets d \<Longrightarrow> lot_of c i d' = lot_of c i d"
  by (rule ext) (simp add: lot_of_def)

lemma lot_of_sold [simp]: "lot_of c i d (sold_row S val q r) = lot_of c i d r"
  by (simp add: lot_of_def)

lemma db_ok_rows:
  assumes "db_ok d" "r \<in> set (db_positions d)"
  shows "position_checks r" "position_typed r"
    and "r' \<in> set (db_positions d) \<Longrightarrow> p_position_id r' = p_position_id r \<longleftrightarrow> r' = r"
  using assms by (auto simp: db_ok_def list_all_iff dest: eq_key_imp_eq_value inj_onD simp: distinct_map)

context pg_text begin

lemma numeric_columns_eq:
  assumes "numeric_columns E S p = Ok (a, u, t, c, j)" "e_dec E = D"
  shows "a = round_places 6 (val (pos_amount p))" "u = round_places 8 (val (pos_unitPrice p))"
    "t = round_places 8 (val (pos_totalValue p))" "c = round_places 8 (val (pos_collateralValue p))"
    "j = round_places 8 (val (pos_judiciaryCollateralValue p))"
  using assms by (auto simp: numeric_columns_def numeric_in numeric_store_def Let_def split: if_splits)

lemma update_sold:
  assumes E: "e_dec E = D" and d: "db_ok d" "r \<in> set (db_positions d)" and sold: "sold_from val r q"
    and upd: "update_position E S q d = Ok (n, d')" "0 < n"
  shows "d' = d\<lparr>db_positions := put_row (sold_row S val q r) (db_positions d)\<rparr>"
proof -
  note rows = db_ok_rows [OF d]
  obtain p where p: "represents val r p" "reduced val p q" using sold by (auto simp: sold_from_def)
  have q: "position_inv val q" "on_grid 6 (val (pos_amount q))" "val (pos_unitPrice q) = p_unit_price r"
    "val (pos_collateralValue q) = p_collateral_value r" "pos_positionID q = p_position_id r"
    "val (pos_judiciaryCollateralValue q) = p_judiciary_collateral_value r"
    using p by (auto simp: reduced_def represents_def lot_ok_def)
  have grid: "on_grid 8 (p_unit_price r)" "on_grid 8 (p_collateral_value r)" "on_grid 8 (p_judiciary_collateral_value r)"
    using rows(2) by (auto simp: position_typed_def)
  have match: "update_matches q y \<Longrightarrow> y \<in> set (db_positions d) \<Longrightarrow> y = r" for y
    using rows(3) q(5) by (auto simp: update_matches_def)
  from upd(1) show ?thesis
  proof (cases rule: update_position_cases)
    case (2 cols)
    obtain a u t c j where cols: "cols = (a, u, t, c, j)" by (cases cols) auto
    note cv = numeric_columns_eq [OF 2(2) [unfolded cols] E]
    have "a = val (pos_amount q)" "u = p_unit_price r" "c = p_collateral_value r" "j = p_judiciary_collateral_value r"
      using cv q grid by (auto simp: position_inv_def round_places_grid)
    moreover have hit: "update_matches q r" using 2(7) match by blast
    moreover have "t = a * u"
      using 2(5) d(2) hit by (auto simp: cols position_checks_def updated_row_def)
    ultimately have "updated_row S q cols r = sold_row S val q r"
      using q(1,3) by (simp add: cols updated_row_def sold_row_def position_inv_def)
    moreover have "update_matches q y \<longleftrightarrow> p_position_id y = p_position_id r" if "y \<in> set (db_positions d)" for y
      using match [OF _ that] hit rows(3) [OF that] by auto
    ultimately have "map (\<lambda>y. if update_matches q y then updated_row S q cols y else y) (db_positions d) =
        put_row (sold_row S val q r) (db_positions d)"
      unfolding put_row_def using match by (auto intro!: map_cong)
    with 2(6) show ?thesis by simp
  qed (use upd(2) in simp)
qed

lemma updates_sold:
  assumes E: "e_dec E = D" and alone: "\<And>k d. sv_interfere S k d = d"
  shows "updates E S d qs d' \<Longrightarrow> db_ok d \<Longrightarrow> set rs \<subseteq> set (db_positions d) \<Longrightarrow> distinct (map p_position_id rs) \<Longrightarrow>
    list_all2 (sold_from val) rs qs \<Longrightarrow>
    d' = d\<lparr>db_positions := fold put_row (map2 (sold_row S val) qs rs) (db_positions d)\<rparr>"
proof (induction arbitrary: rs rule: updates.induct)
  case (updates_Cons q k d n d1 qs d2)
  obtain r rs' where rs: "rs = r # rs'" "sold_from val r q" "list_all2 (sold_from val) rs' qs"
    using updates_Cons.prems(4) by (auto simp: list_all2_Cons2)
  have upd: "update_position E S q d = Ok (n, d1)" using updates_Cons.hyps(1) alone by simp
  have d1: "d1 = d\<lparr>db_positions := put_row (sold_row S val q r) (db_positions d)\<rparr>"
    using update_sold [OF E updates_Cons.prems(1) _ rs(2) upd updates_Cons.hyps(2)] updates_Cons.prems(2) rs(1) by simp
  have "set rs' \<subseteq> set (db_positions d1)"
  proof
    fix y assume "y \<in> set rs'"
    then have "y \<in> set (db_positions d)" "p_position_id y \<noteq> p_position_id r"
      using updates_Cons.prems(2,3) rs(1) by (auto simp: image_iff)
    then show "y \<in> set (db_positions d1)" by (simp add: d1 put_row_other)
  qed
  with updates_Cons.IH [of rs'] update_position_ok [OF updates_Cons.prems(1) upd] updates_Cons.prems(3) rs
  show ?case by (simp add: d1)
qed simp

end

lemma sum_put_rows:
  "distinct (map p_position_id rows) \<Longrightarrow> set rs \<subseteq> set rows \<Longrightarrow> distinct (map p_position_id rs) \<Longrightarrow>
   length qs = length rs \<Longrightarrow> (\<And>q r. P (sold_row S val q r) = P r) \<Longrightarrow>
   (\<Sum>y \<leftarrow> filter P (fold put_row (map2 (sold_row S val) qs rs) rows). p_total_value y) =
     (\<Sum>y \<leftarrow> filter P rows. p_total_value y) -
     (\<Sum>(r, q) \<leftarrow> zip rs qs. if P r then p_total_value r - val (pos_totalValue q) else 0)"
proof (induction rs arbitrary: rows qs)
  case (Cons r rs)
  obtain q qs' where qs: "qs = q # qs'" using Cons.prems(4) by (cases qs) auto
  let ?r = "sold_row S val q r"
  have "set rs \<subseteq> set (put_row ?r rows)"
    using Cons.prems(2,3) by (auto intro!: put_row_other simp: image_iff)
  moreover have "distinct (map p_position_id (put_row ?r rows))" using Cons.prems(1) by simp
  moreover have "(\<Sum>y \<leftarrow> filter P (put_row ?r rows). p_total_value y) =
      (\<Sum>y \<leftarrow> filter P rows. p_total_value y) - (if P r then p_total_value r - val (pos_totalValue q) else 0)"
    using sum_put_row [OF Cons.prems(1), of r ?r P] Cons.prems(2,5) by simp
  ultimately show ?case
    using Cons.IH [of "put_row ?r rows" qs'] Cons.prems(3,4,5) by (simp add: qs)
qed simp

subsection \<open>A withdrawal on a quiet account\<close>

text \<open>With this session alone, a success is a committed transaction or a replay.\<close>

context alone_session begin

lemma withdraw_success:
  assumes "WithdrawService_Execute E (wallet_withdraw_service E S) ctx req w = (Success resp s, w')"
  obtains c x v v' where "validateWithdrawRequest E req = Ok (c, x)" "committed v = committed w"
    "committed w' = committed v'"
    "TransactionRunner_Do S ctx (withdraw_tx E (wallet_withdraw_service E S) req c x) v = (Ok resp, v')"
  | "committed w' = committed w"
proof -
  let ?svc = "wallet_withdraw_service E S"
  have svc: "?svc = wdr" by (simp add: wallet_withdraw_service_def)
  have finds: "ClientRepository_FindByID E S ctx' cl y = (r1, y') \<Longrightarrow> committed y' = committed y"
    "ProcessedCommandRepository_FindByTypeAndOrderID S ctx' t k y = (r2, y') \<Longrightarrow> committed y' = committed y"
    for ctx' cl y r1 r2 y' t k using find_pending(1,5) by (metis snd_conv)+
  have ports: "cr_FindByID (ws_clients ?svc) = ClientRepository_FindByID E S"
    "uow_Do (ws_unitOfWork ?svc) = TransactionRunner_Do S"
    "pcr_FindByTypeAndOrderID (ws_processedCommands ?svc) = ProcessedCommandRepository_FindByTypeAndOrderID S"
    by (simp_all add: wallet_withdraw_service_def NewWithdrawService_def wiring_simps)
  have rolled: "committed v' = committed v"
    if "TransactionRunner_Do S ctx (withdraw_tx E ?svc req c x) v = (r, v')" "\<not> is_Ok r" for c x v v' r
    using keep_WDo [of v "withdraw_tx E ?svc req c x" ctx] opened_withdraw_tx that
    unfolding svc by (simp add: wiring_simps)
  have replay: "finish_replay sp r v = (Success resp s, v') \<Longrightarrow> committed v' = committed v" for sp r v v'
    using finish_replay_eq by blast
  consider (fresh) c x v where "validateWithdrawRequest E req = Ok (c, x)" "committed v = committed w"
      "\<exists>y. withdraw_commit E ?svc ctx req c x v = (Success resp s, y) \<and> committed w' = committed y"
    | (hit) "committed w' = committed w"
    using assms
    by (auto simp: WithdrawService_Execute_def withdraw_body_def withdraw_fresh_def ports fail_with_def
        split: prod.splits res.splits if_splits dest!: finds replay)
  then show thesis
  proof cases
    case (fresh c x v)
    obtain r v1 where do: "TransactionRunner_Do S ctx (withdraw_tx E ?svc req c x) v = (r, v1)" by fastforce
    from fresh(3) obtain y where y: "withdraw_commit E ?svc ctx req c x v = (Success resp s, y)" "committed w' = committed y"
      by blast
    show thesis
    proof (cases r)
      case (Ok z)
      with y do show thesis
        by (intro that(1) [OF fresh(1,2), of v1]) (auto simp: withdraw_commit_def ports spanOK_def)
    next
      case (Err e)
      with rolled [OF do] have "committed v1 = committed w" by (simp add: fresh(2))
      with y do Err show thesis
        by (intro that(2)) (auto simp: withdraw_commit_def withdraw_replayAfterRace_def ports fail_with_def
            split: prod.splits res.splits if_splits dest!: finds replay)
    qed (use y do in \<open>simp add: withdraw_commit_def ports\<close>)
  qed (rule that(2))
qed

end

definition free_row :: "position_row \<Rightarrow> rat" where
  "free_row r = p_total_value r - p_collateral_value r - p_judiciary_collateral_value r"

lemma list_all2_filter:
  "list_all2 R xs ys \<Longrightarrow> (\<And>x y. R x y \<Longrightarrow> P x = Q y) \<Longrightarrow> list_all2 R (filter P xs) (filter Q ys)"
  by (induction rule: list_all2_induct) auto

lemma zip_take_length: "zip xs (take (length xs) ys) = zip xs ys"
proof (induction xs arbitrary: ys)
  case (Cons x xs)
  then show ?case by (cases ys) simp_all
qed simp

lemma list_all2_chain:
  assumes "list_all2 R xs ys" "list_all2 T ys zs"
  shows "list_all2 (\<lambda>x z. \<exists>y. R x y \<and> T y z) xs zs"
  by (rule list_all2_trans [OF _ assms]) blast

text \<open>The client's lots of an instrument with free value, oldest first.\<close>

definition eligible_rows :: "uuid \<Rightarrow> string \<Rightarrow> db \<Rightarrow> position_row list" where
  "eligible_rows c i d = filter (\<lambda>r. 0 < free_row r) (select_lots c i d)"

lemma eligible_rows_lots:
  assumes "db_ok d" "r \<in> set (eligible_rows c i d)"
  shows "r \<in> set (db_positions d)" "lot_of c' i' d r \<longleftrightarrow> c' = c \<and> i' = i"
proof -
  have r: "r \<in> set (db_positions d)" "lot_of c i d r"
    using assms by (auto simp: eligible_rows_def select_lots_filter)
  then show "r \<in> set (db_positions d)" by simp
  have "inj_on a_asset_id (set (db_assets d))" using assms(1) by (simp add: db_ok_def distinct_map)
  from inj_onD [OF this] r(2) show "lot_of c' i' d r \<longleftrightarrow> c' = c \<and> i' = i"
    unfolding lot_of_def list_ex_iff by metis
qed

lemma value_taken_rows:
  "list_all2 (represents val) rows ps \<Longrightarrow>
     value_taken val ps qs = (\<Sum>(r, q) \<leftarrow> zip rows qs. p_total_value r - val (pos_totalValue q))"
proof (induction arbitrary: qs rule: list_all2_induct)
  case (Cons r rows p ps)
  then show ?case by (cases qs) (simp_all add: represents_def)
qed simp

lemma price_sum_rows:
  "list_all2 (sold_from val) rows qs \<Longrightarrow> price_sum val qs = (\<Sum>r \<leftarrow> rows. p_unit_price r)"
  by (induction rule: list_all2_induct) (auto simp: sold_from_def represents_def reduced_def)

context pg_text begin

lemma collect_represents:
  assumes "e_dec E = D" "db_ok d" "collectPositions E S (select_lots c i d) None = Ok ps"
  shows "list_all2 (represents val) (select_lots c i d) ps"
  using collectPositions_Ok [OF assms(1), of "select_lots c i d"] select_lots_rows(3) [OF assms(2)] assms(3) by auto

text \<open>The rows a committed withdrawal touches, what it leaves of them, and how much value it took.\<close>

lemma withdraw_Do_effect:
  assumes E: "e_dec E = D" and alone: "\<And>k d. sv_interfere S k d = d" and d: "db_ok (committed v)" and x: "0 < val x"
    and run: "TransactionRunner_Do S ctx (withdraw_tx E (wallet_withdraw_service E S) req c x) v = (Ok resp, v')"
  obtains sold rem cmd where
    "list_all2 (sold_from val) (take (length sold) (eligible_rows c (wq_InstrumentID req) (committed v))) sold"
    "length sold \<le> length (eligible_rows c (wq_InstrumentID req) (committed v))" "sold \<noteq> []"
    "resp = toWithdrawResponse E sold" "val x = rem + (\<Sum>(r, q) \<leftarrow>
        zip (eligible_rows c (wq_InstrumentID req) (committed v)) sold. p_total_value r - val (pos_totalValue q))"
    "\<bar>rem\<bar> \<le> quantum * (\<Sum>r \<leftarrow> take (length sold) (eligible_rows c (wq_InstrumentID req) (committed v)). p_unit_price r)"
    "k_command_type cmd = commandTypeWithdraw" "k_order_id cmd = wq_OrderID req" "k_client_id cmd = c"
    "sv_jsonb S (json_print (withdraw_response_json resp)) = Some (k_response_snapshot cmd)"
    "committed v' = (committed v)\<lparr>db_positions := fold put_row
        (map2 (sold_row S val) sold (eligible_rows c (wq_InstrumentID req) (committed v))) (db_positions (committed v)),
      db_commands := db_commands (committed v) @ [cmd]\<rparr>"
  using run
proof (rule withdraw_Do_Ok)
  fix k0 k1 ps eligible total affected rem d1 k2 d2 k3 cmd and wc wc' :: "pg_store world"
  let ?d = "committed v" and ?i = "wq_InstrumentID req" and ?free = "\<lambda>p. 0 < free_value val p"
  let ?rows = "eligible_rows c ?i ?d"
  assume ps: "collectPositions E S (select_lots c ?i (sv_interfere S k1 (sv_interfere S k0 ?d))) None = Ok ps"
    and sel: "select_eligible (e_dec E) ps [] (d_Zero (e_dec E)) = (eligible, total)" "\<not> d_LessThan (e_dec E) total x"
    and con: "consume_lots E eligible x [] wc = (Ok (affected, rem), wc')"
    and upd: "updates E S (sv_interfere S k1 (sv_interfere S k0 ?d)) affected d1"
    and ins: "insert_command S cmd (sv_interfere S k2 d1) = Ok ((), d2)"
    and fin: "committed v' = sv_interfere S k3 d2" "resp = toWithdrawResponse E affected"
    and cmd: "pc_commandType cmd = commandTypeWithdraw" "pc_orderID cmd = wq_OrderID req" "pc_clientID cmd = c"
      "pc_responseSnapshot cmd = json_print (withdraw_response_json resp)"
  have reps: "list_all2 (represents val) (select_lots c ?i ?d) ps"
    using collect_represents [OF E d] ps by (simp add: alone)
  have el: "eligible = filter ?free ps" "val total = free_sum val eligible"
    using select_eligible_spec [of ps "[]" "d_Zero D"] sel(1) by (auto simp: E val_simps)
  have rows: "list_all2 (represents val) ?rows eligible"
    unfolding eligible_rows_def el(1)
    by (rule list_all2_filter [OF reps]) (auto simp: represents_def free_value_def free_row_def)
  have "lot_ok val p \<and> ?free p" if "p \<in> set eligible" for p
  proof -
    obtain r where "r \<in> set ?rows" "represents val r p" using list_all2_in2 [OF rows \<open>p \<in> set eligible\<close>] by blast
    moreover from this(1) have "r \<in> set (select_lots c ?i ?d)" by (simp add: eligible_rows_def)
    ultimately have "lot_ok val p"
      using select_lots_rows(3) [OF d] by (blast intro: represents_lot_ok)
    then show ?thesis using that by (simp add: el(1))
  qed
  from consume_lots_spec [OF E this, of eligible x "[]" wc] con
  have out: "fifo_outcome val eligible (val x) affected (val rem)" by auto
  have "val x \<le> free_sum val eligible" using sel(2) el(2) by (simp add: E val_simps not_less)
  then have ne: "affected \<noteq> []" "\<bar>val x - value_taken val eligible affected\<bar> \<le> quantum * price_sum val affected"
    using fifo_outcome_accurate [OF out x] by auto
  have len: "length affected \<le> length ?rows" and red: "list_all2 (reduced val) (take (length affected) eligible) affected"
    using out list_all2_lengthD [OF rows] by (auto simp: fifo_outcome_def)
  let ?rs = "take (length affected) ?rows"
  have sold: "list_all2 (sold_from val) ?rs affected"
    using list_all2_chain [OF list_all2_takeI [OF rows] red] by (simp add: sold_from_def [abs_def])
  have sub: "set ?rs \<subseteq> set (db_positions ?d)" "distinct (map p_position_id ?rs)"
    using eligible_rows_lots(1) [OF d] set_take_subset [of "length affected" ?rows] select_lots_rows(1) [OF d]
    by (blast, simp add: eligible_rows_def distinct_map_filter take_map [symmetric])
  have d1: "d1 = ?d\<lparr>db_positions := fold put_row (map2 (sold_row S val) affected ?rs) (db_positions ?d)\<rparr>"
    using updates_sold [OF E alone _ d sub sold] upd by (simp add: alone)
  have zip: "zip affected ?rs = zip affected ?rows" by (rule zip_take_length)
  obtain js where js: "sv_jsonb S (json_print (withdraw_response_json resp)) = Some js"
    "committed v' = d1\<lparr>db_commands := db_commands d1 @
         [\<lparr>k_command_id = pc_commandID cmd, k_command_type = commandTypeWithdraw, k_order_id = wq_OrderID req,
           k_client_id = c, k_response_snapshot = js, k_created_at = sv_timestamptz S (pc_createdAt cmd)\<rparr>]\<rparr>"
    using ins unfolding fin(1) alone insert_command_Ok_iff cmd by blast
  show thesis
  proof (rule that [OF sold len ne(1) fin(2)])
    let ?cmd = "\<lparr>k_command_id = pc_commandID cmd, k_command_type = commandTypeWithdraw, k_order_id = wq_OrderID req,
           k_client_id = c, k_response_snapshot = js, k_created_at = sv_timestamptz S (pc_createdAt cmd)\<rparr>"
    show "val x = (val x - value_taken val eligible affected) +
        (\<Sum>(r, q) \<leftarrow> zip ?rows affected. p_total_value r - val (pos_totalValue q))"
      by (simp add: value_taken_rows [OF rows])
    show "\<bar>val x - value_taken val eligible affected\<bar> \<le> quantum * (\<Sum>r \<leftarrow> ?rs. p_unit_price r)"
      using ne(2) by (simp add: price_sum_rows [OF sold])
    show "committed v' = ?d\<lparr>db_positions := fold put_row (map2 (sold_row S val) affected ?rows) (db_positions ?d),
        db_commands := db_commands ?d @ [?cmd]\<rparr>"
      by (simp add: js(2) d1 zip)
    show "k_command_type ?cmd = commandTypeWithdraw" "k_order_id ?cmd = wq_OrderID req" "k_client_id ?cmd = c"
      "sv_jsonb S (json_print (withdraw_response_json resp)) = Some (k_response_snapshot ?cmd)"
      using js(1) by simp_all
  qed
qed

end


subsection \<open>What happens to the accounts\<close>

lemma holding_nonneg: "db_ok d \<Longrightarrow> 0 \<le> holding d c i"
  unfolding holding_def
  by (rule sum_list_nonneg_map) (auto simp: db_ok_def list_all_iff position_checks_def)

lemma sold_from_le: "sold_from val r q \<Longrightarrow> position_checks r \<Longrightarrow> 0 \<le> p_total_value r - val (pos_totalValue q)"
  by (auto simp: sold_from_def represents_def reduced_def lot_ok_def position_inv_def position_checks_def
      intro: mult_right_mono)

lemma sum_zip_nonneg:
  "list_all2 R rs qs \<Longrightarrow> (\<And>r q. r \<in> set rs \<Longrightarrow> R r q \<Longrightarrow> 0 \<le> f r q) \<Longrightarrow> (0 :: rat) \<le> (\<Sum>(r, q) \<leftarrow> zip rs qs. f r q)"
  by (induction rule: list_all2_induct) auto

lemma sum_zip_cong:
  "(\<And>r. r \<in> set rs \<Longrightarrow> P r = b) \<Longrightarrow>
     (\<Sum>(r, q) \<leftarrow> zip rs qs. if P r then f r q else (0 :: rat)) = (if b then \<Sum>(r, q) \<leftarrow> zip rs qs. f r q else 0)"
proof (induction rs arbitrary: qs)
  case (Cons r rs)
  show ?case using Cons.IH [of "tl qs"] Cons.prems by (cases qs) auto
qed simp

lemma zip_length_take: "zip (take (length qs) rs) qs = zip rs qs"
proof (induction qs arbitrary: rs)
  case (Cons q qs)
  then show ?case by (cases rs) simp_all
qed simp

lemma holding_sold:
  assumes "db_ok d" "list_all2 (sold_from val) (take (length sold) (eligible_rows c i d)) sold"
    "length sold \<le> length (eligible_rows c i d)"
    and d': "db_positions d' = fold put_row (map2 (sold_row S val) sold (eligible_rows c i d)) (db_positions d)"
      "db_assets d' = db_assets d"
  defines "t \<equiv> (\<Sum>(r, q) \<leftarrow> zip (eligible_rows c i d) sold. p_total_value r - val (pos_totalValue q))"
  shows "holding d' = credit c i (- t) (holding d)" "0 \<le> t"
proof -
  let ?rs = "take (length sold) (eligible_rows c i d)"
  have zip: "zip sold (eligible_rows c i d) = zip sold ?rs" "zip (eligible_rows c i d) sold = zip ?rs sold"
    by (simp_all add: zip_take_length zip_length_take)
  have rs: "set ?rs \<subseteq> set (db_positions d)" "distinct (map p_position_id ?rs)" "distinct (map p_position_id (db_positions d))"
    using eligible_rows_lots(1) [OF assms(1)] set_take_subset [of "length sold" "eligible_rows c i d"]
      select_lots_rows(1) [OF assms(1)] assms(1)
    by (blast, simp add: eligible_rows_def distinct_map_filter take_map [symmetric], simp add: db_ok_def)
  have lots: "lot_of c' i' d r = (c' = c \<and> i' = i)" if "r \<in> set ?rs" for c' i' r
    using eligible_rows_lots(2) [OF assms(1) in_set_takeD [OF that]] by simp
  have "holding d' c' i' = holding d c' i' - (if c' = c \<and> i' = i then t else 0)" for c' i'
  proof -
    have "holding d' c' i' = (\<Sum>y \<leftarrow> filter (lot_of c' i' d) (fold put_row (map2 (sold_row S val) sold ?rs) (db_positions d)).
        p_total_value y)"
      by (simp add: holding_def d' lot_of_frame [OF d'(2)] zip)
    also have "\<dots> = holding d c' i' -
        (\<Sum>(r, q) \<leftarrow> zip ?rs sold. if lot_of c' i' d r then p_total_value r - val (pos_totalValue q) else 0)"
      unfolding holding_def using rs assms(3) by (intro sum_put_rows) auto
    finally show ?thesis
      unfolding t_def zip by (simp only: sum_zip_cong [of ?rs "lot_of c' i' d" "c' = c \<and> i' = i", OF lots])
  qed
  then show "holding d' = credit c i (- t) (holding d)"
    by (intro ext) (simp add: credit_def)
  show "0 \<le> t"
    unfolding t_def zip
    by (rule sum_zip_nonneg [OF assms(2)]) (use rs(1) db_ok_rows(1) [OF assms(1)] sold_from_le in blast)
qed

subsection \<open>A deposit on a quiet account\<close>

lemma deposit_rows:
  assumes "DepositService_Execute E (wallet_deposit_service E S) ctx req w = (Success resp 201, w')"
    and "\<And>k d. sv_interfere S k d = d" and "st_tx (w_store w) = None"
  obtains c a amt pr p cols cmd where "validateDepositRequest E req = Ok (c, a, amt, pr)"
    "pos_clientID p = c" "pos_assetID p = a" "pos_amount p = amt" "pos_unitPrice p = pr"
    "pos_totalValue p = d_Mul (e_dec E) amt pr" "pos_collateralValue p = d_Zero (e_dec E)"
    "pos_judiciaryCollateralValue p = d_Zero (e_dec E)" "pos_rowVersion p = 1"
    "resp = position_to_dto E p" "numeric_columns E S p = Ok cols"
    "position_checks (inserted_row S p cols)" "a \<in> a_asset_id ` set (db_assets (committed w))"
    "k_command_type cmd = commandTypeDeposit" "k_order_id cmd = dr_OrderID req" "k_client_id cmd = c"
    "sv_jsonb S (json_print (dto_json resp)) = Some (k_response_snapshot cmd)"
    "committed w' = (committed w)\<lparr>db_positions := db_positions (committed w) @ [inserted_row S p cols],
      db_commands := db_commands (committed w) @ [cmd]\<rparr>" "st_tx (w_store w') = None"
  using assms(1)
proof (rule deposit_Execute_201)
  fix c a amt pr u now t p v k0 k1 d1 k2 d2 k3 pc
  assume val: "validateDepositRequest E req = Ok (c, a, amt, pr)"
    and p: "NewPosition (e_dec E) u now c a amt pr t = Ok p" "resp = position_to_dto E p" "reach S w v"
    and ins: "insert_position E S p (sv_interfere S k1 (sv_interfere S k0 (committed v))) = Ok ((), d1)"
    and rec: "insert_command S pc (sv_interfere S k2 d1) = Ok ((), d2)"
    and fin: "committed w' = sv_interfere S k3 d2" "st_tx (w_store w') = None"
    and pc: "pc_commandType pc = commandTypeDeposit" "pc_orderID pc = dr_OrderID req" "pc_clientID pc = c"
      "pc_responseSnapshot pc = json_print (dto_json resp)"
  have v: "committed v = committed w" by (rule reach_alone [OF p(3) assms(2,3)])
  from ins obtain cols where cols: "numeric_columns E S p = Ok cols" "position_checks (inserted_row S p cols)"
    "pos_assetID p \<in> a_asset_id ` set (db_assets (committed w))"
    "d1 = (committed w)\<lparr>db_positions := db_positions (committed w) @ [inserted_row S p cols]\<rparr>"
    unfolding assms(2) v insert_position_Ok_iff by blast
  from rec obtain js where js: "sv_jsonb S (json_print (dto_json resp)) = Some js"
    "committed w' = d1\<lparr>db_commands := db_commands d1 @
         [\<lparr>k_command_id = pc_commandID pc, k_command_type = commandTypeDeposit,
           k_order_id = dr_OrderID req, k_client_id = c, k_response_snapshot = js,
           k_created_at = sv_timestamptz S (pc_createdAt pc)\<rparr>]\<rparr>"
    unfolding assms(2) insert_command_Ok_iff pc fin(1) by blast
  have flds: "pos_clientID p = c" "pos_assetID p = a" "pos_amount p = amt" "pos_unitPrice p = pr"
    "pos_totalValue p = d_Mul (e_dec E) amt pr" "pos_collateralValue p = d_Zero (e_dec E)"
    "pos_judiciaryCollateralValue p = d_Zero (e_dec E)" "pos_rowVersion p = 1"
    using p(1) by (auto simp: domain_simps split: if_splits)
  let ?cmd = "\<lparr>k_command_id = pc_commandID pc, k_command_type = commandTypeDeposit, k_order_id = dr_OrderID req,
    k_client_id = c, k_response_snapshot = js, k_created_at = sv_timestamptz S (pc_createdAt pc)\<rparr>"
  show thesis
    by (rule that [OF val flds p(2) cols(1,2), of ?cmd])
      (use cols(3,4) js fin(2) flds(2) in simp_all)
qed

lemma holding_inserted:
  assumes "db_ok d" "db_assets d' = db_assets d" "db_positions d' = db_positions d @ [r]"
    and "asset \<in> set (db_assets d)" "p_asset_id r = a_asset_id asset"
  shows "holding d' = credit (p_client_id r) (a_instrument_id asset) (p_total_value r) (holding d)"
proof (intro ext)
  fix c i
  have "inj_on a_asset_id (set (db_assets d))" using assms(1) by (simp add: db_ok_def distinct_map)
  with assms(4,5) have "lot_of c i d r \<longleftrightarrow> c = p_client_id r \<and> i = a_instrument_id asset"
    by (auto simp: lot_of_def list_ex_iff dest: inj_onD)
  then show "holding d' c i = credit (p_client_id r) (a_instrument_id asset) (p_total_value r) (holding d) c i"
    by (simp add: holding_def lot_of_frame [OF assms(2)] assms(3) credit_def)
qed

context pg_text begin

lemma deposit_credit:
  assumes "DepositService_Execute E (wallet_deposit_service E S) ctx req w = (Success resp 201, w')"
    and "e_dec E = D" "\<And>k d. sv_interfere S k d = d" "st_tx (w_store w) = None" "db_ok (committed w)"
  obtains c a amt pr asset where "validateDepositRequest E req = Ok (c, a, amt, pr)"
    "asset \<in> set (db_assets (committed w))" "a_asset_id asset = a"
    "round_places 8 (val amt * val pr) = round_places 6 (val amt) * round_places 8 (val pr)"
    "holding (committed w') =
       credit c (a_instrument_id asset) (round_places 8 (val amt * val pr)) (holding (committed w))"
  using assms(1,3,4)
proof (rule deposit_rows)
  fix c a amt pr p cols cmd
  assume val: "validateDepositRequest E req = Ok (c, a, amt, pr)"
    and p: "pos_clientID p = c" "pos_assetID p = a" "pos_amount p = amt" "pos_unitPrice p = pr"
      "pos_totalValue p = d_Mul (e_dec E) amt pr"
    and cols: "numeric_columns E S p = Ok cols" "position_checks (inserted_row S p cols)"
    and a: "a \<in> a_asset_id ` set (db_assets (committed w))"
    and w': "committed w' = (committed w)\<lparr>db_positions := db_positions (committed w) @ [inserted_row S p cols],
      db_commands := db_commands (committed w) @ [cmd]\<rparr>"
  obtain x u t y j where xs: "cols = (x, u, t, y, j)" by (cases cols) auto
  note cv = numeric_columns_eq [OF cols(1) [unfolded xs] assms(2)]
  have t: "t = round_places 8 (val amt * val pr)" "t = x * u" "p_total_value (inserted_row S p cols) = t"
    using cv cols(2) p by (simp_all add: xs inserted_row_def position_checks_def assms(2) val_Mul)
  obtain asset where asset: "asset \<in> set (db_assets (committed w))" "a_asset_id asset = a" using a by blast
  have "holding (committed w') = credit (p_client_id (inserted_row S p cols)) (a_instrument_id asset)
      (p_total_value (inserted_row S p cols)) (holding (committed w))"
    by (rule holding_inserted [OF assms(5) _ _ asset(1)]) (simp_all add: w' asset(2) p(2))
  then show thesis
    using t cv p by (intro that [OF val asset]) simp_all
qed

text \<open>The debit of a committed withdrawal.\<close>

lemma withdraw_debit:
  assumes "e_dec E = D" "\<And>k d. sv_interfere S k d = d" "db_ok (committed v)" "0 < val x"
    "TransactionRunner_Do S ctx (withdraw_tx E (wallet_withdraw_service E S) req c x) v = (Ok resp, v')"
  obtains t n where "holding (committed v') = credit c (wq_InstrumentID req) (- t) (holding (committed v))" "0 \<le> t"
    "n = length (wr_Positions resp)"
    "\<bar>val x - t\<bar> \<le> quantum * (\<Sum>r \<leftarrow> take n (eligible_rows c (wq_InstrumentID req) (committed v)). p_unit_price r)"
  using assms
proof (rule withdraw_Do_effect)
  fix sold rem cmd
  let ?rows = "eligible_rows c (wq_InstrumentID req) (committed v)"
  assume sold: "list_all2 (sold_from val) (take (length sold) ?rows) sold" "length sold \<le> length ?rows"
    and resp: "resp = toWithdrawResponse E sold"
    and x: "val x = rem + (\<Sum>(r, q) \<leftarrow> zip ?rows sold. p_total_value r - val (pos_totalValue q))"
      "\<bar>rem\<bar> \<le> quantum * (\<Sum>r \<leftarrow> take (length sold) ?rows. p_unit_price r)"
    and v': "committed v' = (committed v)\<lparr>db_positions := fold put_row
        (map2 (sold_row S val) sold ?rows) (db_positions (committed v)), db_commands := db_commands (committed v) @ [cmd]\<rparr>"
  note h = holding_sold [OF assms(3) sold, of "committed v'" S]
  show thesis
    by (rule that [OF h]) (use x resp v' in \<open>simp_all add: toWithdrawResponse_def\<close>)
qed

end


context alone_session begin

lemma fresh_withdraw:
  assumes "WithdrawService_Execute E (wallet_withdraw_service E S) ctx req w = (Success resp s, w')" "\<not> ctx_tx ctx"
    and "st_tx (w_store w) = None"
    and "(commandTypeWithdraw, wq_OrderID req) \<notin> (\<lambda>r. (k_command_type r, k_order_id r)) ` set (db_commands (committed w))"
  obtains c x v v' where "validateWithdrawRequest E req = Ok (c, x)" "committed v = committed w"
    "committed w' = committed v'"
    "TransactionRunner_Do S ctx (withdraw_tx E (wallet_withdraw_service E S) req c x) v = (Ok resp, v')"
  using assms(1)
proof (cases rule: withdraw_success)
  case same: 2
  have miss: "\<not> recorded commandTypeWithdraw (wq_OrderID req) load resp w'" for load :: "string \<Rightarrow> withdraw_response exec"
    using assms(4) by (force simp: recorded_def same select_command_def split: list.splits
        dest: filter_eq_ConsD)
  from assms(1,2) show thesis
  proof (cases rule: withdraw_Execute_Ok)
    case (1 c x v v')
    have "committed v = committed w" using reach_alone [OF 1(2)] assms(3) no_interference by blast
    with 1 show thesis by (intro that [of c x v v']) (simp_all add: committed_def)
  qed (use miss in blast)
qed (rule that)

end


subsection \<open>Each success is a step of the accounts\<close>

lemma deposit_account_step:
  assumes "pg_text D val S" "e_dec E = D" "\<And>k d. sv_interfere S k d = d"
    and run: "DepositService_Execute E (wallet_deposit_service E S) ctx req w = (Success resp 201, w')"
    and w: "st_tx (w_store w) = None" "db_ok (committed w)"
  shows "account_step (holding (committed w)) (holding (committed w'))"
  using assms(1) run assms(2,3) w
proof (rule pg_text.deposit_credit)
  fix c a amt pr asset
  assume val: "validateDepositRequest E req = Ok (c, a, amt, pr)" and h: "holding (committed w') =
    credit c (a_instrument_id asset) (round_places 8 (val amt * val pr)) (holding (committed w))"
  have "decimal_arith (e_dec E) val" using assms(1,2) by (simp add: pg_text_def)
  with val have "0 < val amt" "0 < val pr"
    by (auto simp: validateDepositRequest_def decimal_arith.val_simps split: if_splits option.splits)
  then have "0 \<le> round_places 8 (val amt * val pr)" by (simp add: round_places_nonneg)
  then show ?thesis using h account_step.deposited by simp
qed

lemma withdraw_account_step:
  assumes "pg_text D val S" "e_dec E = D" "alone_session S"
    and run: "WithdrawService_Execute E (wallet_withdraw_service E S) ctx req w = (Success resp s, w')"
    and ok: "db_ok (committed w)" "db_ok (committed w')"
  shows "account_step (holding (committed w)) (holding (committed w'))"
  using assms(3) run
proof (rule alone_session.withdraw_success)
  fix c y u u'
  assume val: "validateWithdrawRequest E req = Ok (c, y)" and u: "committed u = committed w" "committed w' = committed u'"
    and do: "TransactionRunner_Do S ctx (withdraw_tx E (wallet_withdraw_service E S) req c y) u = (Ok resp, u')"
  have pos: "0 < val y" using validated_withdraw(2) [OF val] assms(1,2) by (simp add: pg_text_def)
  have "db_ok (committed u)" using u ok by simp
  from assms(1,2) undisturbed_session.no_interference [OF alone_session.axioms(1) [OF assms(3)]] this pos do show ?thesis
  proof (rule pg_text.withdraw_debit)
    fix t
    assume t: "holding (committed u') = credit c (wq_InstrumentID req) (- t) (holding (committed u))" "0 \<le> t"
    moreover from t(1) have "t \<le> holding (committed w) c (wq_InstrumentID req)"
      using holding_nonneg [OF ok(2), of c "wq_InstrumentID req"] u by (simp add: credit_def)
    ultimately show ?thesis using account_step.withdrawn u by simp
  qed
qed (simp add: account_step.unchanged)


end
