(* ===== verification/Platform.thy ===== *)
theory Platform
  imports Handlers
begin

text \<open>
  \<open>internal/platform\<close> and the start of \<open>cmd/http-lambda/main.go\<close>: the database configuration
  read from the environment (with \<open>strconv.ParseInt\<close> and \<open>time.ParseDuration\<close> of the standard
  library), the connection pool, the logger factory with its trace handler, the telemetry
  providers, and the sequence the process runs before it serves.  The environment, the pool library
  and the telemetry exporters are arguments.
\<close>

subsection \<open>\<open>strconv.ParseInt(s, 10, 32)\<close>\<close>

datatype num_error = ErrSyntax | ErrRange

text \<open>
  The loop of \<open>ParseUint\<close> at 32 bits: a byte that is no digit is a syntax error; a number beyond
  the range stops the loop at once, whatever follows.
\<close>

fun parse_uint32 :: "string \<Rightarrow> nat \<Rightarrow> num_error + nat" where
  "parse_uint32 [] n = Inr n"
| "parse_uint32 (c # s) n =
     (if \<not> is_digit c then Inl ErrSyntax
      else if 2 ^ 32 - 1 < 10 * n + digit_val c then Inl ErrRange
      else parse_uint32 s (10 * n + digit_val c))"

definition split_sign :: "string \<Rightarrow> bool \<times> string" where
  "split_sign s =
     (case s of
        c # t \<Rightarrow> if c = CHR ''+'' then (False, t) else if c = CHR ''-'' then (True, t) else (False, s)
      | [] \<Rightarrow> (False, s))"

definition ParseInt32 :: "string \<Rightarrow> num_error + int" where
  "ParseInt32 s =
     (if s = [] then Inl ErrSyntax
      else case split_sign s of (neg, t) \<Rightarrow>
        if t = [] then Inl ErrSyntax
        else case parse_uint32 t 0 of
          Inl e \<Rightarrow> Inl e
        | Inr un \<Rightarrow>
            if \<not> neg \<and> 2 ^ 31 \<le> un then Inl ErrRange
            else if neg \<and> 2 ^ 31 < un then Inl ErrRange
            else Inr (if neg then - int un else int un))"

text \<open>The text of the \<open>*NumError\<close>.\<close>

definition num_error_of :: "string \<Rightarrow> num_error \<Rightarrow> go_error" where
  "num_error_of s e =
     Opaque (''strconv.ParseInt: parsing '' @ go_quote s @ '': '' @
       (case e of ErrSyntax \<Rightarrow> ''invalid syntax'' | ErrRange \<Rightarrow> ''value out of range''))"

subsection \<open>\<open>time.ParseDuration\<close>\<close>

text \<open>The \<open>quote\<close> of package time.\<close>

definition time_quote_byte :: "char \<Rightarrow> string" where
  "time_quote_byte c =
     (let n = (of_char c :: nat); bs = CHR 0x5C in
      if 0x80 \<le> n \<or> n < 0x20 then [bs, CHR ''x'', hex_lower (n div 16), hex_lower (n mod 16)]
      else if c = CHR 0x22 \<or> c = bs then [bs, c] else [c])"

definition time_quote :: "string \<Rightarrow> string" where
  "time_quote s = [CHR 0x22] @ concat (map time_quote_byte s) @ [CHR 0x22]"

definition unitMap :: "string \<Rightarrow> nat option" where
  "unitMap u = map_of
     [(''ns'', 1), (''us'', 10 ^ 3), ([CHR 0xC2, CHR 0xB5, CHR ''s''], 10 ^ 3),
      ([CHR 0xCE, CHR 0xBC, CHR ''s''], 10 ^ 3), (''ms'', 10 ^ 6), (''s'', 10 ^ 9),
      (''m'', 60 * 10 ^ 9), (''h'', 3600 * 10 ^ 9)] u"

text \<open>\<open>leadingInt\<close>: the digits at the head, \<open>None\<close> on overflow of \<open>1<<63\<close>.\<close>

fun leadingInt :: "string \<Rightarrow> nat \<Rightarrow> (nat \<times> string) option" where
  "leadingInt [] x = Some (x, [])"
| "leadingInt (c # s) x =
     (if \<not> is_digit c then Some (x, c # s)
      else if 2 ^ 63 div 10 < x then None
      else if 2 ^ 63 < 10 * x + digit_val c then None
      else leadingInt s (10 * x + digit_val c))"

text \<open>
  \<open>leadingFraction\<close>: the digits that fit, their number (the scale is \<open>10\<close> to that power), and
  the rest after all digits.
\<close>

fun leadingFraction :: "string \<Rightarrow> bool \<Rightarrow> nat \<Rightarrow> nat \<Rightarrow> nat \<times> nat \<times> string" where
  "leadingFraction [] overflow x k = (x, k, [])"
| "leadingFraction (c # s) overflow x k =
     (if \<not> is_digit c then (x, k, c # s)
      else if overflow then leadingFraction s True x k
      else if (2 ^ 63 - 1) div 10 < x then leadingFraction s True x k
      else if 2 ^ 63 < 10 * x + digit_val c then leadingFraction s True x k
      else leadingFraction s False (10 * x + digit_val c) (Suc k))"

text \<open>
  Rounding a positive rational to a \<open>float64\<close> (53 bits, ties to even); the numbers of
  \<open>ParseDuration\<close> lie between \<open>10 ^ -19\<close> and \<open>2 ^ 63\<close>, well within the normal range.
\<close>

definition pow2 :: "int \<Rightarrow> rat" where
  "pow2 e = (if 0 \<le> e then 2 ^ nat e else 1 / 2 ^ nat (- e))"

definition round_even :: "rat \<Rightarrow> int" where
  "round_even x =
     (let n = \<lfloor>x\<rfloor>; r = x - of_int n in
      if r < 1 / 2 then n else if 1 / 2 < r then n + 1 else if even n then n else n + 1)"

definition float64 :: "rat \<Rightarrow> rat" where
  "float64 x =
     (case find (\<lambda>e. x < pow2 (53 + e)) [- 120 .. 20] of
        Some e \<Rightarrow> of_int (round_even (x / pow2 e)) * pow2 e
      | None \<Rightarrow> x)"

text \<open>\<open>uint64(float64(f) * (float64(unit) / scale))\<close>.\<close>

definition fraction_ns :: "nat \<Rightarrow> nat \<Rightarrow> nat \<Rightarrow> nat" where
  "fraction_ns f unit k =
     nat \<lfloor>float64 (float64 (of_nat f) * float64 (float64 (of_nat unit) / 10 ^ k))\<rfloor>"

definition duration_text_char :: "char \<Rightarrow> bool" where
  "duration_text_char c \<longleftrightarrow> c = CHR ''.'' \<or> is_digit c"

definition invalid_duration :: "string \<Rightarrow> go_error" where
  "invalid_duration orig = Opaque (''time: invalid duration '' @ time_quote orig)"

text \<open>One number with its unit: the nanoseconds it stands for, and the rest of the text.\<close>

definition duration_term :: "string \<Rightarrow> string \<Rightarrow> go_error + nat \<times> string" where
  "duration_term orig s =
     (if s = [] \<or> \<not> duration_text_char (hd s) then Inl (invalid_duration orig)
      else case leadingInt s 0 of
        None \<Rightarrow> Inl (invalid_duration orig)
      | Some (v, s1) \<Rightarrow>
          (let pre = length s \<noteq> length s1;
               (f, k, s2, post) =
                 (case s1 of
                    c # t \<Rightarrow> if c = CHR ''.''
                      then (case leadingFraction t False 0 0 of (f, k, r) \<Rightarrow> (f, k, r, length t \<noteq> length r))
                      else (0, 0, s1, False)
                  | [] \<Rightarrow> (0, 0, s1, False));
               u = takeWhile (\<lambda>c. \<not> duration_text_char c) s2;
               s3 = dropWhile (\<lambda>c. \<not> duration_text_char c) s2
           in if \<not> pre \<and> \<not> post then Inl (invalid_duration orig)
              else if u = [] then Inl (Opaque (''time: missing unit in duration '' @ time_quote orig))
              else case unitMap u of
                None \<Rightarrow> Inl (Opaque (''time: unknown unit '' @ time_quote u @ '' in duration '' @ time_quote orig))
              | Some unit \<Rightarrow>
                  if 2 ^ 63 div unit < v then Inl (invalid_duration orig)
                  else (let v1 = v * unit;
                            v2 = (if 0 < f then (v1 + fraction_ns f unit k) mod 2 ^ 64 else v1)
                        in if 0 < f \<and> 2 ^ 63 < v2 then Inl (invalid_duration orig) else Inr (v2, s3))))"

lemma leadingInt_length: "leadingInt s x = Some (v, r) \<Longrightarrow> length r \<le> length s"
  by (induction s x rule: leadingInt.induct) (auto split: if_splits)

lemma leadingFraction_length: "leadingFraction s b x k = (f, j, r) \<Longrightarrow> length r \<le> length s"
  by (induction s b x k rule: leadingFraction.induct) (auto split: if_splits)

lemma duration_term_length:
  assumes "duration_term orig s = Inr (v, r)"
  shows "length r < length s"
proof -
  let ?P = "\<lambda>c. \<not> duration_text_char c"
  obtain v0 s1 where i: "leadingInt s 0 = Some (v0, s1)"
    using assms by (auto simp: duration_term_def split: if_splits option.splits)
  define s2 where "s2 = (case s1 of
      c # t \<Rightarrow> if c = CHR ''.'' then snd (snd (leadingFraction t False 0 0)) else s1 | [] \<Rightarrow> s1)"
  have s2: "length s2 \<le> length s"
    using leadingInt_length [OF i]
    by (auto simp: s2_def split: list.split dest!: leadingFraction_length [OF surjective_pairing [THEN trans]])
      (metis le_SucI leadingFraction_length order_trans prod.collapse)
  have "takeWhile ?P s2 \<noteq> []" "r = dropWhile ?P s2"
    using assms i by (auto simp: duration_term_def s2_def Let_def split: if_splits option.splits list.splits prod.splits)
  then have "length r < length s2"
    by (metis add_less_cancel_right length_append length_greater_0_conv takeWhile_dropWhile_id
        add.commute less_add_same_cancel1)
  with s2 show ?thesis by simp
qed

text \<open>The sum is an unsigned 64-bit number and wraps.\<close>

function duration_sum :: "string \<Rightarrow> string \<Rightarrow> nat \<Rightarrow> go_error + nat" where
  "duration_sum orig s d =
     (if s = [] then Inr d
      else case duration_term orig s of
        Inl e \<Rightarrow> Inl e
      | Inr (v, r) \<Rightarrow>
          (let d1 = (d + v) mod 2 ^ 64
           in if 2 ^ 63 < d1 then Inl (invalid_duration orig) else duration_sum orig r d1))"
  by pat_completeness auto

termination duration_sum
  by (relation "measure (\<lambda>(orig, s, d). length s)") (auto dest: duration_term_length)

declare duration_sum.simps [simp del]

definition ParseDuration :: "string \<Rightarrow> 64 word res" where
  "ParseDuration orig =
     (case split_sign orig of (neg, s) \<Rightarrow>
        if s = ''0'' then Ok 0
        else if s = [] then Err (invalid_duration orig)
        else case duration_sum orig s 0 of
          Inl e \<Rightarrow> Err e
        | Inr d \<Rightarrow>
            if neg then Ok (- word_of_nat d)
            else if 2 ^ 63 - 1 < d then Err (invalid_duration orig)
            else Ok (word_of_nat d))"

subsection \<open>Database configuration (\<open>database.go\<close>)\<close>


text \<open>The two shapes of the optional variables: \<open>if v := os.Getenv(name); v != ""\<close>.\<close>

definition env_int :: "(string \<Rightarrow> string) \<Rightarrow> string \<Rightarrow> 32 word \<Rightarrow> 32 word res" where
  "env_int getenv name dflt =
     (let v = getenv name in
      if v = [] then Ok dflt
      else case ParseInt32 v of
        Inl e \<Rightarrow> Err (Wrapped (''invalid '' @ name @ '' '' @ go_quote v) (num_error_of v e))
      | Inr n \<Rightarrow> Ok (word_of_int n))"

definition env_duration :: "(string \<Rightarrow> string) \<Rightarrow> string \<Rightarrow> 64 word \<Rightarrow> 64 word res" where
  "env_duration getenv name dflt =
     (let v = getenv name in
      if v = [] then Ok dflt
      else case ParseDuration v of
        Ok d \<Rightarrow> Ok d
      | Err e \<Rightarrow> Err (Wrapped (''invalid '' @ name @ '' '' @ go_quote v) e)
      | Panicked m \<Rightarrow> Panicked m)"



text \<open>The fields of \<open>pgxpool.Config\<close> the code sets, and the rest of it.\<close>

record 'c pool_config =
  pl_rest :: 'c
  pl_MaxConns :: "32 word"
  pl_MinConns :: "32 word"
  pl_MaxConnLifetime :: "64 word"
  pl_MaxConnIdleTime :: "64 word"
  pl_HealthCheckPeriod :: "64 word"



subsection \<open>Logger factory and trace handler (\<open>logger.go\<close>)\<close>

text \<open>
  \<open>slog.Handler\<close>: its methods over a handler type, a record of the log library being its
  level, message and attributes.
\<close>

record slog_record =
  sr_level :: log_level
  sr_message :: string
  sr_attrs :: attrs

record ('h, 'o) slog_handler =
  sh_Enabled :: "'h \<Rightarrow> log_level \<Rightarrow> bool"
  sh_Handle :: "'h \<Rightarrow> slog_record \<Rightarrow> 'o"
  sh_WithAttrs :: "'h \<Rightarrow> attrs \<Rightarrow> 'h"
  sh_WithGroup :: "'h \<Rightarrow> string \<Rightarrow> 'h"

text \<open>The span of a context: whether it records, whether its context is valid, its two ids.\<close>

record span_context =
  sp_recording :: bool
  sp_valid :: bool
  sp_trace_id :: string
  sp_span_id :: string

datatype 'h traceContextHandler = TraceContextHandler (tch_inner: 'h)

definition traceContextHandler_Enabled ::
    "('h, 'o) slog_handler \<Rightarrow> 'h traceContextHandler \<Rightarrow> log_level \<Rightarrow> bool" where
  "traceContextHandler_Enabled I h level = sh_Enabled I (tch_inner h) level"

definition traceContextHandler_Handle ::
    "('h, 'o) slog_handler \<Rightarrow> 'h traceContextHandler \<Rightarrow> span_context \<Rightarrow> slog_record \<Rightarrow> 'o" where
  "traceContextHandler_Handle I h sp rec =
     sh_Handle I (tch_inner h)
       (if sp_recording sp \<and> sp_valid sp
        then rec\<lparr>sr_attrs := sr_attrs rec @
          [(''trace_id'', AStr (sp_trace_id sp)), (''span_id'', AStr (sp_span_id sp))]\<rparr>
        else rec)"

definition traceContextHandler_WithAttrs ::
    "('h, 'o) slog_handler \<Rightarrow> 'h traceContextHandler \<Rightarrow> attrs \<Rightarrow> 'h traceContextHandler" where
  "traceContextHandler_WithAttrs I h as = TraceContextHandler (sh_WithAttrs I (tch_inner h) as)"

definition traceContextHandler_WithGroup ::
    "('h, 'o) slog_handler \<Rightarrow> 'h traceContextHandler \<Rightarrow> string \<Rightarrow> 'h traceContextHandler" where
  "traceContextHandler_WithGroup I h name = TraceContextHandler (sh_WithGroup I (tch_inner h) name)"

definition trace_handler ::
    "('h, 'o) slog_handler \<Rightarrow> ('h traceContextHandler, span_context \<Rightarrow> 'o) slog_handler" where
  "trace_handler I =
     \<lparr>sh_Enabled = traceContextHandler_Enabled I,
      sh_Handle = (\<lambda>h rec sp. traceContextHandler_Handle I h sp rec),
      sh_WithAttrs = traceContextHandler_WithAttrs I, sh_WithGroup = traceContextHandler_WithGroup I\<rparr>"


subsection \<open>Telemetry providers (\<open>otel.go\<close>)\<close>

datatype otel_call =
    NewTracerProvider
  | NewMeterProvider
  | SetTracerProvider
  | SetMeterProvider
  | SetTextMapPropagator
  | TracerShutdown
  | MeterShutdown

text \<open>What the dependencies and the two \<open>Shutdown\<close> methods answer.\<close>

record telemetry_deps =
  td_buildResource :: "go_error option"
  td_newTraceExporter :: "go_error option"
  td_newMetricExporter :: "go_error option"
  td_tracerShutdown :: "go_error option"
  td_meterShutdown :: "go_error option"

text \<open>\<open>errors.Join\<close> of two errors, either of which may be nil.\<close>

definition errors_Join :: "go_error option \<Rightarrow> go_error option \<Rightarrow> go_error option" where
  "errors_Join a b =
     (case (a, b) of
        (Some x, Some y) \<Rightarrow> Some (Joined x y)
      | (Some x, None) \<Rightarrow> Some x
      | (None, y) \<Rightarrow> y)"

text \<open>The returned shutdown function, on the calls made so far.\<close>

definition telemetry_shutdown :: "telemetry_deps \<Rightarrow> otel_call list \<Rightarrow> go_error option \<times> otel_call list" where
  "telemetry_shutdown deps calls =
     (errors_Join (td_tracerShutdown deps) (td_meterShutdown deps), calls @ [TracerShutdown, MeterShutdown])"

definition initTelemetry :: "telemetry_deps \<Rightarrow> otel_call list \<Rightarrow>
    (otel_call list \<Rightarrow> go_error option \<times> otel_call list) res \<times> otel_call list" where
  "initTelemetry deps calls =
     (case td_buildResource deps of
        Some err \<Rightarrow> (Err (Wrapped ''building otel resource'' err), calls)
      | None \<Rightarrow>
     (case td_newTraceExporter deps of
        Some err \<Rightarrow> (Err (Wrapped ''creating trace exporter'' err), calls)
      | None \<Rightarrow>
     (case td_newMetricExporter deps of
        Some err \<Rightarrow>
          (Err (the (errors_Join (Some (Wrapped ''creating metric exporter'' err)) (td_tracerShutdown deps))),
           calls @ [NewTracerProvider, TracerShutdown])
      | None \<Rightarrow>
          (Ok (telemetry_shutdown deps),
           calls @ [NewTracerProvider, NewMeterProvider, SetTracerProvider, SetMeterProvider,
                    SetTextMapPropagator]))))"







subsection \<open>The start of \<open>main\<close>\<close>






subsection \<open>Integer variables\<close>

lemma foldl_digits: "foldl (\<lambda>a c. 10 * a + digit_val c) n s = n * 10 ^ length s + digits_val s"
proof (induction s arbitrary: n)
  case (Cons c s)
  show ?case using Cons [of "10 * n + digit_val c"] Cons [of "digit_val c"]
    by (simp add: digits_val_def algebra_simps)
qed (simp add: digits_val_def)

lemma parse_uint32_digits:
  "list_all is_digit s \<Longrightarrow> parse_uint32 s n =
     (let m = n * 10 ^ length s + digits_val s in
      if s \<noteq> [] \<and> 2 ^ 32 - 1 < m then Inl ErrRange else Inr m)"
proof (induction s arbitrary: n)
  case (Cons c s)
  have m: "(10 * n + digit_val c) * 10 ^ length s + digits_val s = n * 10 ^ length (c # s) + digits_val (c # s)"
    using foldl_digits [of n "c # s"] foldl_digits [of "10 * n + digit_val c" s] by simp
  have "10 * n + digit_val c \<le> (10 * n + digit_val c) * 10 ^ length s + digits_val s"
    by (simp add: trans_le_add1)
  with Cons m show ?case by (auto simp: Let_def digits_val_def)
qed (simp add: digits_val_def)

definition int_text :: "int \<Rightarrow> string" where
  "int_text n = (if n < 0 then ''-'' else '''') @ itoa (nat \<bar>n\<bar>)"

lemma itoa_head: "\<exists>c r. itoa n = c # r \<and> is_digit c"
  using itoa_digits [of n] by (cases "itoa n") auto

lemma ParseInt32_text:
  "ParseInt32 (int_text n) = (if - 2147483648 \<le> n \<and> n < 2147483648 then Inr n else Inl ErrRange)"
proof -
  obtain c r where c: "itoa (nat \<bar>n\<bar>) = c # r" "is_digit c" using itoa_head by blast
  then have ne: "c \<noteq> CHR ''-''" "c \<noteq> CHR ''+''" by (auto simp: is_digit_def)
  have "list_all is_digit (itoa (nat \<bar>n\<bar>))" using itoa_digits by (simp add: list_all_iff)
  then have p: "parse_uint32 (itoa (nat \<bar>n\<bar>)) 0 =
      (if 2 ^ 32 - 1 < nat \<bar>n\<bar> then Inl ErrRange else Inr (nat \<bar>n\<bar>))"
    by (simp add: parse_uint32_digits Let_def)
  have "split_sign (int_text n) = (n < 0, itoa (nat \<bar>n\<bar>))"
    using c(1) ne by (auto simp: split_sign_def int_text_def)
  moreover have "int_text n \<noteq> []" by (simp add: int_text_def)
  ultimately show ?thesis by (auto simp: ParseInt32_def p)
qed

text \<open>A pool size given as a decimal number is read back exactly when it fits a signed
  32-bit integer, and refused with the range error of \<open>strconv\<close> otherwise; it never wraps.\<close>

lemma pool_size_read:
  assumes "getenv name = int_text n"
  shows "env_int getenv name dflt =
      (if - 2147483648 \<le> n \<and> n < 2147483648 then Ok (word_of_int n)
       else Err (Wrapped (''invalid '' @ name @ '' '' @ go_quote (int_text n)) (num_error_of (int_text n) ErrRange))) \<and>
    (- 2147483648 \<le> n \<and> n < 2147483648 \<longrightarrow> sint (word_of_int n :: 32 word) = n)"
proof -
  have "int_text n \<noteq> []" by (simp add: int_text_def)
  then show ?thesis
    using assms by (simp add: env_int_def ParseInt32_text Let_def sint_sbintrunc' signed_take_bit_int_eq_self)
qed

subsection \<open>Duration variables\<close>

lemma leadingInt_digits:
  "list_all is_digit s \<Longrightarrow> \<not> is_digit u \<Longrightarrow> n * 10 ^ length s + digits_val s \<le> 2 ^ 63 \<Longrightarrow>
     leadingInt (s @ u # r) n = Some (n * 10 ^ length s + digits_val s, u # r)"
proof (induction s arbitrary: n)
  case Nil
  then show ?case by (simp add: digits_val_def)
next
  case (Cons c s)
  have m: "(10 * n + digit_val c) * 10 ^ length s + digits_val s = n * 10 ^ length (c # s) + digits_val (c # s)"
    using foldl_digits [of n "c # s"] foldl_digits [of "10 * n + digit_val c" s] by simp
  have "10 * n + digit_val c \<le> (10 * n + digit_val c) * 10 ^ length s + digits_val s"
    by (simp add: trans_le_add1)
  then have le: "10 * n + digit_val c \<le> 2 ^ 63" using Cons.prems(3) m by linarith
  then have "n \<le> 2 ^ 63 div 10" by (simp add: less_eq_div_iff_mult_less_eq)
  with Cons le m show ?case by (simp add: not_less)
qed

lemma leadingInt_overflow:
  "list_all is_digit s \<Longrightarrow> 2 ^ 63 < n * 10 ^ length s + digits_val s \<Longrightarrow> n \<le> 2 ^ 63 \<Longrightarrow> leadingInt (s @ r) n = None"
proof (induction s arbitrary: n)
  case Nil
  then show ?case by (simp add: digits_val_def)
next
  case (Cons c s)
  have m: "(10 * n + digit_val c) * 10 ^ length s + digits_val s = n * 10 ^ length (c # s) + digits_val (c # s)"
    using foldl_digits [of n "c # s"] foldl_digits [of "10 * n + digit_val c" s] by simp
  with Cons show ?case by (auto simp: not_less)
qed

lemma seconds_term:
  "duration_term orig (itoa n @ ''s'') =
     (if n * 10 ^ 9 \<le> 2 ^ 63 then Inr (n * 10 ^ 9, []) else Inl (invalid_duration orig))"
proof -
  have d: "list_all is_digit (itoa n)" using itoa_digits by (simp add: list_all_iff)
  have s: "\<not> is_digit CHR ''s''" "\<not> duration_text_char CHR ''s''" by (simp_all add: is_digit_def duration_text_char_def)
  obtain c r where c: "itoa n = c # r" "is_digit c" using itoa_head by blast
  have h: "duration_text_char (hd (itoa n @ ''s''))" using c by (simp add: duration_text_char_def)
  have u: "unitMap ''s'' = Some (10 ^ 9)" by (simp add: unitMap_def)
  have div: "2 ^ 63 div 10 ^ 9 < n \<longleftrightarrow> \<not> n * 10 ^ 9 \<le> (2 ^ 63 :: nat)"
    using less_eq_div_iff_mult_less_eq [of "10 ^ 9 :: nat" n "2 ^ 63"] by (simp only: not_le [symmetric]) simp
  show ?thesis
  proof (cases "n \<le> 2 ^ 63")
    case True
    then have "leadingInt (itoa n @ ''s'') 0 = Some (n, ''s'')"
      using leadingInt_digits [OF d s(1), of 0 "[]"] by simp
    with h s u div show ?thesis
      by (simp add: duration_term_def Let_def)
  next
    case False
    then have "leadingInt (itoa n @ ''s'') 0 = None"
      using leadingInt_overflow [OF d, of 0] by simp
    with h False show ?thesis by (simp add: duration_term_def)
  qed
qed

lemma ParseDuration_seconds:
  "ParseDuration (itoa n @ ''s'') =
     (if n * 10 ^ 9 < 2 ^ 63 then Ok (word_of_nat (n * 10 ^ 9)) else Err (invalid_duration (itoa n @ ''s'')))"
proof -
  obtain c r where c: "itoa n = c # r" "is_digit c" using itoa_head by blast
  then have "c \<noteq> CHR ''-''" "c \<noteq> CHR ''+''" by (auto simp: is_digit_def)
  with c(1) have sp: "split_sign (itoa n @ ''s'') = (False, itoa n @ ''s'')" by (simp add: split_sign_def)
  have "itoa n @ ''s'' \<noteq> ''0''" using c(1) by (cases r) auto
  moreover have "itoa n @ ''s'' \<noteq> []" by simp
  ultimately show ?thesis
    using sp by (simp add: ParseDuration_def duration_sum.simps seconds_term)
qed

lemma sint_word_of_nat:
  assumes "m < 2 ^ 63"
  shows "sint (word_of_nat m :: 64 word) = int m"
proof -
  have "sint (word_of_int (int m) :: 64 word) = int m"
    using assms by (subst sint_sbintrunc') (simp add: signed_take_bit_int_eq_self)
  then show ?thesis by simp
qed

text \<open>A lifetime given in whole seconds is read as exactly that many nanoseconds as long as
  they fit a signed 64-bit duration, and refused as invalid otherwise; it never wraps.\<close>

lemma lifetime_read:
  assumes "getenv name = itoa n @ ''s''"
  shows "env_duration getenv name dflt =
      (if n * 10 ^ 9 < 2 ^ 63 then Ok (word_of_nat (n * 10 ^ 9))
       else Err (Wrapped (''invalid '' @ name @ '' '' @ go_quote (itoa n @ ''s'')) (invalid_duration (itoa n @ ''s'')))) \<and>
    (n * 10 ^ 9 < 2 ^ 63 \<longrightarrow> sint (word_of_nat (n * 10 ^ 9) :: 64 word) = int n * 10 ^ 9)"
proof (rule conjI; (rule impI)?)
  show "env_duration getenv name dflt =
      (if n * 10 ^ 9 < 2 ^ 63 then Ok (word_of_nat (n * 10 ^ 9))
       else Err (Wrapped (''invalid '' @ name @ '' '' @ go_quote (itoa n @ ''s'')) (invalid_duration (itoa n @ ''s''))))"
    using assms by (simp add: env_duration_def ParseDuration_seconds Let_def)
  assume "n * 10 ^ 9 < 2 ^ 63"
  from sint_word_of_nat [OF this] show "sint (word_of_nat (n * 10 ^ 9) :: 64 word) = int n * 10 ^ 9" by simp
qed

text \<open>C38. Numbers are read exactly or refused, and never wrap.  A pool size given as a decimal number
  is read back exactly when it fits a signed 32-bit integer, and a lifetime given in whole seconds
  as exactly that many nanoseconds when they fit a signed 64-bit duration; otherwise the
  configuration is refused with the error of \<open>strconv\<close> or of \<open>time\<close>.\<close>

theorem variables_read:
  assumes "getenv limit = int_text n" "getenv lifetime = itoa m @ ''s''"
  shows "env_int getenv limit dflt =
      (if - 2147483648 \<le> n \<and> n < 2147483648 then Ok (word_of_int n)
       else Err (Wrapped (''invalid '' @ limit @ '' '' @ go_quote (int_text n)) (num_error_of (int_text n) ErrRange))) \<and>
    (- 2147483648 \<le> n \<and> n < 2147483648 \<longrightarrow> sint (word_of_int n :: 32 word) = n) \<and>
    env_duration getenv lifetime dflt' =
      (if m * 10 ^ 9 < 2 ^ 63 then Ok (word_of_nat (m * 10 ^ 9))
       else Err (Wrapped (''invalid '' @ lifetime @ '' '' @ go_quote (itoa m @ ''s'')) (invalid_duration (itoa m @ ''s'')))) \<and>
    (m * 10 ^ 9 < 2 ^ 63 \<longrightarrow> sint (word_of_nat (m * 10 ^ 9) :: 64 word) = int m * 10 ^ 9)"
  using pool_size_read [of getenv limit n dflt, OF assms(1)] lifetime_read [of getenv lifetime m dflt', OF assms(2)]
  by blast

theorem variables_read_witness:
  "let getenv = (\<lambda>name. if name = ''DB_MAX_CONN_LIFETIME'' then ''90s'' else ''2147483648'') in
   env_int getenv ''DB_MAX_CONNECTIONS'' 3 =
     Err (Wrapped (''invalid DB_MAX_CONNECTIONS '' @ go_quote ''2147483648'') (num_error_of ''2147483648'' ErrRange)) \<and>
   env_duration getenv ''DB_MAX_CONN_LIFETIME'' 7 = Ok 90000000000"
proof -
  let ?getenv = "\<lambda>name. if name = ''DB_MAX_CONN_LIFETIME'' then ''90s'' else ''2147483648''"
  have t: "''2147483648'' = int_text 2147483648" "''90s'' = itoa 90 @ ''s''"
    by (simp_all add: int_text_def itoa.simps digit_char_def char_of_def bit_0)
  then have g: "?getenv ''DB_MAX_CONNECTIONS'' = int_text 2147483648" "?getenv ''DB_MAX_CONN_LIFETIME'' = itoa 90 @ ''s''"
    by simp_all
  from variables_read [of ?getenv, OF g, of 3 7] show ?thesis by (simp add: t [symmetric])
qed

subsection \<open>The configuration\<close>









subsection \<open>Start-up\<close>

text \<open>Providers made and not shut down.\<close>

definition live_providers :: "otel_call list \<Rightarrow> int" where
  "live_providers calls =
     int (count_list calls NewTracerProvider) - int (count_list calls TracerShutdown) +
     (int (count_list calls NewMeterProvider) - int (count_list calls MeterShutdown))"

text \<open>C39. Telemetry starts whole or not at all.  When an exporter or the resource fails, nothing
  is registered globally, every provider already made is shut down, and the error wraps exactly
  the errors of the failing step and of that shutdown; otherwise both providers are live and
  registered, and the returned function shuts both down, reporting the errors of either.\<close>

theorem telemetry_all_or_nothing:
  "case initTelemetry deps [] of (r, calls) \<Rightarrow>
     (is_Ok r \<longleftrightarrow> td_buildResource deps = None \<and> td_newTraceExporter deps = None \<and> td_newMetricExporter deps = None) \<and>
     (if is_Ok r then live_providers calls = 2 \<and> {SetTracerProvider, SetMeterProvider, SetTextMapPropagator} \<subseteq> set calls
      else live_providers calls = 0 \<and> {SetTracerProvider, SetMeterProvider, SetTextMapPropagator} \<inter> set calls = {}) \<and>
     (case r of
        Ok shutdown \<Rightarrow> live_providers (snd (shutdown calls)) = 0 \<and>
          (fst (shutdown calls) = None \<longleftrightarrow> td_tracerShutdown deps = None \<and> td_meterShutdown deps = None)
      | Err e \<Rightarrow> (\<forall>s. errors_Is e s \<longleftrightarrow> list_ex (\<lambda>x. errors_Is x s)
          (case (td_buildResource deps, td_newTraceExporter deps) of
             (Some x, _) \<Rightarrow> [x] | (None, Some x) \<Rightarrow> [x]
           | (None, None) \<Rightarrow> concat (map (case_option [] (\<lambda>x. [x])) [td_newMetricExporter deps, td_tracerShutdown deps])))
      | Panicked m \<Rightarrow> False)"
  by (auto simp: initTelemetry_def live_providers_def telemetry_shutdown_def errors_Join_def
      split: option.split)



end
