(* ===== verification/Entities.thy ===== *)
theory Entities
  imports Withdraw
begin

text \<open>
  Properties of the domain entities and of request validation: the life of a position as a state
  machine over its constructors and mutators, what reconstruction accepts, and each validator
  against a table of its checks.
\<close>

subsection \<open>The life of a position\<close>

definition start_of_time :: gotime where
  "start_of_time = \<lparr>t_sec = 0, t_nsec = 0, t_off = 0\<rparr>"

text \<open>One successful mutator.\<close>

inductive position_step :: "'d decimal_lib \<Rightarrow> 'd position \<Rightarrow> 'd position \<Rightarrow> bool" for D where
  amount: "UpdateAmount D now p x = Ok q \<Longrightarrow> position_step D p q"
| collateral: "UpdateCollateral D now p x = Ok q \<Longrightarrow> position_step D p q"
| judiciary: "UpdateJudiciaryCollateral D now p x = Ok q \<Longrightarrow> position_step D p q"

inductive_cases position_stepE: "position_step D p q"

text \<open>A position that is created, or read back, and then mutated \<open>n\<close> times.\<close>

inductive position_run :: "'d decimal_lib \<Rightarrow> 'd position \<Rightarrow> nat \<Rightarrow> 'd position \<Rightarrow> bool" for D where
  created: "NewPosition D u now c a amt pr t = Ok p \<Longrightarrow> position_run D p 0 p"
| loaded: "ReconstructPosition D i c a amt pr tot col jud cr up pu rv = Ok p \<Longrightarrow> position_run D p 0 p"
| mutated: "position_run D p n q \<Longrightarrow> position_step D q q' \<Longrightarrow> position_run D p (Suc n) q'"

context decimal_arith begin

lemma position_step_inv: "position_step D p q \<Longrightarrow> position_inv val p \<Longrightarrow> position_inv val q"
  by (erule position_stepE) (auto dest: UpdateAmount_inv UpdateCollateral_inv UpdateJudiciaryCollateral_inv)

lemma position_run_inv: "position_run D p n q \<Longrightarrow> position_inv val q"
  by (induction rule: position_run.induct)
    (auto dest: NewPosition_inv ReconstructPosition_inv position_step_inv)

end

lemma position_step_frame:
  "position_step D p q \<Longrightarrow>
     pos_positionID q = pos_positionID p \<and> pos_clientID q = pos_clientID p \<and> pos_assetID q = pos_assetID p \<and>
     pos_unitPrice q = pos_unitPrice p \<and> pos_createdAt q = pos_createdAt p \<and>
     pos_purchasedAt q = pos_purchasedAt p \<and> pos_rowVersion q = pos_rowVersion p + 1"
  by (erule position_stepE) (auto simp: domain_simps split: if_splits)

text \<open>C24. A position is consistent through its whole life.  However it was created or read back
  and whichever mutators succeeded on it, its amount, price and blocked values are non-negative
  and its total value is amount times price; its identity, owner, asset, price, creation and
  purchase time never change; and its version is the first one plus the number of mutations,
  modulo the width of the integer.\<close>

theorem position_life:
  assumes "decimal_arith D val" "position_run D p n q"
  shows "position_inv val q \<and>
    pos_positionID q = pos_positionID p \<and> pos_clientID q = pos_clientID p \<and> pos_assetID q = pos_assetID p \<and>
    pos_unitPrice q = pos_unitPrice p \<and> pos_createdAt q = pos_createdAt p \<and>
    pos_purchasedAt q = pos_purchasedAt p \<and> pos_rowVersion q = pos_rowVersion p + word_of_nat n"
proof -
  have "pos_positionID q = pos_positionID p \<and> pos_clientID q = pos_clientID p \<and> pos_assetID q = pos_assetID p \<and>
    pos_unitPrice q = pos_unitPrice p \<and> pos_createdAt q = pos_createdAt p \<and>
    pos_purchasedAt q = pos_purchasedAt p \<and> pos_rowVersion q = pos_rowVersion p + word_of_nat n"
    using assms(2) by (induction rule: position_run.induct) (auto dest!: position_step_frame)
  with decimal_arith.position_run_inv [OF assms] show ?thesis by simp
qed

theorem position_life_witness:
  "\<exists>p q. position_run ref_decimal p 2 q \<and> pos_rowVersion q = 3 \<and>
     pos_amount q = (1, 0) \<and> position_inv ref_val q"
proof -
  obtain p where p: "NewPosition ref_decimal 1 start_of_time 7 9 (2, 0) (3, 0) start_of_time = Ok p" "pos_rowVersion p = 1"
    by (simp add: domain_simps ref_decimal_def)
  obtain q1 where q1: "UpdateCollateral ref_decimal start_of_time p (1, 0) = Ok q1"
    by (simp add: domain_simps ref_decimal_def)
  obtain q where q: "UpdateAmount ref_decimal start_of_time q1 (1, 0) = Ok q" "pos_amount q = (1, 0)"
    by (simp add: domain_simps ref_decimal_def)
  have run: "position_run ref_decimal p (Suc (Suc 0)) q"
    by (rule position_run.mutated [OF position_run.mutated [OF position_run.created [OF p(1)]
          position_step.collateral [OF q1]] position_step.amount [OF q(1)]])
  from position_life [OF refd.decimal_arith_axioms run] p(2) q(2) run show ?thesis
    by (metis numeral_2_eq_2 one_plus_numeral of_nat_numeral add_One semiring_norm(2,3))
qed

text \<open>C25. Reconstruction is the inverse of reading the fields.  Handing the fields of a position
  to \<open>ReconstructPosition\<close> gives that position back exactly when it is consistent, and is
  refused with a validation error otherwise, so no inconsistent stored row enters the domain.\<close>

theorem reconstruct_exact:
  assumes "decimal_arith D val"
  shows "ReconstructPosition D (pos_positionID p) (pos_clientID p) (pos_assetID p) (pos_amount p)
      (pos_unitPrice p) (pos_totalValue p) (pos_collateralValue p) (pos_judiciaryCollateralValue p)
      (pos_createdAt p) (pos_updatedAt p) (pos_purchasedAt p) (pos_rowVersion p) = r \<Longrightarrow>
    if position_inv val p then r = Ok p else (\<exists>m. r = Err (ValidationError m))"
  using assms
  by (cases p) (auto simp: domain_simps position_inv_def decimal_arith.val_simps)

theorem reconstruct_exact_witness:
  "\<exists>m. ReconstructPosition ref_decimal 1 7 9 (2, 0) (3, 0) (7, 0) (0, 0) (0, 0)
     start_of_time start_of_time start_of_time 1 = Err (ValidationError m)"
proof -
  let ?p = "\<lparr>pos_positionID = 1, pos_clientID = 7, pos_assetID = 9, pos_amount = (2, 0), pos_unitPrice = (3, 0),
    pos_totalValue = (7, 0), pos_collateralValue = (0, 0), pos_judiciaryCollateralValue = (0, 0),
    pos_createdAt = start_of_time, pos_updatedAt = start_of_time, pos_purchasedAt = start_of_time, pos_rowVersion = 1\<rparr>"
  show ?thesis
    using reconstruct_exact [OF refd.decimal_arith_axioms refl, of ?p] by (simp add: position_inv_def)
qed

subsection \<open>Validators against tables of checks\<close>










end
