(* ===== verification/Repository_Properties.thy ===== *)
theory Repository_Properties
  imports Accounts
begin

text \<open>
  Properties of the Postgres adapters on their own: optimistic locking, the order and completeness
  of the lot query, what is read back after a write, the duplicate that idempotence rests on, and
  the atomicity of a unit of work.
\<close>

subsection \<open>Optimistic locking\<close>

lemma update_position_stale:
  assumes "update_position E S p d = Ok (n, d1)" "0 < n"
    and q: "pos_positionID q = pos_positionID p" "pos_rowVersion q = pos_rowVersion p"
  shows "update_position E S q d1 = Ok (0, d1)"
  using assms(1)
proof (cases rule: update_position_cases)
  case (2 cols)
  note v = int4_pred [OF 2(3,4)]
  have m: "update_matches q = update_matches p" by (rule ext) (simp add: update_matches_def q)
  have "\<not> update_matches q r" if "r \<in> set (db_positions d1)" for r
    using that v by (auto simp: 2(6) m) (auto simp: update_matches_def)
  then have "filter (update_matches q) (db_positions d1) = []" by (simp add: filter_empty_conv)
  then show ?thesis using 2(3,4) by (simp add: update_position_def q(2))
qed (use assms(2) in simp)

lemma executor_write_through:
  "ctx_tx ctx \<longrightarrow> st_tx (w_store w) \<noteq> None \<Longrightarrow> executorFromContext ctx (w_store (write_through ctx d w)) = d"
  by (auto simp: executorFromContext_def write_through_def)

lemma quiet_PositionRepository_Update:
  assumes "quiet S" "update_position E S p (executorFromContext ctx (w_store w)) = Ok (n, d)"
  shows "\<exists>v. PositionRepository_Update E S ctx p w =
      (if n = 0 then Err (Wrapped (''position '' @ e_uuidString E (pos_positionID p)) (Sentinel ErrConcurrencyConflict))
       else Ok (), v) \<and> w_store v = w_store (write_through ctx d w)"
  using assms
  by (auto simp: PositionRepository_Update_def quiet_exec endDBSpan_def write_through_def)

text \<open>C14. No update is lost.  Of two writers that read the same version of a lot, the second to
  write is refused with a concurrency conflict and changes nothing, whatever it wanted to store.\<close>

theorem no_lost_update:
  assumes "quiet S" "PositionRepository_Update E S ctx p w = (Ok (), w1)"
    and "ctx_tx ctx \<longrightarrow> st_tx (w_store w) \<noteq> None"
    and "pos_positionID q = pos_positionID p" "pos_rowVersion q = pos_rowVersion p"
  shows "\<exists>e w2. PositionRepository_Update E S ctx q w1 = (Err e, w2) \<and> errors_Is e ErrConcurrencyConflict \<and>
    w_store w2 = w_store w1"
proof -
  let ?d = "executorFromContext ctx (w_store w)"
  obtain n d where d: "update_position E S p ?d = Ok (n, d)" "n \<noteq> 0" and w1: "w_store w1 = w_store (write_through ctx d w)"
    using assms(1,2)
    by (auto simp: PositionRepository_Update_def quiet_exec endDBSpan_def write_through_def
        split: res.splits prod.splits if_splits)
  have ex: "executorFromContext ctx (w_store w1) = d" using executor_write_through [OF assms(3)] by (simp add: w1)
  have "update_position E S q (executorFromContext ctx (w_store w1)) = Ok (0, d)"
    using update_position_stale [OF d(1) _ assms(4,5)] d(2) ex by simp
  from quiet_PositionRepository_Update [OF assms(1) this] obtain v where
    "PositionRepository_Update E S ctx q w1 =
      (Err (Wrapped (''position '' @ e_uuidString E (pos_positionID q)) (Sentinel ErrConcurrencyConflict)), v)"
    "w_store v = w_store (write_through ctx d w1)" by auto
  moreover have "w_store (write_through ctx d w1) = w_store w1"
    using assms(3) by (auto simp: write_through_def w1)
  ultimately show ?thesis by auto
qed

definition reduced_lot :: "refdec position" where
  "reduced_lot = (lot 2 (3, 0) (225, 2) (0, 0))\<lparr>pos_rowVersion := 2\<rparr>"

lemma reduced_lot_stored:
  "\<exists>w1. PositionRepository_Update ref_env ref_server demo_ctx reduced_lot (demo_world demo_lots_db) = (Ok (), w1)"
proof -
  have "position_inv ref_val reduced_lot" by (simp add: position_inv_def reduced_lot_def lot_def)
  then have fits: "fits ref_val reduced_lot" by (simp add: fits_def reduced_lot_def lot_def on_grid_def)
  have m: "demo_row 2 4 1000 \<in> set (db_positions demo_lots_db)" "update_matches reduced_lot (demo_row 2 4 1000)"
    by (simp_all add: demo_lots_db_def demo_db_def update_matches_def reduced_lot_def lot_def demo_row_def)
  have v: "int4_range (sint (pos_rowVersion reduced_lot))" "int4_range (sint (pos_rowVersion reduced_lot - 1))"
    "0 < sint (pos_rowVersion reduced_lot)"
    by (simp_all add: reduced_lot_def lot_def int4_range_def)
  obtain n d where d: "update_position ref_env ref_server reduced_lot demo_lots_db = Ok (n, d)" "0 < n"
    using reft.update_position_quiet [OF ref_fields(1) fits m v] by blast
  have "executorFromContext demo_ctx (w_store (demo_world demo_lots_db)) = demo_lots_db"
    by (simp add: executorFromContext_def demo_ctx_def demo_world_def)
  with quiet_PositionRepository_Update [OF ref_quiet, of ref_env reduced_lot demo_ctx "demo_world demo_lots_db" n d] d
  show ?thesis by auto
qed

theorem no_lost_update_witness:
  "\<exists>w1 e w2. PositionRepository_Update ref_env ref_server demo_ctx reduced_lot (demo_world demo_lots_db) = (Ok (), w1) \<and>
     PositionRepository_Update ref_env ref_server demo_ctx reduced_lot w1 = (Err e, w2) \<and>
     errors_Is e ErrConcurrencyConflict \<and> w_store w2 = w_store w1"
proof -
  obtain w1 where run: "PositionRepository_Update ref_env ref_server demo_ctx reduced_lot (demo_world demo_lots_db) = (Ok (), w1)"
    using reduced_lot_stored by blast
  show ?thesis using no_lost_update [OF ref_quiet run _ refl refl] run demo_ctx_tx by blast
qed

subsection \<open>The lot query\<close>

text \<open>C20. The lot query is complete and in FIFO order.  When it succeeds, under any interference, it
  gives each of the client's lots of the instrument once, as stored, and no other, sorted by
  purchase time, with lots bought at the same instant in the order of the table.\<close>

theorem lots_in_order:
  assumes "pg_text D val S" "e_dec E = D"
    and "PositionRepository_FindByClientAndInstrument E S ctx c i w = (Ok ps, w')"
    and "db_ok (executorFromContext ctx (w_store w'))"
  defines "d \<equiv> executorFromContext ctx (w_store w')"
  shows "\<exists>rows. list_all2 (represents val) rows ps \<and> mset rows = mset (filter (lot_of c i d) (db_positions d)) \<and>
    sorted (map (\<lambda>r. instant (p_purchased_at r)) rows) \<and>
    (\<forall>t. filter (\<lambda>r. instant (p_purchased_at r) = t) rows =
       filter (\<lambda>r. lot_of c i d r \<and> instant (p_purchased_at r) = t) (db_positions d))"
proof -
  obtain f v where v: "pg_call S (startDBSpan ''db.position.find_by_client_and_instrument'' ''SELECT'' w) = (f, v)" by fastforce
  let ?rows = "select_lots c i (executorFromContext ctx (w_store v))"
  have run: "f = None \<and> w_store w' = w_store v \<and>
      (\<exists>rs err. fetch_rows S (w_tick w) ?rows = (rs, err) \<and> collectPositions E S rs err = Ok ps)"
    using assms(3) v
    by (cases f) (auto simp: PositionRepository_FindByClientAndInstrument_def pg_query_def
        dest!: endDBSpan_fields split: prod.splits)
  then have "collectPositions E S (select_lots c i d) None = Ok ps"
    using collectPositions_Ok_None fetch_rows_None by (fastforce simp: d_def)
  then have "list_all2 (represents val) (select_lots c i d) ps"
    using pg_text.collect_represents [OF assms(1,2)] assms(4) by (simp add: d_def)
  moreover have "select_lots c i d = sort_key (\<lambda>r. instant (p_purchased_at r)) (filter (lot_of c i d) (db_positions d))"
    using select_lots_filter assms(4) by (simp add: d_def)
  moreover have "filter (\<lambda>r. instant (p_purchased_at r) = t)
      (sort_key (\<lambda>r. instant (p_purchased_at r)) (filter (lot_of c i d) (db_positions d))) =
    filter (\<lambda>r. lot_of c i d r \<and> instant (p_purchased_at r) = t) (db_positions d)" for t
    by (simp add: sort_key_stable conj_commute)
  ultimately show ?thesis by (intro exI [of _ "select_lots c i d"]) simp
qed

theorem lots_in_order_witness:
  "\<exists>ps w' rows. PositionRepository_FindByClientAndInstrument ref_env ref_server demo_ctx 7 ''CDB-9'' (demo_world demo_lots_db) =
      (Ok ps, w') \<and> list_all2 (represents ref_val) rows ps \<and>
     mset rows = {#demo_row 1 10 2000, demo_row 2 4 1000#}"
proof -
  have view: "executorFromContext demo_ctx (w_store (demo_world demo_lots_db)) = demo_lots_db"
    by (simp add: executorFromContext_def demo_ctx_def demo_world_def)
  obtain ps where ps: "collectPositions ref_env ref_server (select_lots 7 ''CDB-9'' demo_lots_db) None = Ok ps"
    using reft.collectPositions_Ok [OF ref_fields(1), of "select_lots 7 ''CDB-9'' demo_lots_db"]
      select_lots_rows(3) [OF demo_lots_db_ok] by blast
  then obtain w' where run: "PositionRepository_FindByClientAndInstrument ref_env ref_server demo_ctx 7 ''CDB-9''
      (demo_world demo_lots_db) = (Ok ps, w')" "w_store w' = w_store (demo_world demo_lots_db)"
    using quiet_lots [OF ref_quiet, of ref_env 7 "''CDB-9''" demo_ctx "demo_world demo_lots_db" ps] view by auto
  have lots: "filter_mset (lot_of 7 ''CDB-9'' demo_lots_db) (mset (db_positions demo_lots_db)) =
      {#demo_row 1 10 2000, demo_row 2 4 1000#}"
    by (simp add: lot_of_def demo_lots_db_def demo_db_def demo_asset_def demo_row_def)
  from lots_in_order [OF reft.pg_text_axioms ref_fields(1) run(1)] show ?thesis
    using run view lots demo_lots_db_ok by (auto simp: add_mset_commute)
qed

subsection \<open>Reading back what was written\<close>

lemma filter_key_absent: "k \<notin> f ` set xs \<Longrightarrow> filter (\<lambda>y. f y = k) xs = []"
  by (auto simp: filter_empty_conv)

lemma quiet_exec_Ok:
  "quiet S \<Longrightarrow> pg_exec S ctx x w = (Ok a, v) \<Longrightarrow> ctx_tx ctx \<longrightarrow> st_tx (w_store w) \<noteq> None \<Longrightarrow>
     x (executorFromContext ctx (w_store w)) = Ok (a, executorFromContext ctx (w_store v))"
  using executor_write_through [of ctx "next_tick w"]
  by (auto simp: quiet_exec split: res.splits prod.splits)

text \<open>A position whose values fit the columns, once inserted, is found by its id.\<close>

lemma position_read_back:
  assumes "pg_text D val S" "e_dec E = D" "quiet S"
    and "PositionRepository_Create E S ctx p w = (Ok (), w1)" "ctx_tx ctx \<longrightarrow> st_tx (w_store w) \<noteq> None"
    and "fits val p"
  shows "\<exists>q w2. PositionRepository_FindByID E S ctx (pos_positionID p) w1 = (Ok q, w2) \<and>
    pos_positionID q = pos_positionID p \<and> pos_clientID q = pos_clientID p \<and> pos_assetID q = pos_assetID p \<and>
    val (pos_amount q) = val (pos_amount p) \<and> val (pos_unitPrice q) = val (pos_unitPrice p) \<and>
    val (pos_totalValue q) = val (pos_totalValue p) \<and> val (pos_collateralValue q) = val (pos_collateralValue p) \<and>
    val (pos_judiciaryCollateralValue q) = val (pos_judiciaryCollateralValue p) \<and>
    pos_createdAt q = sv_timestamptz S (pos_createdAt p) \<and> pos_updatedAt q = sv_timestamptz S (pos_updatedAt p) \<and>
    pos_purchasedAt q = sv_timestamptz S (pos_purchasedAt p) \<and> sint (pos_rowVersion q) = sint (pos_rowVersion p)"
proof -
  let ?cols = "(val (pos_amount p), val (pos_unitPrice p), val (pos_totalValue p),
    val (pos_collateralValue p), val (pos_judiciaryCollateralValue p))"
  let ?r = "inserted_row S p ?cols" and ?d = "executorFromContext ctx (w_store w)"
    and ?d1 = "executorFromContext ctx (w_store w1)"
  have cols: "numeric_columns E S p = Ok ?cols" by (rule pg_text.numeric_columns_fits [OF assms(1,6,2)])
  obtain v where v: "pg_exec S ctx (insert_position E S p) (startDBSpan ''db.position.create'' ''INSERT'' w) = (Ok (), v)"
    "w_store w1 = w_store v"
    using assms(4) by (auto simp: PositionRepository_Create_def dest!: endDBSpan_fields split: res.splits prod.splits)
  have "insert_position E S p ?d = Ok ((), ?d1)"
    using quiet_exec_Ok [OF assms(3) v(1)] assms(5) v(2) by simp
  then have ins: "int4_range (sint (pos_rowVersion p))" "position_checks ?r"
    "pos_positionID p \<notin> p_position_id ` set (db_positions ?d)" "db_positions ?d1 = db_positions ?d @ [?r]"
    unfolding insert_position_Ok_iff using cols by auto
  have sel: "select_position (pos_positionID p) ?d1 = Ok ?r"
    by (simp add: select_position_def ins(4) filter_key_absent [OF ins(3)] inserted_row_def)
  obtain q where q: "scanPosition E S ?r = Ok q" "represents val ?r q"
    using pg_text.scanPosition_Ok [OF assms(1,2) ins(2) inserted_row_typed [OF cols ins(1)]] by blast
  have "\<exists>w2. PositionRepository_FindByID E S ctx (pos_positionID p) w1 = (Ok q, w2)"
    by (simp add: PositionRepository_FindByID_def quiet_query [OF assms(3)] sel q(1))
  with q(2) show ?thesis by (auto simp: represents_def inserted_row_def)
qed

definition bought_lot :: "refdec position" where
  "bought_lot = lot 3 (4, 0) (225, 2) (0, 0)"

lemma bought_lot_fits: "fits ref_val bought_lot"
  by (simp add: fits_def position_inv_def bought_lot_def lot_def on_grid_def)

lemma bought_lot_created:
  "\<exists>w1. PositionRepository_Create ref_env ref_server demo_ctx bought_lot (demo_world demo_db) = (Ok (), w1)"
proof -
  have "int4_range (sint (pos_rowVersion bought_lot))" "0 < sint (pos_rowVersion bought_lot)"
    "pos_positionID bought_lot \<notin> p_position_id ` set (db_positions demo_db)"
    "pos_clientID bought_lot \<in> c_client_id ` set (db_clients demo_db)"
    "pos_assetID bought_lot \<in> a_asset_id ` set (db_assets demo_db)"
    by (simp_all add: bought_lot_def lot_def int4_range_def demo_db_def demo_client_def demo_asset_def)
  then obtain d' where "insert_position ref_env ref_server bought_lot demo_db = Ok ((), d')"
    using reft.insert_position_fits [OF bought_lot_fits ref_fields(1)] by metis
  then show ?thesis
    by (simp add: PositionRepository_Create_def quiet_exec [OF ref_quiet] endDBSpan_def executorFromContext_def
        demo_ctx_def demo_world_def)
qed

text \<open>An asset, once inserted, is found by its id.\<close>

lemma asset_read_back:
  assumes "quiet S" "AssetRepository_Create E S ctx a w = (Ok (), w1)" "ctx_tx ctx \<longrightarrow> st_tx (w_store w) \<noteq> None"
  shows "\<exists>w2. AssetRepository_FindByID E S ctx (as_assetID a) w1 =
      (Ok (a\<lparr>as_issuanceDate := sv_date S (as_issuanceDate a), as_maturityDate := sv_date S (as_maturityDate a),
             as_createdAt := sv_timestamptz S (as_createdAt a)\<rparr>), w2) \<and>
    is_Ok (ValidateProductType (as_productType a))"
proof -
  let ?d = "executorFromContext ctx (w_store w)" and ?d1 = "executorFromContext ctx (w_store w1)"
  have "insert_asset S a ?d = Ok ((), ?d1)"
    using assms(2) by (intro quiet_exec_Ok [OF assms(1) _ assms(3)])
      (auto simp: AssetRepository_Create_def split: res.splits prod.splits)
  then have ins: "asset_checks (asset_row_of S a)" "as_assetID a \<notin> a_asset_id ` set (db_assets ?d)"
    "db_assets ?d1 = db_assets ?d @ [asset_row_of S a]"
    by (auto simp: insert_asset_def list_ex_key split: if_splits dest!: sym [of _ ?d1])
  have "select_asset (\<lambda>r. a_asset_id r = as_assetID a) ?d1 = Ok (asset_row_of S a)"
    by (simp add: select_asset_def ins(3) filter_key_absent [OF ins(2)] asset_row_of_def)
  moreover have "is_Ok (ValidateProductType (as_productType a))"
    using ins(1) by (simp add: asset_checks_def asset_row_of_def ValidateProductType_def validProductTypes_def)
  ultimately show ?thesis
    by (cases a) (simp add: AssetRepository_FindByID_def quiet_query [OF assms(1)] scanAsset_def endDBSpan_def
        asset_row_of_def ReconstructAsset_def)
qed

definition demo_new_asset :: asset where
  "demo_new_asset = \<lparr>as_assetID = 12, as_instrumentID = ''LCI-12'', as_productType = ''LCI'', as_offerID = '''',
     as_emissionEntityID = ''bank'', as_issuerDocumentID = ''doc'', as_marketCode = '''', as_assetName = ''LCI 12'',
     as_issuanceDate = epoch, as_maturityDate = epoch, as_createdAt = epoch\<rparr>"

lemma demo_asset_created:
  "\<exists>w1. AssetRepository_Create ref_env ref_server demo_ctx demo_new_asset (demo_world demo_db) = (Ok (), w1)"
proof -
  have "is_Ok (fst (AssetRepository_Create ref_env ref_server demo_ctx demo_new_asset (demo_world demo_db)))"
    by (simp add: AssetRepository_Create_def quiet_exec [OF ref_quiet] insert_asset_def asset_row_of_def
        asset_checks_def demo_new_asset_def executorFromContext_def demo_ctx_def demo_world_def demo_db_def demo_asset_def)
  then show ?thesis
    by (cases "AssetRepository_Create ref_env ref_server demo_ctx demo_new_asset (demo_world demo_db)") (auto simp: is_Ok_iff)
qed

text \<open>C21. What is stored is found as it was.  After a position whose values fit the columns has been
  inserted, looking it up by its id gives a position with the same identity, owner, asset, values
  and version, and the times as the column keeps them.  After an asset has been inserted, looking
  it up by its id gives every field back, the optional ones too whether they were empty or not,
  with the dates and times as the columns keep them, and its product type is a valid one.\<close>

theorem entities_found:
  assumes "pg_text D val S" "e_dec E = D" "quiet S"
    and "PositionRepository_Create E S ctx p w = (Ok (), w1)" "ctx_tx ctx \<longrightarrow> st_tx (w_store w) \<noteq> None" "fits val p"
    and "AssetRepository_Create E S ctx' a u = (Ok (), u1)" "ctx_tx ctx' \<longrightarrow> st_tx (w_store u) \<noteq> None"
  shows "(\<exists>q w2. PositionRepository_FindByID E S ctx (pos_positionID p) w1 = (Ok q, w2) \<and>
      pos_positionID q = pos_positionID p \<and> pos_clientID q = pos_clientID p \<and> pos_assetID q = pos_assetID p \<and>
      val (pos_amount q) = val (pos_amount p) \<and> val (pos_unitPrice q) = val (pos_unitPrice p) \<and>
      val (pos_totalValue q) = val (pos_totalValue p) \<and> val (pos_collateralValue q) = val (pos_collateralValue p) \<and>
      val (pos_judiciaryCollateralValue q) = val (pos_judiciaryCollateralValue p) \<and>
      pos_createdAt q = sv_timestamptz S (pos_createdAt p) \<and> pos_updatedAt q = sv_timestamptz S (pos_updatedAt p) \<and>
      pos_purchasedAt q = sv_timestamptz S (pos_purchasedAt p) \<and> sint (pos_rowVersion q) = sint (pos_rowVersion p)) \<and>
    (\<exists>u2. AssetRepository_FindByID E S ctx' (as_assetID a) u1 =
        (Ok (a\<lparr>as_issuanceDate := sv_date S (as_issuanceDate a), as_maturityDate := sv_date S (as_maturityDate a),
               as_createdAt := sv_timestamptz S (as_createdAt a)\<rparr>), u2) \<and>
      is_Ok (ValidateProductType (as_productType a)))"
  using position_read_back [OF assms(1-6)] asset_read_back [OF assms(3,7,8)] by blast

theorem entities_found_witness:
  "\<exists>w1 q w2 u1 a u2.
     PositionRepository_Create ref_env ref_server demo_ctx bought_lot (demo_world demo_db) = (Ok (), w1) \<and>
     PositionRepository_FindByID ref_env ref_server demo_ctx 3 w1 = (Ok q, w2) \<and> ref_val (pos_amount q) = 4 \<and>
     AssetRepository_Create ref_env ref_server demo_ctx demo_new_asset (demo_world demo_db) = (Ok (), u1) \<and>
     AssetRepository_FindByID ref_env ref_server demo_ctx 12 u1 = (Ok a, u2) \<and> as_marketCode a = '''' \<and>
     as_issuerDocumentID a = ''doc''"
proof -
  obtain w1 where w1: "PositionRepository_Create ref_env ref_server demo_ctx bought_lot (demo_world demo_db) = (Ok (), w1)"
    using bought_lot_created by blast
  obtain u1 where u1: "AssetRepository_Create ref_env ref_server demo_ctx demo_new_asset (demo_world demo_db) = (Ok (), u1)"
    using demo_asset_created by blast
  have id: "pos_positionID bought_lot = 3" "ref_val (pos_amount bought_lot) = 4" "as_assetID demo_new_asset = 12"
    by (simp_all add: bought_lot_def lot_def demo_new_asset_def)
  have fields: "as_marketCode (demo_new_asset\<lparr>as_issuanceDate := i, as_maturityDate := m, as_createdAt := t\<rparr>) = ''''"
    "as_issuerDocumentID (demo_new_asset\<lparr>as_issuanceDate := i, as_maturityDate := m, as_createdAt := t\<rparr>) = ''doc''" for i m t
    by (simp_all add: demo_new_asset_def)
  have open_tx: "ctx_tx demo_ctx \<longrightarrow> st_tx (w_store (demo_world demo_db)) \<noteq> None" by simp
  note found = entities_found [OF reft.pg_text_axioms ref_fields(1) ref_quiet w1 open_tx bought_lot_fits u1 open_tx,
      unfolded id]
  from conjunct1 [OF found] obtain q w2 where
    "PositionRepository_FindByID ref_env ref_server demo_ctx 3 w1 = (Ok q, w2)" "ref_val (pos_amount q) = 4" by blast
  moreover from conjunct2 [OF found] obtain a u2 where
    "AssetRepository_FindByID ref_env ref_server demo_ctx 12 u1 = (Ok a, u2)" "as_marketCode a = ''''"
    "as_issuerDocumentID a = ''doc''" using fields by blast
  ultimately show ?thesis using w1 u1 by blast
qed


subsection \<open>Lookups\<close>






subsection \<open>The idempotency record\<close>

lemma quiet_command_Create:
  assumes "quiet S" "\<not> ctx_tx ctx"
  shows "\<exists>v. ProcessedCommandRepository_Create E S ctx cmd w =
     ((case insert_command S cmd (st_db (w_store w)) of
        Ok _ \<Rightarrow> Ok ()
      | Err e \<Rightarrow> if errors_As_PgError e = Some pgUniqueViolation
          then Err (Wrapped (command_label (pc_commandType cmd) (pc_orderID cmd)) (Sentinel ErrDuplicate))
          else Err (Wrapped (''inserting processed command '' @ e_uuidString E (pc_commandID cmd)) e)
      | Panicked m \<Rightarrow> Panicked m), v) \<and>
     w_store v = (case insert_command S cmd (st_db (w_store w)) of
        Ok (_, d) \<Rightarrow> (w_store w)\<lparr>st_db := d\<rparr> | _ \<Rightarrow> w_store w)"
  using assms(2)
  by (auto simp: ProcessedCommandRepository_Create_def quiet_exec [OF assms(1)] executorFromContext_def
      endDBSpan_def write_through_def split: res.split)

text \<open>C23. An order id is recorded once.  After a command has been stored outside a transaction, a
  second command of the same type and order id is refused as a duplicate, changes nothing, and
  the record found under that order id is the first one, with the snapshot the column kept.\<close>

theorem command_recorded_once:
  assumes "quiet S" "\<not> ctx_tx ctx" "ProcessedCommandRepository_Create E S ctx cmd w = (Ok (), w1)"
    and "pc_commandType q = pc_commandType cmd" "pc_orderID q = pc_orderID cmd"
    and "sv_jsonb S (pc_responseSnapshot q) \<noteq> None"
  shows "\<exists>e w2 found w3. ProcessedCommandRepository_Create E S ctx q w1 = (Err e, w2) \<and>
    errors_Is e ErrDuplicate \<and> w_store w2 = w_store w1 \<and>
    ProcessedCommandRepository_FindByTypeAndOrderID S ctx (pc_commandType cmd) (pc_orderID cmd) w2 = (Ok found, w3) \<and>
    pc_commandID found = pc_commandID cmd \<and> pc_clientID found = pc_clientID cmd \<and>
    Some (pc_responseSnapshot found) = sv_jsonb S (pc_responseSnapshot cmd)"
proof -
  let ?d = "st_db (w_store w)" and ?d1 = "st_db (w_store w1)"
  have "\<exists>d. insert_command S cmd ?d = Ok ((), d) \<and> ?d1 = d"
    using quiet_command_Create [OF assms(1,2), of E cmd w] assms(3) by (auto split: res.splits if_splits)
  then obtain js where js: "sv_jsonb S (pc_responseSnapshot cmd) = Some js"
    and new: "(pc_commandType cmd, pc_orderID cmd) \<notin> (\<lambda>r. (k_command_type r, k_order_id r)) ` set (db_commands ?d)"
    and d1: "db_commands ?d1 = db_commands ?d @
         [\<lparr>k_command_id = pc_commandID cmd, k_command_type = pc_commandType cmd,
           k_order_id = pc_orderID cmd, k_client_id = pc_clientID cmd, k_response_snapshot = js,
           k_created_at = sv_timestamptz S (pc_createdAt cmd)\<rparr>]"
    unfolding insert_command_Ok_iff by auto
  have "insert_command S q ?d1 = Err (pg_error S ''23505'')"
    using assms(6) by (auto simp: insert_command_def d1 assms(4,5))
  then obtain e w2 where dup: "ProcessedCommandRepository_Create E S ctx q w1 = (Err e, w2)"
    "errors_Is e ErrDuplicate" "w_store w2 = w_store w1"
    using quiet_command_Create [OF assms(1,2), of E q w1] by (auto simp: pg_error_def pgUniqueViolation_def)
  have "filter (\<lambda>r. k_command_type r = pc_commandType cmd \<and> k_order_id r = pc_orderID cmd) (db_commands ?d) = []"
    using new by (force simp: filter_empty_conv)
  then have "select_command (pc_commandType cmd) (pc_orderID cmd) ?d1 = Ok (last (db_commands ?d1))"
    by (simp add: select_command_def d1)
  then show ?thesis
    using dup assms(2) js
    by (simp add: ProcessedCommandRepository_FindByTypeAndOrderID_def quiet_query [OF assms(1)]
        executorFromContext_def endDBSpan_def ReconstructProcessedCommand_def d1)
qed

definition demo_command :: processed_command where
  "demo_command = \<lparr>pc_commandID = 4, pc_commandType = ''DEPOSIT'', pc_orderID = ''order-1'', pc_clientID = 7,
     pc_responseSnapshot = ''{}'', pc_createdAt = epoch\<rparr>"

lemma demo_snapshot: "ref_jsonb ''{}'' = Some ''{}''"
  by code_simp

theorem command_recorded_once_witness:
  "\<exists>w1 e w2 found w3. ProcessedCommandRepository_Create ref_env ref_server demo_ctx demo_command (demo_world demo_db) = (Ok (), w1) \<and>
     ProcessedCommandRepository_Create ref_env ref_server demo_ctx (demo_command\<lparr>pc_commandID := 5\<rparr>) w1 = (Err e, w2) \<and>
     errors_Is e ErrDuplicate \<and>
     ProcessedCommandRepository_FindByTypeAndOrderID ref_server demo_ctx ''DEPOSIT'' ''order-1'' w2 = (Ok found, w3) \<and>
     pc_commandID found = 4"
proof -
  let ?q = "demo_command\<lparr>pc_commandID := 5\<rparr>"
  have js: "sv_jsonb ref_server (pc_responseSnapshot demo_command) = Some ''{}''"
    by (simp add: ref_server_def demo_command_def demo_snapshot)
  then obtain w1 where run: "ProcessedCommandRepository_Create ref_env ref_server demo_ctx demo_command (demo_world demo_db) = (Ok (), w1)"
    using quiet_command_Create [OF ref_quiet demo_ctx_tx, of ref_env demo_command "demo_world demo_db"]
    by (auto simp: insert_command_def demo_db_def)
  have q: "pc_commandType ?q = pc_commandType demo_command" "pc_orderID ?q = pc_orderID demo_command"
    "sv_jsonb ref_server (pc_responseSnapshot ?q) \<noteq> None" using js by simp_all
  from command_recorded_once [OF ref_quiet demo_ctx_tx run q] run show ?thesis
    by (auto simp: demo_command_def)
qed

subsection \<open>The unit of work\<close>

lemma opened_deposit_unit:
  assumes "\<And>k d. sv_interfere S k d = d" "committed v = c0 \<and> open_tx ctx v"
  shows "committed (snd (deposit_tx E (wallet_deposit_service E S) req c p s ctx v)) = c0 \<and>
    open_tx ctx (snd (deposit_tx E (wallet_deposit_service E S) req c p s ctx v))"
proof -
  have S: "S\<lparr>sv_interfere := \<lambda>_ d. d\<rparr> = S" using assms(1) by (cases S) (auto intro!: ext)
  note rules = undisturbed.pending.run_inv undisturbed.write_pending [where S = S, unfolded S]
  show ?thesis
    unfolding deposit_tx_def wallet_deposit_service_def NewDepositService_def wiring_simps Let_def deposit_service.simps
      position_repository.simps processed_command_repository.simps
    by (rule rules assms(2) | assumption)+
qed

text \<open>C15. The unit of work of a deposit is atomic, under any faults of the driver, including a
  commit whose outcome the driver does not learn: either nothing is committed and an error is
  reported, or the position and its command are committed together, and an error is then
  reported only for such a commit.\<close>

theorem deposit_unit_atomic:
  assumes "\<And>k d. sv_interfere S k d = d"
    and "TransactionRunner_Do S ctx (deposit_tx E (wallet_deposit_service E S) req c p s) w = (r, w')"
  shows "committed w' = committed w \<and> r \<noteq> Ok () \<or>
    (\<exists>row cmd. committed w' = (committed w)\<lparr>db_positions := db_positions (committed w) @ [row],
        db_commands := db_commands (committed w) @ [cmd]\<rparr> \<and>
      p_position_id row = pos_positionID p \<and> k_command_type cmd = ''DEPOSIT'' \<and> k_order_id cmd = dr_OrderID req \<and>
      (r = Ok () \<or> (\<exists>e k. r = Err (Wrapped ''committing transaction'' e) \<and> sv_commit_applied S k)))"
proof -
  have S: "S\<lparr>sv_interfere := \<lambda>_ d. d\<rparr> = S" using assms(1) by (cases S) (auto intro!: ext)
  let ?fn = "deposit_tx E (wallet_deposit_service E S) req c p s"
  have unit: "committed (snd (?fn ctx' v)) = committed w \<and> open_tx ctx' (snd (?fn ctx' v))"
    if "committed v = committed w \<and> open_tx ctx' v" for ctx' v
    using assms(1) that by (rule opened_deposit_unit)
  show ?thesis
  proof (rule undisturbed.Do_atomic [where S = S, unfolded S, OF _ assms(2), THEN disjE], erule unit,
      blast, elim exE conjE)
    fix v x v1
    assume v: "w_store v = \<lparr>st_db = committed w, st_tx = Some (committed w)\<rparr>"
      and body: "?fn (ctx\<lparr>ctx_tx := True\<rparr>) v = (Ok x, v1)" and st: "st_tx (w_store v1) = Some (committed w')"
      and r: "r = Ok x \<or> (\<exists>e k. r = Err (Wrapped ''committing transaction'' e) \<and> sv_commit_applied S k)"
    have "ctx_tx (ctx\<lparr>ctx_tx := True\<rparr>)" "st_tx (w_store v) = Some (committed w)" using v by simp_all
    with body have "\<exists>row cmd. committed w' = (committed w)\<lparr>db_positions := db_positions (committed w) @ [row],
        db_commands := db_commands (committed w) @ [cmd]\<rparr> \<and>
      p_position_id row = pos_positionID p \<and> k_command_type cmd = ''DEPOSIT'' \<and> k_order_id cmd = dr_OrderID req"
    proof (rule deposit_tx_Ok)
      fix k1 d1 k2 d2 cmd
      assume ins: "insert_position E S p (sv_interfere S k1 (committed w)) = Ok ((), d1)"
        and rec: "insert_command S cmd (sv_interfere S k2 d1) = Ok ((), d2)" "st_tx (w_store v1) = Some d2"
          "pc_commandType cmd = commandTypeDeposit" "pc_orderID cmd = dr_OrderID req"
      obtain cols where d1: "d1 = (committed w)\<lparr>db_positions := db_positions (committed w) @ [inserted_row S p cols]\<rparr>"
        using ins unfolding assms(1) insert_position_Ok_iff by blast
      obtain row where row: "d2 = d1\<lparr>db_commands := db_commands d1 @ [row]\<rparr>" "k_command_type row = commandTypeDeposit"
          "k_order_id row = dr_OrderID req"
        using rec(1) unfolding assms(1) insert_command_Ok_iff rec(3,4) by auto
      have "p_position_id (inserted_row S p cols) = pos_positionID p" by (simp add: inserted_row_def split: prod.split)
      with row show ?thesis
        using st rec(2) by (intro exI [of _ "inserted_row S p cols"] exI [of _ row]) (simp add: d1 commandTypeDeposit_def)
    qed
    with r show ?thesis by auto
  qed
qed

definition lossy_server :: pg_server where
  "lossy_server = ref_server\<lparr>sv_fault := (\<lambda>k. if k = 5 then Some (Opaque ''connection reset'') else None),
     sv_commit_applied := (\<lambda>_. True)\<rparr>"

theorem deposit_unit_atomic_witness:
  "\<exists>r w'. TransactionRunner_Do lossy_server demo_ctx
      (deposit_tx ref_env (wallet_deposit_service ref_env lossy_server) demo_deposit 7 bought_lot ''{}'')
      (demo_world demo_db) = (r, w') \<and>
    length (db_positions (committed w')) = length (db_commands (committed w'))"
proof -
  obtain r w' where run: "TransactionRunner_Do lossy_server demo_ctx
      (deposit_tx ref_env (wallet_deposit_service ref_env lossy_server) demo_deposit 7 bought_lot ''{}'')
      (demo_world demo_db) = (r, w')" by fastforce
  have "sv_interfere lossy_server k d = d" for k d by (simp add: lossy_server_def)
  from deposit_unit_atomic [OF this run] show ?thesis using run by (auto simp: demo_db_def)
qed


subsection \<open>Scale\<close>




end
