(* ===== verification/Sessions.thy ===== *)
theory Sessions
  imports Accounts
begin

text \<open>
  The Lambda over time: sequences of requests with their answers, commits of other sessions
  between them, and restarts of the process (\<open>session\<close>).  What one answer says about the record of
  its order, and what every session keeps of it.  For a wallet that is alone on its server, an
  abstract machine of accounts and executed orders (\<open>ledger_step\<close>), and the proof that each
  request is one of its steps.
\<close>

subsection \<open>Sessions\<close>

type_synonym exchange = "api_request \<times> api_response res"

text \<open>
  A request gets a connection of its own: a transaction a panic left open is never committed.
  Between two requests other sessions may commit what \<open>R\<close> allows, and the process may start
  anew, which only the cold start flag shows.
\<close>

inductive session :: "'d env \<Rightarrow> pg_server \<Rightarrow> attrs \<Rightarrow> (db \<Rightarrow> db \<Rightarrow> bool) \<Rightarrow> pg_store world \<Rightarrow>
    exchange list \<Rightarrow> pg_store world \<Rightarrow> bool" for E S base R w where
  start: "session E S base R w [] w"
| request: "session E S base R w tr u \<Longrightarrow> \<not> ctx_tx ctx \<Longrightarrow>
    wallet_lambda E S base ctx req (set_tx None u) = (r, v) \<Longrightarrow> session E S base R w (tr @ [(req, r)]) v"
| others: "session E S base R w tr u \<Longrightarrow> R (committed u) d \<Longrightarrow>
    session E S base R w tr (u\<lparr>w_store := (w_store u)\<lparr>st_db := d\<rparr>\<rparr>)"
| restart: "session E S base R w tr u \<Longrightarrow> session E S base R w tr (u\<lparr>w_cold := True\<rparr>)"

lemma session_fields [simp]:
  "committed (set_tx None u) = committed u" "st_tx (w_store (set_tx None u)) = None"
  "committed (u\<lparr>w_store := (w_store u)\<lparr>st_db := d\<rparr>\<rparr>) = d" "committed (u\<lparr>w_cold := c\<rparr>) = committed u"
  by (simp_all add: committed_def set_tx_def)

subsection \<open>The order of a request and its record\<close>

text \<open>The command type and order id under which a request is executed, if it reaches a service.\<close>

definition order_of :: "api_request \<Rightarrow> (string \<times> string) option" where
  "order_of req =
     (if rq_Path req = ''/deposits'' then
        map_option (\<lambda>q. (commandTypeDeposit, dr_OrderID q)) (decoded deposit_request_of_json req)
      else if rq_Path req = ''/withdrawals'' then
        map_option (\<lambda>q. (commandTypeWithdraw, wq_OrderID q)) (decoded withdraw_request_of_json req)
      else None)"

definition order_ids :: "db \<Rightarrow> (string \<times> string) set" where
  "order_ids d = (\<lambda>r. (k_command_type r, k_order_id r)) ` set (db_commands d)"

definition body_of :: "api_response res \<Rightarrow> string option" where
  "body_of r = (case r of Ok resp \<Rightarrow> Some (rp_Body resp) | _ \<Rightarrow> None)"

text \<open>The body a repetition of an order is answered with, out of its record.\<close>

definition replay_body :: "'d env \<Rightarrow> string \<times> string \<Rightarrow> db \<Rightarrow> string option" where
  "replay_body E order d =
     (case select_command (fst order) (snd order) d of
        Ok r \<Rightarrow>
          if fst order = commandTypeDeposit
          then (case deserializeSnapshot E (k_response_snapshot r) of
                  Success resp _ \<Rightarrow> Some (json_print (dto_json resp)) | _ \<Rightarrow> None)
          else (case deserializeWithdrawSnapshot E (k_response_snapshot r) of
                  Success resp _ \<Rightarrow> Some (json_print (withdraw_response_json resp)) | _ \<Rightarrow> None)
      | _ \<Rightarrow> None)"

lemma command_types_differ [simp]: "commandTypeWithdraw \<noteq> commandTypeDeposit"
  by (simp add: commandTypeWithdraw_def commandTypeDeposit_def)

lemma order_ids_mono: "extends_db d d' \<Longrightarrow> order_ids d \<subseteq> order_ids d'"
  by (auto simp: order_ids_def extends_db_def prefix_def)

lemma order_ids_select: "select_command t k d = Ok r \<Longrightarrow> (t, k) \<in> order_ids d"
  by (force simp: order_ids_def select_command_def split: list.splits dest: filter_eq_ConsD)

lemma replay_body_extends: "extends_db d d' \<Longrightarrow> replay_body E order d = Some b \<Longrightarrow> replay_body E order d' = Some b"
  by (auto simp: replay_body_def select_command_extends split: res.splits)

lemma replay_body_order: "replay_body E order d = Some b \<Longrightarrow> order \<in> order_ids d"
  using order_ids_select by (cases order) (fastforce simp: replay_body_def split: res.splits)

lemma replay_body_recorded:
  "recorded commandTypeDeposit k (deserializeSnapshot E) resp w \<Longrightarrow>
     replay_body E (commandTypeDeposit, k) (committed w) = Some (json_print (dto_json resp))"
  "recorded commandTypeWithdraw k (deserializeWithdrawSnapshot E) resp' w \<Longrightarrow>
     replay_body E (commandTypeWithdraw, k) (committed w) = Some (json_print (withdraw_response_json resp'))"
  by (auto simp: recorded_def replay_body_def)

subsection \<open>A success and its record\<close>

lemma deposit_answer_recorded:
  assumes "DepositService_Execute E (wallet_deposit_service E S) ctx req w = (Success resp s, w')" "\<not> ctx_tx ctx"
    and "decimal_arith (e_dec E) val" "uuid_texts E" "jsonb_text (sv_jsonb S)" "growing S"
  shows "recorded commandTypeDeposit (dr_OrderID req) (deserializeSnapshot E) resp w'"
proof (cases "s = 201")
  case True
  obtain r p where "select_command commandTypeDeposit (dr_OrderID req) (committed w') = Ok r"
    "sv_jsonb S (json_print (dto_json resp)) = Some (k_response_snapshot r)" "resp = position_to_dto E p"
    using deposit_recorded assms(1,6) True by metis
  then show ?thesis
    using jsonb_text.deposit_snapshot [OF assms(5)] decimal_arith.printable_position_dto [OF assms(3) refl assms(4)]
    by (auto simp: recorded_def)
next
  case False
  then have "s = 200"
    using deposit_outcomes [of E "wallet_deposit_service E S" ctx req w] assms(1) by (simp add: outcome_in_def)
  then show ?thesis using deposit_replay_recorded assms(1,2) by metis
qed

lemma withdraw_answer_recorded:
  assumes "WithdrawService_Execute E (wallet_withdraw_service E S) ctx req w = (Success resp s, w')" "\<not> ctx_tx ctx"
    and "decimal_arith (e_dec E) val" "uuid_texts E" "jsonb_text (sv_jsonb S)" "growing S"
  shows "recorded commandTypeWithdraw (wq_OrderID req) (deserializeWithdrawSnapshot E) resp w'"
proof -
  have "deserializeWithdrawSnapshot E t = Success (toWithdrawResponse E ps) 200"
    if "sv_jsonb S (json_print (withdraw_response_json (toWithdrawResponse E ps))) = Some t" for ps t
    using jsonb_text.withdraw_snapshot [OF assms(5) _ that]
      decimal_arith.printable_position_dto [OF assms(3) refl assms(4)]
    by (simp add: toWithdrawResponse_def list_all_iff)
  from withdraw_recorded [OF assms(1,2,6) this] show ?thesis .
qed

text \<open>A deposit that is answered 201 was not recorded before.\<close>

lemma deposit_fresh_order:
  assumes "DepositService_Execute E (wallet_deposit_service E S) ctx req w = (Success resp 201, w')" "growing S"
    and "st_tx (w_store w) = None"
  shows "(commandTypeDeposit, dr_OrderID req) \<notin> order_ids (committed w)"
  using assms(1)
proof (rule deposit_Execute_201)
  fix p v k0 k1 d1 k2 d2 cmd
  assume v: "reach S w v"
    and pos: "insert_position E S p (sv_interfere S k1 (sv_interfere S k0 (committed v))) = Ok ((), d1)"
    and cmd: "insert_command S cmd (sv_interfere S k2 d1) = Ok ((), d2)" "pc_commandType cmd = commandTypeDeposit"
      "pc_orderID cmd = dr_OrderID req"
  have grow: "extends_db d (sv_interfere S k d)" for k d using assms(2) by (simp add: growing_def)
  have "extends_db (committed w) (sv_interfere S k1 (sv_interfere S k0 (committed v)))"
    using reach_extends [OF v assms(2,3)] grow extends_db_trans by blast
  then have "extends_db (committed w) d1" using pos by (rule history.stmt_position)
  then have "extends_db (committed w) (sv_interfere S k2 d1)" using grow extends_db_trans by blast
  from order_ids_mono [OF this] show ?thesis
    using cmd by (auto simp: insert_command_Ok_iff order_ids_def)
qed

subsection \<open>The answers of the Lambda\<close>

lemma lambda_exchange:
  assumes "wallet_lambda E S base ctx req w = (r, w')"
  obtains (unserved) "w_store w' = w_store w" "status_of r \<in> {Some 404, Some 405, Some 422}" "order_of req = None"
  | (deposit) q lg t v x v' where "rq_Path req = ''/deposits''" "decoded deposit_request_of_json req = Some q"
      "w_store v = w_store w" "w_store w' = w_store v'" "r = fst (deposit_respond E lg t x v')"
      "DepositService_Execute E (wallet_deposit_service E S) (WithLogger ctx lg) q v = (x, v')"
  | (withdraw) q lg t v x v' where "rq_Path req = ''/withdrawals''" "decoded withdraw_request_of_json req = Some q"
      "w_store v = w_store w" "w_store w' = w_store v'" "r = fst (withdraw_respond E lg t x v')"
      "WithdrawService_Execute E (wallet_withdraw_service E S) (WithLogger ctx lg) q v = (x, v')"
  using assms
proof (cases rule: route_cases)
  case d: 1
  from d(2) show thesis
  proof (cases rule: DepositHandler_cases)
    case 1
    then show thesis using d(1) by (intro unserved) (auto simp: order_of_def)
  next
    case (2 lg q v t x v')
    then show thesis using deposit [OF d(1) 2(5,1,3,4)] by (simp add: NewDepositHandler_def)
  qed
next
  case d: 2
  from d(2) show thesis
  proof (cases rule: WithdrawHandler_cases)
    case 1
    then show thesis using d(1) by (intro unserved) (auto simp: order_of_def)
  next
    case (2 lg q v t x v')
    then show thesis using withdraw [OF d(1) 2(5,1,3,4)] by (simp add: NewWithdrawHandler_def)
  qed
qed (auto simp: order_of_def intro: unserved)

lemma respond_body:
  "body_of (fst (deposit_respond E lg t (Success resp s) w)) = Some (json_print (dto_json resp))"
  "body_of (fst (withdraw_respond E lg t (Success resp' s) w)) = Some (json_print (withdraw_response_json resp'))"
  by (simp_all add: body_of_def deposit_respond_def withdraw_respond_def Let_def)

lemma deposit_served:
  assumes "DepositService_Execute E svc ctx q v = (x, v')" "exec_status x = Some s" "s \<in> {200, 201}"
  shows "\<exists>resp. x = Success resp s"
  using assms deposit_outcomes [of E svc ctx q v]
  by (auto simp: exec_status_def outcome_in_def split: exec.splits)

lemma withdraw_served:
  assumes "WithdrawService_Execute E svc ctx q v = (x, v')" "exec_status x = Some s" "s \<in> {200, 201}"
  shows "s = 200 \<and> (\<exists>resp. x = Success resp s)"
  using assms withdraw_outcomes [of E svc ctx q v]
  by (auto simp: exec_status_def outcome_in_def split: exec.splits)

text \<open>A success names its order, and the record of the order gives its body.\<close>

lemma success_recorded:
  assumes "wallet_lambda E S base ctx req w = (r, w')" "status_of r \<in> {Some 200, Some 201}" "\<not> ctx_tx ctx"
    and "decimal_arith (e_dec E) val" "uuid_texts E" "jsonb_text (sv_jsonb S)" "growing S"
  obtains order b where "order_of req = Some order" "body_of r = Some b" "replay_body E order (committed w') = Some b"
  using assms(1)
proof (cases rule: lambda_exchange)
  case (deposit q lg t v x v')
  have s: "exec_status x \<in> {Some 200, Some 201}" using assms(2) deposit(5) by simp
  then obtain resp s where x: "x = Success resp s" using deposit_served [OF deposit(6)] by fastforce
  moreover have "\<not> ctx_tx (WithLogger ctx lg)" using assms(3) by (simp add: WithLogger_def)
  ultimately have "recorded commandTypeDeposit (dr_OrderID q) (deserializeSnapshot E) resp v'"
    using deposit_answer_recorded [OF _ _ assms(4-7)] deposit(6) by blast
  then show thesis
    using that [of "(commandTypeDeposit, dr_OrderID q)"] deposit replay_body_recorded(1) [of "dr_OrderID q" E resp v']
    by (simp add: order_of_def respond_body committed_def x)
next
  case (withdraw q lg t v x v')
  have s: "exec_status x \<in> {Some 200, Some 201}" using assms(2) withdraw(5) by simp
  then obtain resp s where x: "x = Success resp s" using withdraw_served [OF withdraw(6)] by fastforce
  moreover have "\<not> ctx_tx (WithLogger ctx lg)" using assms(3) by (simp add: WithLogger_def)
  ultimately have "recorded commandTypeWithdraw (wq_OrderID q) (deserializeWithdrawSnapshot E) resp v'"
    using withdraw_answer_recorded [OF _ _ assms(4-7)] withdraw(6) by blast
  then show thesis
    using that [of "(commandTypeWithdraw, wq_OrderID q)"] withdraw replay_body_recorded(2) [of "wq_OrderID q" E resp v']
    by (simp add: order_of_def respond_body committed_def x)
qed (use assms(2) in auto)

text \<open>An answer 201 executes an order for the first time.\<close>

lemma created_fresh:
  assumes "wallet_lambda E S base ctx req w = (r, w')" "status_of r = Some 201" "growing S" "st_tx (w_store w) = None"
    and "order_of req = Some order"
  shows "order \<notin> order_ids (committed w)"
  using assms(1)
proof (cases rule: lambda_exchange)
  case (deposit q lg t v x v')
  then obtain resp where x: "x = Success resp 201" using deposit_served [OF deposit(6), of 201] assms(2) by auto
  have "order = (commandTypeDeposit, dr_OrderID q)" using assms(5) deposit by (simp add: order_of_def)
  then show ?thesis
    using deposit_fresh_order [OF deposit(6) [unfolded x] assms(3)] assms(4) deposit(3) by (simp add: committed_def)
next
  case (withdraw q lg t v x v')
  then show ?thesis using withdraw_served [OF withdraw(6), of 201] assms(2) by simp
qed (use assms(2) in auto)

lemma lambda_extends:
  assumes "growing S" "st_tx (w_store w) = None"
  shows "extends_db (committed w) (committed (snd (wallet_lambda E S base ctx req w)))"
proof -
  have "table_stable S (extends_db (committed w)) w"
    using assms(2) extends_db_refl by (simp add: table_stable_def holds_def committed_def)
  from history.inv_wallet_lambda [OF this] growing_rely [OF assms(1)]
  show ?thesis unfolding table_stable_def holds_def committed_def by blast
qed

subsection \<open>What a session keeps\<close>

text \<open>Every success so far has its record, with the body it was answered with.\<close>

definition accounted :: "'d env \<Rightarrow> db \<Rightarrow> exchange \<Rightarrow> bool" where
  "accounted E d = (\<lambda>(req, r). status_of r \<in> {Some 200, Some 201} \<longrightarrow>
     (\<exists>order b. order_of req = Some order \<and> body_of r = Some b \<and> replay_body E order d = Some b))"

definition created :: "string \<times> string \<Rightarrow> exchange list \<Rightarrow> exchange list" where
  "created order = filter (\<lambda>(req, r). order_of req = Some order \<and> status_of r = Some 201)"

lemma accounted_extends: "extends_db d d' \<Longrightarrow> accounted E d x \<Longrightarrow> accounted E d' x"
  using replay_body_extends by (fastforce simp: accounted_def)

lemma accounted_order:
  "accounted E d (req, r) \<Longrightarrow> status_of r = Some 201 \<Longrightarrow> order_of req = Some order \<Longrightarrow> order \<in> order_ids d"
  using replay_body_order by (fastforce simp: accounted_def)

lemma session_accounted:
  assumes "session E S base extends_db w tr u"
    and "decimal_arith (e_dec E) val" "uuid_texts E" "jsonb_text (sv_jsonb S)" "growing S"
  shows "(\<forall>x \<in> set tr. accounted E (committed u) x) \<and> (\<forall>order. length (created order tr) \<le> 1)"
  using assms(1)
proof induction
  case start
  then show ?case by (simp add: created_def)
next
  case (request tr u ctx req r v)
  have "extends_db (committed u) (committed v)"
    using lambda_extends [OF assms(5), of "set_tx None u" E base ctx req] request.hyps(3) by simp
  then have old: "\<forall>x \<in> set tr. accounted E (committed v) x" using request.IH accounted_extends by blast
  have new: "accounted E (committed v) (req, r)"
  proof (cases "status_of r \<in> {Some 200, Some 201}")
    case True
    from request.hyps(3) this request.hyps(2) assms(2-5) show ?thesis
      by (rule success_recorded) (unfold accounted_def prod.case, blast)
  qed (simp add: accounted_def)
  have "length (created order (tr @ [(req, r)])) \<le> 1" for order
  proof (cases "order_of req = Some order \<and> status_of r = Some 201")
    case True
    then have "order \<notin> order_ids (committed u)"
      using created_fresh [OF request.hyps(3) _ assms(5)] by simp
    moreover have "accounted E (committed u) (q, a)" if "(q, a) \<in> set tr" for q a using request.IH that by blast
    ultimately have "created order tr = []"
      unfolding created_def filter_empty_conv using accounted_order by blast
    then show ?thesis by (simp add: created_def)
  next
    case False
    moreover have "length (created order tr) \<le> 1" using request.IH by blast
    ultimately show ?thesis by (auto simp: created_def)
  qed
  with old new show ?case by (metis Un_iff empty_iff empty_set list.simps(15) set_append insert_iff)
next
  case (others tr u d)
  then show ?case using accounted_extends unfolding session_fields by blast
qed simp

subsection \<open>The ledger\<close>

text \<open>
  The abstract machine: the value held by each client in each instrument, the instrument of each
  asset, and the orders that have been executed.  A first deposit of an order credits amount times price, rounded to the
  column, to the client of the request in the instrument of its asset; a first withdrawal debits the client of the request in
  the instrument of the request by no more than the holding; a repetition changes nothing; and
  nothing else is a success.
\<close>

record ledger =
  ld_accounts :: accounts
  ld_assets :: "(uuid \<times> string) set"
  ld_orders :: "(string \<times> string) set"

definition execute_order :: "accounts \<Rightarrow> string \<times> string \<Rightarrow> ledger \<Rightarrow> ledger" where
  "execute_order a order l = l\<lparr>ld_accounts := a, ld_orders := insert order (ld_orders l)\<rparr>"

inductive ledger_step :: "'d env \<Rightarrow> ('d \<Rightarrow> rat) \<Rightarrow> ledger \<Rightarrow> exchange \<Rightarrow> ledger \<Rightarrow> bool" for E val where
  refused: "status_of r \<notin> {Some 200, Some 201} \<Longrightarrow> ledger_step E val l (req, r) l"
| repeated: "status_of r = Some 200 \<Longrightarrow> order_of req = Some order \<Longrightarrow> order \<in> ld_orders l \<Longrightarrow>
    ledger_step E val l (req, r) l"
| deposited: "status_of r = Some 201 \<Longrightarrow> rq_Path req = ''/deposits'' \<Longrightarrow>
    decoded deposit_request_of_json req = Some q \<Longrightarrow> validateDepositRequest E q = Ok (c, a, amt, pr) \<Longrightarrow>
    (commandTypeDeposit, dr_OrderID q) \<notin> ld_orders l \<Longrightarrow> (a, i) \<in> ld_assets l \<Longrightarrow>
    ledger_step E val l (req, r) (execute_order (credit c i (round_places 8 (val amt * val pr)) (ld_accounts l))
      (commandTypeDeposit, dr_OrderID q) l)"
| withdrawn: "status_of r = Some 200 \<Longrightarrow> rq_Path req = ''/withdrawals'' \<Longrightarrow>
    decoded withdraw_request_of_json req = Some q \<Longrightarrow> validateWithdrawRequest E q = Ok (c, x) \<Longrightarrow>
    (commandTypeWithdraw, wq_OrderID q) \<notin> ld_orders l \<Longrightarrow>
    0 \<le> t \<Longrightarrow> t \<le> ld_accounts l c (wq_InstrumentID q) \<Longrightarrow>
    ledger_step E val l (req, r) (execute_order (credit c (wq_InstrumentID q) (- t) (ld_accounts l))
      (commandTypeWithdraw, wq_OrderID q) l)"

inductive ledger_run :: "'d env \<Rightarrow> ('d \<Rightarrow> rat) \<Rightarrow> ledger \<Rightarrow> exchange list \<Rightarrow> ledger \<Rightarrow> bool" for E val l where
  run_none: "ledger_run E val l [] l"
| run_step: "ledger_run E val l tr l' \<Longrightarrow> ledger_step E val l' x l'' \<Longrightarrow> ledger_run E val l (tr @ [x]) l''"

inductive_cases ledger_stepE: "ledger_step E val l (req, r) l'"

lemma execute_order_fields [simp]:
  "ld_accounts (execute_order a order l) = a" "ld_assets (execute_order a order l) = ld_assets l"
  "ld_orders (execute_order a order l) = insert order (ld_orders l)"
  by (simp_all add: execute_order_def)

text \<open>What the machine guarantees by itself: no account is overdrawn, no order is forgotten.\<close>

lemma ledger_step_safe:
  assumes "decimal_arith (e_dec E) val" "ledger_step E val l x l'" "\<And>c i. 0 \<le> ld_accounts l c i"
  shows "0 \<le> ld_accounts l' c i" "ld_orders l \<subseteq> ld_orders l'" "ld_assets l' = ld_assets l"
proof -
  obtain req r where x: "x = (req, r)" by fastforce
  note step = assms(2) [unfolded x]
  have credited: "0 \<le> round_places 8 (val amt * val pr)"
    if "validateDepositRequest E q = Ok (d, a, amt, pr)" for q d a amt pr
  proof -
    have "0 < val amt" "0 < val pr"
      using that assms(1) by (auto simp: validateDepositRequest_def decimal_arith.val_simps split: if_splits option.splits)
    then show ?thesis by (simp add: round_places_nonneg)
  qed
  show "0 \<le> ld_accounts l' c i"
    using step assms(3) by (auto elim!: ledger_stepE simp: credit_def dest: credited)
  show "ld_orders l \<subseteq> ld_orders l'" "ld_assets l' = ld_assets l"
    using step by (auto elim!: ledger_stepE)
qed

lemma ledger_run_safe:
  assumes "decimal_arith (e_dec E) val" "ledger_run E val l tr l'" "\<And>c i. 0 \<le> ld_accounts l c i"
  shows "(\<forall>c i. 0 \<le> ld_accounts l' c i) \<and> ld_orders l \<subseteq> ld_orders l' \<and> ld_assets l' = ld_assets l"
  using assms(2)
proof induction
  case run_none
  then show ?case using assms(3) by simp
next
  case (run_step tr l' x l'')
  then show ?case using ledger_step_safe [OF assms(1) run_step.hyps(2)] by blast
qed

definition ledger_of :: "db \<Rightarrow> ledger" where
  "ledger_of d =
     \<lparr>ld_accounts = holding d, ld_assets = (\<lambda>r. (a_asset_id r, a_instrument_id r)) ` set (db_assets d),
      ld_orders = order_ids d\<rparr>"


lemma ledger_of_fields [simp]:
  "ld_accounts (ledger_of d) = holding d" "ld_orders (ledger_of d) = order_ids d"
  "(a, i) \<in> ld_assets (ledger_of d) \<longleftrightarrow> (\<exists>r \<in> set (db_assets d). a_asset_id r = a \<and> a_instrument_id r = i)"
  by (auto simp: ledger_of_def)

lemma ledger_executed:
  assumes "db_assets d' = db_assets d" "db_commands d' = db_commands d @ [cmd]"
    and "k_command_type cmd = t" "k_order_id cmd = k" "holding d' = h"
  shows "ledger_of d' = execute_order h (t, k) (ledger_of d)"
  using assms by (auto simp: ledger_of_def execute_order_def order_ids_def)

lemma alone_growing: "(\<And>k d. sv_interfere S k d = d) \<Longrightarrow> growing S"
  by (simp add: growing_def extends_db_refl)

lemma deposit_ledger:
  assumes "pg_text D val S" "e_dec E = D" "\<And>k d. sv_interfere S k d = d"
    and run: "DepositService_Execute E (wallet_deposit_service E S) ctx req w = (Success resp 201, w')"
    and w: "st_tx (w_store w) = None" "db_ok (committed w)"
  obtains c a amt pr i where "validateDepositRequest E req = Ok (c, a, amt, pr)"
    "(a, i) \<in> ld_assets (ledger_of (committed w))"
    "ledger_of (committed w') = execute_order (credit c i (round_places 8 (val amt * val pr)) (holding (committed w)))
       (commandTypeDeposit, dr_OrderID req) (ledger_of (committed w))"
  using run assms(3) w(1)
proof (rule deposit_rows)
  fix c a amt pr p cols cmd
  assume val: "validateDepositRequest E req = Ok (c, a, amt, pr)"
    and cmd: "k_command_type cmd = commandTypeDeposit" "k_order_id cmd = dr_OrderID req"
    and w': "committed w' = (committed w)\<lparr>db_positions := db_positions (committed w) @ [inserted_row S p cols],
      db_commands := db_commands (committed w) @ [cmd]\<rparr>"
  from assms(1) run assms(2,3) w show thesis
  proof (rule pg_text.deposit_credit)
    fix c1 a1 amt1 pr1 asset
    assume v1: "validateDepositRequest E req = Ok (c1, a1, amt1, pr1)"
      and asset: "asset \<in> set (db_assets (committed w))" "a_asset_id asset = a1"
      and h: "holding (committed w') = credit c1 (a_instrument_id asset) (round_places 8 (val amt1 * val pr1)) (holding (committed w))"
    show thesis
      by (rule that [OF v1 _ ledger_executed [OF _ _ cmd h]]) (use asset w' in auto)
  qed
qed

lemma withdraw_ledger:
  assumes "pg_text D val S" "e_dec E = D" "alone_session S"
    and run: "WithdrawService_Execute E (wallet_withdraw_service E S) ctx req w = (Success resp s, w')" "\<not> ctx_tx ctx"
    and w: "st_tx (w_store w) = None" "db_ok (committed w)" "db_ok (committed w')"
    and fresh: "(commandTypeWithdraw, wq_OrderID req) \<notin> order_ids (committed w)"
  obtains c x t where "validateWithdrawRequest E req = Ok (c, x)" "0 \<le> t"
    "t \<le> holding (committed w) c (wq_InstrumentID req)"
    "ledger_of (committed w') = execute_order (credit c (wq_InstrumentID req) (- t) (holding (committed w)))
       (commandTypeWithdraw, wq_OrderID req) (ledger_of (committed w))"
  using assms(3) run w(1) fresh [unfolded order_ids_def]
proof (rule alone_session.fresh_withdraw)
  fix c y u u'
  assume val: "validateWithdrawRequest E req = Ok (c, y)" and u: "committed u = committed w" "committed w' = committed u'"
    and do: "TransactionRunner_Do S ctx (withdraw_tx E (wallet_withdraw_service E S) req c y) u = (Ok resp, u')"
  have pos: "0 < val y" using validated_withdraw(2) [OF val] assms(1,2) by (simp add: pg_text_def)
  have ok: "db_ok (committed u)" using u(1) w(2) by simp
  note quiet = undisturbed_session.no_interference [OF alone_session.axioms(1) [OF assms(3)]]
  from assms(1,2) quiet ok pos do obtain t where t: "0 \<le> t"
    "holding (committed u') = credit c (wq_InstrumentID req) (- t) (holding (committed u))"
    by (rule pg_text.withdraw_debit)
  from assms(1,2) quiet ok pos do obtain rows cmd where "k_command_type cmd = commandTypeWithdraw"
    "k_order_id cmd = wq_OrderID req" "committed u' = (committed u)\<lparr>db_positions := rows,
      db_commands := db_commands (committed u) @ [cmd]\<rparr>"
    by (rule pg_text.withdraw_Do_effect)
  then have "ledger_of (committed w') = execute_order (holding (committed u')) (commandTypeWithdraw, wq_OrderID req)
      (ledger_of (committed w))"
    using u by (intro ledger_executed [of _ _ cmd]) simp_all
  moreover have "t \<le> holding (committed w) c (wq_InstrumentID req)"
    using t(2) holding_nonneg [OF w(3), of c "wq_InstrumentID req"] u by (simp add: credit_def)
  ultimately show thesis using that [OF val t(1)] t(2) u by simp
qed

lemma withdraw_repeated:
  assumes "pg_text D val S" "e_dec E = D" "alone_session S"
    and run: "WithdrawService_Execute E (wallet_withdraw_service E S) ctx req w = (Success resp s, w')"
    and w: "db_ok (committed w)" "db_ok (committed w')"
    and old: "(commandTypeWithdraw, wq_OrderID req) \<in> order_ids (committed w)"
  shows "committed w' = committed w"
  using assms(3) run
proof (rule alone_session.withdraw_success)
  fix c y u u'
  assume val: "validateWithdrawRequest E req = Ok (c, y)" and u: "committed u = committed w" "committed w' = committed u'"
    and do: "TransactionRunner_Do S ctx (withdraw_tx E (wallet_withdraw_service E S) req c y) u = (Ok resp, u')"
  have pos: "0 < val y" using validated_withdraw(2) [OF val] assms(1,2) by (simp add: pg_text_def)
  have ok: "db_ok (committed u)" using u(1) w(1) by simp
  note quiet = undisturbed_session.no_interference [OF alone_session.axioms(1) [OF assms(3)]]
  from assms(1,2) quiet ok pos do obtain rows cmd where "k_command_type cmd = commandTypeWithdraw"
    "k_order_id cmd = wq_OrderID req" "committed u' = (committed u)\<lparr>db_positions := rows,
      db_commands := db_commands (committed u) @ [cmd]\<rparr>"
    by (rule pg_text.withdraw_Do_effect)
  with w(2) u old show ?thesis by (auto simp: db_ok_def order_ids_def)
qed

lemma lambda_ok:
  assumes "\<And>k d. sv_interfere S k d = d" "db_ok (committed w)" "st_tx (w_store w) = None"
  shows "db_ok (committed (snd (wallet_lambda E S base ctx req w)))"
proof -
  have "table_stable S db_ok w" using assms(2,3) by (simp add: table_stable_def holds_def committed_def)
  then have "table_stable S db_ok (snd (wallet_lambda E S base ctx req w))" by (rule schema.inv_wallet_lambda)
  moreover have "rely S db_ok" by (simp add: rely_def assms(1))
  ultimately show ?thesis unfolding table_stable_def holds_def committed_def by simp
qed

text \<open>A successful answer of either service is a step of the machine.\<close>

lemma deposit_success_step:
  assumes "pg_text D val S" "e_dec E = D" "\<And>k d. sv_interfere S k d = d"
    and run: "DepositService_Execute E (wallet_deposit_service E S) ctx q w = (Success resp n, w')" "n \<in> {200, 201}"
    and w: "db_ok (committed w)" "st_tx (w_store w) = None" "\<not> ctx_tx ctx"
    and replay: "n = 200 \<Longrightarrow> committed w' = committed w"
    and req: "rq_Path req = ''/deposits''" "decoded deposit_request_of_json req = Some q" "status_of r = Some n"
  shows "ledger_step E val (ledger_of (committed w)) (req, r) (ledger_of (committed w'))"
proof (cases "n = 201")
  case True
  with run have run: "DepositService_Execute E (wallet_deposit_service E S) ctx q w = (Success resp 201, w')" by simp
  from assms(1,2,3) run w(2,1) show ?thesis
    by (rule deposit_ledger)
      (use ledger_step.deposited [of r req q E _ _ _ _ "ledger_of (committed w)" _ val] True req
        deposit_fresh_order [OF run alone_growing [OF assms(3)] w(2)] in simp)
next
  case False
  then have n: "n = 200" using run(2) by simp
  then have "recorded commandTypeDeposit (dr_OrderID q) (deserializeSnapshot E) resp w'"
    using deposit_replay_recorded [OF _ w(3)] run(1) by simp
  then have "(commandTypeDeposit, dr_OrderID q) \<in> order_ids (committed w')"
    using order_ids_select by (auto simp: recorded_def)
  then show ?thesis
    using ledger_step.repeated [of r req "(commandTypeDeposit, dr_OrderID q)" "ledger_of (committed w)" E val]
      replay n req by (simp add: order_of_def)
qed

lemma withdraw_success_step:
  assumes "pg_text D val S" "e_dec E = D" "alone_session S"
    and run: "WithdrawService_Execute E (wallet_withdraw_service E S) ctx q w = (Success resp 200, w')"
    and w: "db_ok (committed w)" "st_tx (w_store w) = None" "\<not> ctx_tx ctx" "db_ok (committed w')"
    and req: "rq_Path req = ''/withdrawals''" "decoded withdraw_request_of_json req = Some q" "status_of r = Some 200"
  shows "ledger_step E val (ledger_of (committed w)) (req, r) (ledger_of (committed w'))"
proof (cases "(commandTypeWithdraw, wq_OrderID q) \<in> order_ids (committed w)")
  case True
  then show ?thesis
    using withdraw_repeated [OF assms(1-3) run w(1,4)] req
      ledger_step.repeated [of r req "(commandTypeWithdraw, wq_OrderID q)" "ledger_of (committed w)" E val]
    by (simp add: order_of_def)
next
  case False
  from assms(1-3) run w(3,2,1,4) False show ?thesis
    by (rule withdraw_ledger)
      (use ledger_step.withdrawn [of r req q E _ _ "ledger_of (committed w)" _ val] req False in simp)
qed

lemma lambda_ledger_step:
  assumes "pg_text D val S" "e_dec E = D" "\<And>k d. sv_interfere S k d = d" "\<And>k. \<not> sv_commit_applied S k"
    and run: "wallet_lambda E S base ctx req w = (r, w')" and tx: "\<not> ctx_tx ctx"
    and w: "db_ok (committed w)" "st_tx (w_store w) = None"
  shows "ledger_step E val (ledger_of (committed w)) (req, r) (ledger_of (committed w'))"
proof -
  have alone: "alone_session S" using assms(3,4) by (rule alone_sessionI)
  have ok: "db_ok (committed w')" using lambda_ok [OF assms(3) w, of E base ctx req] run by simp
  note kept = alone_session.kept_wallet_lambda [OF alone run]
  have stores: "committed v = committed w" "st_tx (w_store v) = None" if "w_store v = w_store w" for v
    using that w(2) by (simp_all add: committed_def)
  have ctx: "\<not> ctx_tx (WithLogger ctx lg)" for lg using tx by (simp add: WithLogger_def)
  show ?thesis
  proof (cases "status_of r \<in> {Some 200, Some 201}")
    case False
    then have "committed w' = committed w" by (intro kept) auto
    with False show ?thesis using ledger_step.refused by simp
  next
    case s: True
    from run show ?thesis
    proof (cases rule: lambda_exchange)
      case (deposit q lg t v x v')
      then obtain resp n where x: "x = Success resp n" "n \<in> {200, 201}" "status_of r = Some n"
        using s deposit_served [OF deposit(6)] by fastforce
      have v': "committed v' = committed w'" using deposit(4) by (simp add: committed_def)
      have "n = 200 \<Longrightarrow> committed v' = committed v"
        using kept x(3) deposit(1) stores(1) [OF deposit(3)] v' by simp
      from deposit_success_step [OF assms(1-3) deposit(6) [unfolded x(1)] x(2) _ _ ctx this deposit(1,2) x(3)]
      show ?thesis using stores [OF deposit(3)] w v' by simp
    next
      case (withdraw q lg t v x v')
      then obtain resp where x: "x = Success resp 200" "status_of r = Some 200"
        using s withdraw_served [OF withdraw(6)] by fastforce
      have v': "committed v' = committed w'" using withdraw(4) by (simp add: committed_def)
      from withdraw_success_step [OF assms(1,2) alone withdraw(6) [unfolded x(1)] _ _ ctx _ withdraw(1,2) x(2)]
      show ?thesis using stores [OF withdraw(3)] w ok v' by simp
    qed (use s in auto)
  qed
qed

end
