(* ===== verification/Telemetry.thy ===== *)
theory Telemetry
  imports Wallet
begin

text \<open>
  What a request leaves in the traces, the logs and the metrics.  A property of event sequences
  that survives concatenation and the bracketing of a span (\<open>telemetry\<close>) holds of what every
  repository operation, every unit of work and both services emit.  Two such properties: spans
  are closed in the order opposite to their start, and metrics are recorded by the handlers
  only.
\<close>

lemmas record_simps = deposit_service.simps withdraw_service.simps client_repository.simps asset_repository.simps
  position_repository.simps processed_command_repository.simps unit_of_work.simps

subsection \<open>Sequences that compose\<close>

locale telemetry =
  fixes Q :: "tel_event list \<Rightarrow> bool"
  assumes none: "Q []"
    and both: "Q es \<Longrightarrow> Q fs \<Longrightarrow> Q (es @ fs)"
    and annotations: "Q [SpanAttr n k v]" "Q [SpanStatus n c d]" "Q [SpanRecordError n d]" "Q [LogRecord lg lv m as]"
    and spans: "Q es \<Longrightarrow> Q (SpanStart n # es @ [SpanEnd n])"
begin

text \<open>From \<open>w\<close> to \<open>v\<close> only such a sequence was emitted, and the cold start flag was left alone.\<close>

definition told :: "'s world \<Rightarrow> 's world \<Rightarrow> bool" where
  "told w v \<longleftrightarrow> w_cold v = w_cold w \<and> (\<exists>es. w_tel v = w_tel w @ es \<and> Q es)"

lemma told_refl: "told w w"
  by (simp add: told_def none)

lemma told_trans: "told u v \<Longrightarrow> told v w \<Longrightarrow> told u w"
  by (auto simp: told_def dest: both)

lemma Q_Cons: "Q [e] \<Longrightarrow> Q es \<Longrightarrow> Q (e # es)"
  using both [of "[e]" es] by simp

lemma told_emit: "Q es \<Longrightarrow> told u w \<Longrightarrow> told u (emit es w)"
  by (auto simp: told_def dest: both)

lemma told_span:
  assumes "Q pre" "told (emit (SpanStart n # pre) w) v" "Q post"
  shows "told w (emit (post @ [SpanEnd n]) v)"
  using assms spans [OF both [OF both [OF assms(1)] assms(3)]]
  by (auto simp: told_def)

lemma told_fields: "w_tel w' = w_tel w \<Longrightarrow> w_cold w' = w_cold w \<Longrightarrow> told u w \<Longrightarrow> told u w'"
  by (simp add: told_def)

lemma told_bind: "told u (snd x) \<Longrightarrow> (\<And>r v. told u v \<Longrightarrow> told u (snd (f r v))) \<Longrightarrow> told u (snd (case x of (r, v) \<Rightarrow> f r v))"
  by (cases x) simp

lemma told_tup: "(\<And>a b. told u (snd (f a b))) \<Longrightarrow> told u (snd (case x of (a, b) \<Rightarrow> f a b))"
  by (cases x) simp

lemma told_res:
  "(\<And>a. told u (snd (f a))) \<Longrightarrow> (\<And>e. told u (snd (g e))) \<Longrightarrow> (\<And>m. told u (snd (h m))) \<Longrightarrow>
     told u (snd (case r of Ok a \<Rightarrow> f a | Err e \<Rightarrow> g e | Panicked m \<Rightarrow> h m))"
  by (cases r) simp_all

lemma told_option:
  "told u (snd a) \<Longrightarrow> (\<And>x. told u (snd (f x))) \<Longrightarrow> told u (snd (case r of None \<Rightarrow> a | Some x \<Rightarrow> f x))"
  by (cases r) simp_all

lemma told_if: "told u (snd a) \<Longrightarrow> told u (snd b) \<Longrightarrow> told u (snd (if c then a else b))"
  "told u v \<Longrightarrow> told u w \<Longrightarrow> told u (if c then v else w)"
  by simp_all

lemma told_pair: "told u w \<Longrightarrow> told u (snd (x, w))"
  by simp

lemma told_draw: "told u w \<Longrightarrow> told u (snd (time_Now E w))" "told u w \<Longrightarrow> told u (snd (uuid_New E w))"
  by (auto simp: time_Now_def uuid_New_def told_def)

lemma told_marks: "told u w \<Longrightarrow> told u (spanOK sp oc w)" "told u w \<Longrightarrow> told u (spanError sp e w)"
  by (simp_all add: spanOK_def spanError_def told_emit Q_Cons annotations)

lemma told_ends: "told u w \<Longrightarrow> told u (snd (fail_with sp st e w))"
  "told u w \<Longrightarrow> told u (snd (finish_replay sp r w))"
  by (simp_all add: fail_with_def finish_replay_def told_marks split: exec.split)

lemma told_log: "told u w \<Longrightarrow> told u (log_error ctx m as w)" "told u w \<Longrightarrow> told u (emit [LogRecord lg lv m as] w)"
  by (simp_all add: log_error_def told_emit annotations)

lemmas run_told = told_bind told_tup told_res told_if told_pair told_draw told_ends told_log told_marks

subsection \<open>The adapters\<close>

lemma told_store: "told u w \<Longrightarrow> told u (w\<lparr>w_store := s\<rparr>)"
  by (simp add: told_def)

lemma told_call: "told u w \<Longrightarrow> told u (snd (pg_call S w))"
  by (simp add: pg_call_def Let_def told_def)

lemma told_query: "told u w \<Longrightarrow> told u (snd (pg_query S ctx q w))"
  using told_call [of u w S] by (auto simp: pg_query_def split: prod.split option.split)

lemma told_exec: "told u w \<Longrightarrow> told u (snd (pg_exec S ctx x w))"
  using told_call [of u w S]
  by (auto simp: pg_exec_def write_through_def told_store split: prod.split option.split res.split)

lemma told_tx: "told u w \<Longrightarrow> told u (set_tx t w)" "told u w \<Longrightarrow> told u (snd (tx_Rollback S w))"
  "told u w \<Longrightarrow> told u (snd (tx_Commit S w))"
  using told_call [of u w S]
  by (auto simp: set_tx_def tx_Rollback_def tx_Commit_def Let_def told_store split: prod.split option.split)

lemma told_db_span:
  assumes "told u w" "told (startDBSpan n q w) (snd x)"
  shows "told u (snd (endDBSpan n x))"
proof -
  obtain r v where x: "x = (r, v)" by fastforce
  have pre: "Q [SpanAttr n ''db.system'' ''postgresql'', SpanAttr n ''db.operation.name'' q]"
    by (simp add: Q_Cons annotations)
  have "told w (emit (post @ [SpanEnd n]) v)" if "Q post" for post
    using told_span [OF pre _ that] assms(2) by (simp add: startDBSpan_def x)
  from this [of "[]"] this [of "[SpanStatus n CodeOk '''']"]
    this [of "[SpanStatus n CodeError d, SpanRecordError n d]" for d]
  have "told w (snd (endDBSpan n x))"
    by (simp add: x endDBSpan_def none annotations Q_Cons split: res.split)
  with assms(1) show ?thesis by (rule told_trans)
qed

lemmas pg_told = told_query told_exec run_told told_refl

lemma told_repositories:
  assumes "told u w"
  shows "told u (snd (ClientRepository_FindByID E S ctx c w))"
    "told u (snd (AssetRepository_FindByID E S ctx a w))"
    "told u (snd (PositionRepository_FindByClientAndInstrument E S ctx c i w))"
    "told u (snd (PositionRepository_Create E S ctx p w))"
    "told u (snd (PositionRepository_Update E S ctx p w))"
    "told u (snd (ProcessedCommandRepository_FindByTypeAndOrderID S ctx t k w))"
    "told u (snd (ProcessedCommandRepository_Create E S ctx cmd w))"
  by (simp_all only: ClientRepository_FindByID_def AssetRepository_FindByID_def
      PositionRepository_FindByClientAndInstrument_def PositionRepository_Create_def PositionRepository_Update_def
      ProcessedCommandRepository_FindByTypeAndOrderID_def ProcessedCommandRepository_Create_def)
    (rule told_db_span [OF assms] pg_told | assumption)+

lemma told_Do:
  assumes "\<And>c u v. told u v \<Longrightarrow> told u (snd (fn c v))" "told u w"
  shows "told u (snd (TransactionRunner_Do S ctx fn w))"
  unfolding TransactionRunner_Do_def
  by (rule told_db_span [OF assms(2), where q = "''TRANSACTION''"])
    (intro run_told told_option told_tx told_call told_refl assms(1))


subsection \<open>The services\<close>

lemmas svc_simps = wallet_deposit_service_def wallet_withdraw_service_def NewDepositService_def
  NewWithdrawService_def wiring_simps

lemmas svc_told = run_told told_repositories told_Do

lemma told_deposit_tx: "told u w \<Longrightarrow> told u (snd (deposit_tx E (wallet_deposit_service E S) req c p s ctx w))"
  by (simp only: deposit_tx_def svc_simps record_simps Let_def) (intro svc_told)

lemma told_deposit_race: "told u w \<Longrightarrow> told u (snd (deposit_replayAfterRace E (wallet_deposit_service E S) ctx k w))"
  by (simp only: deposit_replayAfterRace_def svc_simps record_simps) (intro svc_told)

lemma told_deposit_commit:
  "told u w \<Longrightarrow> told u (snd (deposit_commit E (wallet_deposit_service E S) ctx req c p resp s w))"
  unfolding deposit_commit_def
  by (simp only: svc_simps record_simps)
    (intro svc_told told_deposit_tx [unfolded svc_simps] told_deposit_race [unfolded svc_simps])

lemma told_deposit_body: "told u w \<Longrightarrow> told u (snd (deposit_body E (wallet_deposit_service E S) ctx req w))"
  unfolding deposit_body_def deposit_fresh_def Let_def
  by (simp only: svc_simps record_simps) (intro svc_told told_deposit_commit [unfolded svc_simps])

lemma told_consume_lots: "told u w \<Longrightarrow> told u (snd (consume_lots E lots rem aff w))"
proof (induction lots arbitrary: rem aff w)
  case (Cons p ps)
  from told_draw(1) [OF Cons.prems, of E] have "told u (next_tick w)" by (simp add: time_Now_def)
  with Cons show ?case by (simp add: time_Now_def Let_def split: option.split res.split)
qed simp

lemma told_update_lots: "told u w \<Longrightarrow> told u (snd (update_lots (wallet_withdraw_service E S) ctx lots w))"
proof (induction lots arbitrary: w)
  case (Cons p ps)
  show ?case
    unfolding update_lots.simps
    by (simp only: svc_simps record_simps) (intro svc_told Cons.IH [unfolded svc_simps] Cons.prems)
qed simp

lemma told_withdraw_tx: "told u w \<Longrightarrow> told u (snd (withdraw_tx E (wallet_withdraw_service E S) req c x ctx w))"
  unfolding withdraw_tx_def record_withdrawal_def Let_def
  by (simp only: svc_simps record_simps)
    (intro svc_told told_consume_lots told_update_lots [unfolded svc_simps])

lemma told_withdraw_race: "told u w \<Longrightarrow> told u (snd (withdraw_replayAfterRace E (wallet_withdraw_service E S) ctx k w))"
  by (simp only: withdraw_replayAfterRace_def svc_simps record_simps) (intro svc_told)

lemma told_withdraw_body: "told u w \<Longrightarrow> told u (snd (withdraw_body E (wallet_withdraw_service E S) ctx req w))"
  unfolding withdraw_body_def withdraw_fresh_def withdraw_commit_def
  by (simp only: svc_simps record_simps)
    (intro svc_told told_withdraw_tx [unfolded svc_simps] told_withdraw_race [unfolded svc_simps])

lemma told_Execute:
  "told w (snd (DepositService_Execute E (wallet_deposit_service E S) ctx dreq w))"
  "told w (snd (WithdrawService_Execute E (wallet_withdraw_service E S) ctx wreq w))"
proof -
  note span = told_span [where post = "[]", simplified, OF annotations(1) _ none]
  show "told w (snd (DepositService_Execute E (wallet_deposit_service E S) ctx dreq w))"
    unfolding DepositService_Execute_def
    using span [OF told_deposit_body [OF told_refl]] by (simp add: case_prod_unfold)
  show "told w (snd (WithdrawService_Execute E (wallet_withdraw_service E S) ctx wreq w))"
    unfolding WithdrawService_Execute_def
    using span [OF told_withdraw_body [OF told_refl]] by (simp add: case_prod_unfold)
qed

end

subsection \<open>Spans\<close>

text \<open>The spans open after a sequence of events, innermost first; \<open>None\<close> if one is ended that is not
  the innermost.\<close>

fun open_spans :: "tel_event list \<Rightarrow> string list \<Rightarrow> string list option" where
  "open_spans [] st = Some st"
| "open_spans (SpanStart n # es) st = open_spans es (n # st)"
| "open_spans (SpanEnd n # es) st =
     (case st of m # st' \<Rightarrow> if m = n then open_spans es st' else None | [] \<Rightarrow> None)"
| "open_spans (_ # es) st = open_spans es st"

definition balanced :: "tel_event list \<Rightarrow> bool" where
  "balanced es \<longleftrightarrow> (\<forall>st. open_spans es st = Some st)"

lemma open_spans_append:
  "open_spans (es @ fs) st = (case open_spans es st of Some st' \<Rightarrow> open_spans fs st' | None \<Rightarrow> None)"
  by (induction es st rule: open_spans.induct) (auto split: list.split)

fun is_metric :: "tel_event \<Rightarrow> bool" where
  "is_metric (CounterAdd _ _ _) = True"
| "is_metric (HistogramRecord _ _ _) = True"
| "is_metric _ = False"

text \<open>What a service emits: balanced spans and no metrics.\<close>

definition service_events :: "tel_event list \<Rightarrow> bool" where
  "service_events es \<longleftrightarrow> balanced es \<and> filter is_metric es = []"

interpretation nested: telemetry service_events
  by unfold_locales (simp_all add: service_events_def balanced_def open_spans_append)

subsection \<open>The handlers\<close>

text \<open>The metrics of one command; none if the service panicked.\<close>

definition command_metrics :: "string \<Rightarrow> int \<Rightarrow> string option \<Rightarrow> tel_event list" where
  "command_metrics command ms outcome =
     (case outcome of
        Some oc \<Rightarrow> (let as = [(''command'', AStr command), (''outcome'', AStr oc)] in
          [CounterAdd ''wallet.command.count'' 1 as, HistogramRecord ''wallet.command.duration'' ms as])
      | None \<Rightarrow> [])"

definition command_outcome :: "string \<Rightarrow> 'r exec \<Rightarrow> string option" where
  "command_outcome command x =
     (case x of
        Success _ s \<Rightarrow> Some (if command = ''deposit'' \<and> s = 200 then ''replayed'' else ''success'')
      | Failure _ _ \<Rightarrow> Some ''failed'' | Crashed _ \<Rightarrow> None)"

definition handler_events :: "string \<Rightarrow> string option \<Rightarrow> 's world \<Rightarrow> 's world \<Rightarrow> bool" where
  "handler_events command outcome w v \<longleftrightarrow>
     (\<exists>es ms. w_tel v = w_tel w @ es \<and> balanced es \<and> filter is_metric es = command_metrics command ms outcome)"

lemma respond_events:
  "handler_events ''deposit'' (command_outcome ''deposit'' x) w (snd (deposit_respond E lg t x w))"
  "handler_events ''withdraw'' (command_outcome ''withdraw'' y) w (snd (withdraw_respond E lg t y w))"
  by (auto simp: handler_events_def deposit_respond_def withdraw_respond_def recordCommandMetrics_def logTerminalError_def
      time_Now_def Let_def balanced_def command_metrics_def command_outcome_def split: exec.split)

lemma respond_cold [simp]:
  "w_cold (snd (deposit_respond E lg t x w)) = w_cold w" "w_cold (snd (withdraw_respond E lg t y w)) = w_cold w"
  by (simp_all add: deposit_respond_def withdraw_respond_def recordCommandMetrics_def logTerminalError_def
      time_Now_def Let_def split: exec.split)

lemma handler_events_none: "handler_events command None w w"
  by (auto simp: handler_events_def command_metrics_def balanced_def)

lemma handler_events_after: "nested.told w v \<Longrightarrow> handler_events c oc v u \<Longrightarrow> handler_events c oc w u"
  by (auto simp: handler_events_def nested.told_def service_events_def balanced_def open_spans_append)

lemma handler_events_span:
  assumes "handler_events c oc (emit [SpanAttr a k1 v1, SpanAttr a k2 v2, SpanAttr a k3 v3] (next_tick (emit [SpanStart n] w))) v"
  shows "handler_events c oc w (emit [SpanEnd n] v)"
proof -
  let ?pre = "[SpanStart n, SpanAttr a k1 v1, SpanAttr a k2 v2, SpanAttr a k3 v3]"
  obtain es ms where es: "w_tel v = w_tel w @ ?pre @ es" "balanced es"
    "filter is_metric es = command_metrics c ms oc"
    using assms by (auto simp: handler_events_def)
  have "balanced (?pre @ es @ [SpanEnd n])" using es(2) by (simp add: balanced_def open_spans_append)
  moreover have "filter is_metric (?pre @ es @ [SpanEnd n]) = command_metrics c ms oc" using es(3) by simp
  ultimately show ?thesis
    unfolding handler_events_def
    by (intro exI [of _ "?pre @ es @ [SpanEnd n]"] exI [of _ ms]) (simp add: es(1))
qed

text \<open>The requests that come to a service.\<close>

definition reaches_service :: "api_request \<Rightarrow> bool" where
  "reaches_service req \<longleftrightarrow>
     rq_Path req = ''/deposits'' \<and> decoded deposit_request_of_json req \<noteq> None \<or>
     rq_Path req = ''/withdrawals'' \<and> decoded withdraw_request_of_json req \<noteq> None"

lemma logger_told: "LoggerFactory_FromContext base ctx trg op w = (lg, v) \<Longrightarrow>
    w_tel v = w_tel w \<and> w_store v = w_store w \<and> w_tick v = w_tick w \<and> \<not> w_cold v"
  by (auto simp: LoggerFactory_FromContext_def)

lemma handler_events_tel: "w_tel v = w_tel w \<Longrightarrow> handler_events c oc v u = handler_events c oc w u"
  by (simp add: handler_events_def)

lemma handler_events_no_command: "handler_events c None w v \<Longrightarrow> handler_events c' None w v"
  by (simp add: handler_events_def command_metrics_def)

lemma deposit_body_events:
  assumes "deposit_handle_body E (NewDepositHandler (DepositService_Execute E (wallet_deposit_service E S)) base)
      ctx req t w = (r, w')"
  shows "if decoded deposit_request_of_json req = None
    then r = errorResponse (if rq_Method req \<noteq> ''POST'' then 405 else 422)
           (if rq_Method req \<noteq> ''POST'' then ''method not allowed'' else ''invalid request body'') \<and> w' = w
    else \<not> w_cold w' \<and> (\<exists>lg q v x (u :: pg_store world). x = fst (DepositService_Execute E (wallet_deposit_service E S) (WithLogger ctx lg) q v) \<and>
      w_store v = w_store w \<and> r = fst (deposit_respond E lg t x u) \<and>
      handler_events ''deposit'' (command_outcome ''deposit'' x) w w')"
proof (cases "decoded deposit_request_of_json req")
  case (Some q)
  obtain lg v where lg: "LoggerFactory_FromContext base ctx ''http'' ''deposit'' w = (lg, v)" by fastforce
  let ?x = "DepositService_Execute E (wallet_deposit_service E S) (WithLogger ctx lg) q v"
  have run: "(r, w') = deposit_respond E lg t (fst ?x) (snd ?x)"
    using assms Some lg
    by (auto simp: decoded_def deposit_handle_body_def NewDepositHandler_def case_prod_unfold Let_def
        split: if_splits option.splits)
  have told: "nested.told v (snd ?x)" by (rule nested.told_Execute)
  have "w_cold w' = w_cold (snd ?x)" using run by (metis respond_cold(1) snd_conv)
  also have "\<dots> = w_cold v" using told by (simp add: nested.told_def)
  finally have cold: "\<not> w_cold w'" using logger_told [OF lg] by simp
  have ev: "handler_events ''deposit'' (command_outcome ''deposit'' (fst ?x)) w w'"
    using handler_events_after [OF told respond_events(1)] run handler_events_tel [of v w] logger_told [OF lg]
    by (metis snd_conv)
  have r: "\<exists>u :: pg_store world. r = fst (deposit_respond E lg t (fst ?x) u)" using run by (metis fst_conv)
  show ?thesis
    using Some cold
    by simp (intro exI [of _ lg] exI [of _ q] exI [of _ v] conjI ev r,
        simp add: logger_told [OF lg])
qed (use assms in \<open>auto simp: decoded_def deposit_handle_body_def split: if_splits option.splits\<close>)

lemma withdraw_body_events:
  assumes "withdraw_handle_body E (NewWithdrawHandler (WithdrawService_Execute E (wallet_withdraw_service E S)) base)
      ctx req t w = (r, w')"
  shows "if decoded withdraw_request_of_json req = None
    then r = errorResponse (if rq_Method req \<noteq> ''POST'' then 405 else 422)
           (if rq_Method req \<noteq> ''POST'' then ''method not allowed'' else ''invalid request body'') \<and> w' = w
    else \<not> w_cold w' \<and> (\<exists>lg q v x (u :: pg_store world). x = fst (WithdrawService_Execute E (wallet_withdraw_service E S) (WithLogger ctx lg) q v) \<and>
      w_store v = w_store w \<and> r = fst (withdraw_respond E lg t x u) \<and>
      handler_events ''withdraw'' (command_outcome ''withdraw'' x) w w')"
proof (cases "decoded withdraw_request_of_json req")
  case (Some q)
  obtain lg v where lg: "LoggerFactory_FromContext base ctx ''http'' ''withdraw'' w = (lg, v)" by fastforce
  let ?x = "WithdrawService_Execute E (wallet_withdraw_service E S) (WithLogger ctx lg) q v"
  have run: "(r, w') = withdraw_respond E lg t (fst ?x) (snd ?x)"
    using assms Some lg
    by (auto simp: decoded_def withdraw_handle_body_def NewWithdrawHandler_def case_prod_unfold Let_def
        split: if_splits option.splits)
  have told: "nested.told v (snd ?x)" by (rule nested.told_Execute)
  have "w_cold w' = w_cold (snd ?x)" using run by (metis respond_cold(2) snd_conv)
  also have "\<dots> = w_cold v" using told by (simp add: nested.told_def)
  finally have cold: "\<not> w_cold w'" using logger_told [OF lg] by simp
  have ev: "handler_events ''withdraw'' (command_outcome ''withdraw'' (fst ?x)) w w'"
    using handler_events_after [OF told respond_events(2)] run handler_events_tel [of v w] logger_told [OF lg]
    by (metis snd_conv)
  have r: "\<exists>u :: pg_store world. r = fst (withdraw_respond E lg t (fst ?x) u)" using run by (metis fst_conv)
  show ?thesis
    using Some cold
    by simp (intro exI [of _ lg] exI [of _ q] exI [of _ v] conjI ev r,
        simp add: logger_told [OF lg])
qed (use assms in \<open>auto simp: decoded_def withdraw_handle_body_def split: if_splits option.splits\<close>)


text \<open>The answer to a request that reaches no service.\<close>

definition refusal :: "api_request \<Rightarrow> api_response res" where
  "refusal req =
     (case (if rq_Path req \<notin> {''/deposits'', ''/withdrawals''} then (404, ''not found'')
            else if rq_Method req \<noteq> ''POST'' then (405, ''method not allowed'') else (422, ''invalid request body'')) of
        (status, message) \<Rightarrow>
          Ok \<lparr>rp_StatusCode = status, rp_Headers = [(''Content-Type'', ''application/json'')],
              rp_Body = json_print (json_of_members [(''error'', message)])\<rparr>)"

lemma not_found_body: "json_print (json_of_members [(''error'', ''not found'')]) =
    ''{'' @ [CHR 0x22] @ ''error'' @ [CHR 0x22] @ '':'' @ [CHR 0x22] @ ''not found'' @ [CHR 0x22] @ ''}''"
  by code_simp

text \<open>The Lambda answers without a service, or by one of the two handlers' services.\<close>

lemma lambda_events:
  assumes "wallet_lambda E S base ctx req w = (r, w')"
  obtains (unserved) "\<not> reaches_service req" "handler_events [] None w w'" "w_cold w' = w_cold w" "w_store w' = w_store w"
      "r = refusal req"
  | (deposit) lg q v x t and u :: "pg_store world" where "reaches_service req" "rq_Path req = ''/deposits''" "\<not> w_cold w'" "w_store v = w_store w"
      "x = fst (DepositService_Execute E (wallet_deposit_service E S) (WithLogger ctx lg) q v)"
      "r = fst (deposit_respond E lg t x u)" "handler_events ''deposit'' (command_outcome ''deposit'' x) w w'"
  | (withdraw) lg q v x t and u :: "pg_store world" where "reaches_service req" "rq_Path req = ''/withdrawals''" "\<not> w_cold w'" "w_store v = w_store w"
      "x = fst (WithdrawService_Execute E (wallet_withdraw_service E S) (WithLogger ctx lg) q v)"
      "r = fst (withdraw_respond E lg t x u)" "handler_events ''withdraw'' (command_outcome ''withdraw'' x) w w'"
  using assms
proof (cases rule: route_cases)
  case 1
  let ?h = "NewDepositHandler (DepositService_Execute E (wallet_deposit_service E S)) base"
  let ?w0 = "emit [SpanAttr depositRoute ''http.method'' ''POST'', SpanAttr depositRoute ''http.route'' ''/deposits'',
      SpanAttr depositRoute ''wallet.command'' ''deposit''] (next_tick (emit [SpanStart depositRoute] w))"
  obtain r1 w1 where body: "deposit_handle_body E ?h ctx req (e_now E (w_tick w)) ?w0 = (r1, w1)" by fastforce
  then have w1: "r = r1" "w' = emit [SpanEnd depositRoute] w1"
    using 1(2) by (simp_all add: DepositHandler_Handle_def time_Now_def)
  note served = deposit_body_events [OF body]
  show thesis
  proof (cases "decoded deposit_request_of_json req")
    case None
    then have "w1 = ?w0" "handler_events ''deposit'' None ?w0 w1" using served by (simp_all add: handler_events_none)
    then show thesis
      using served None w1 1(1) handler_events_span [THEN handler_events_no_command, of "''deposit''"]
      by (intro unserved) (auto simp: reaches_service_def errorResponse_def refusal_def)
  next
    case (Some q)
    then show thesis
      using served w1 1(1) handler_events_span [of "''deposit''"]
      by (auto simp: reaches_service_def intro!: deposit)
  qed
next
  case 2
  let ?h = "NewWithdrawHandler (WithdrawService_Execute E (wallet_withdraw_service E S)) base"
  let ?w0 = "emit [SpanAttr withdrawRoute ''http.method'' ''POST'', SpanAttr withdrawRoute ''http.route'' ''/withdrawals'',
      SpanAttr withdrawRoute ''wallet.command'' ''withdraw''] (next_tick (emit [SpanStart withdrawRoute] w))"
  obtain r1 w1 where body: "withdraw_handle_body E ?h ctx req (e_now E (w_tick w)) ?w0 = (r1, w1)" by fastforce
  then have w1: "r = r1" "w' = emit [SpanEnd withdrawRoute] w1"
    using 2(2) by (simp_all add: WithdrawHandler_Handle_def time_Now_def)
  note served = withdraw_body_events [OF body]
  show thesis
  proof (cases "decoded withdraw_request_of_json req")
    case None
    then have "w1 = ?w0" "handler_events ''withdraw'' None ?w0 w1" using served by (simp_all add: handler_events_none)
    then show thesis
      using served None w1 2(1) handler_events_span [THEN handler_events_no_command, of "''withdraw''"]
      by (intro unserved) (auto simp: reaches_service_def errorResponse_def refusal_def)
  next
    case (Some q)
    then show thesis
      using served w1 2(1) handler_events_span [of "''withdraw''"]
      by (auto simp: reaches_service_def intro!: withdraw)
  qed
next
  case 3
  then show thesis using assms
    by (intro unserved) (auto simp: reaches_service_def handler_events_none wallet_lambda_def route_def refusal_def
        not_found_body simp del: append_Cons append_Nil)
qed

end
