(* ===== verification/Calm.thy ===== *)
theory Calm
  imports Telemetry Accounts
begin

text \<open>
  Nothing panics.  No statement, repository operation or constructor panics; the one division of
  the program is by the unit price of a lot with free value, which the schema keeps positive.
  Hence neither service panics on a database that meets the schema.
\<close>

subsection \<open>The adapters\<close>

definition calm :: "'a res \<times> 's world \<Rightarrow> bool" where
  "calm x \<longleftrightarrow> (\<forall>m. fst x \<noteq> Panicked m)"

definition calm_exec :: "'r exec \<times> 's world \<Rightarrow> bool" where
  "calm_exec x \<longleftrightarrow> (\<forall>m. fst x \<noteq> Crashed m)"

lemma calm_query: "(\<And>d m. q d \<noteq> Panicked m) \<Longrightarrow> calm (pg_query S ctx q w)"
  by (auto simp: calm_def pg_query_def split: prod.split option.split)

lemma calm_stmt: "(\<And>d m. x d \<noteq> Panicked m) \<Longrightarrow> calm (pg_exec S ctx x w)"
  by (auto simp: calm_def pg_exec_def split: prod.split option.split res.split)

lemma calm_endDBSpan: "calm x \<Longrightarrow> calm (endDBSpan n x)"
  by (auto simp: calm_def endDBSpan_def split: prod.split res.split)

lemma calm_bind:
  "calm x \<Longrightarrow> (\<And>a v. calm (f a v)) \<Longrightarrow> (\<And>e v. calm (g e v)) \<Longrightarrow>
     calm (case x of (r, v) \<Rightarrow> (case r of Ok a \<Rightarrow> f a v | Err e \<Rightarrow> g e v | Panicked m \<Rightarrow> h m v))"
  by (auto simp: calm_def split: prod.split res.split)

lemma calm_leaf: "calm (Ok a, v)" "calm (Err e, v)"
  by (simp_all add: calm_def)

lemma calm_if: "calm x \<Longrightarrow> calm y \<Longrightarrow> calm (if c then x else y)"
  by simp

lemma calm_numeric: "numeric_columns E S p \<noteq> Panicked m"
  by (simp add: numeric_columns_def Let_def split: option.split)

lemma calm_statements:
  "select_client c d \<noteq> Panicked m" "select_asset f d \<noteq> Panicked m" "select_command t k d \<noteq> Panicked m"
  "insert_command S cmd d \<noteq> Panicked m"
  by (simp_all add: select_client_def select_asset_def select_command_def insert_command_def
      split: list.split option.split)

lemma calm_position_statements:
  "insert_position E S p d \<noteq> Panicked m" "update_position E S p d \<noteq> Panicked m"
  using calm_numeric [of E S p]
  by (simp_all add: insert_position_def update_position_def Let_def split: res.split list.split)

lemma calm_scan: "scanPosition E S r \<noteq> Panicked m"
  by (simp add: scanPosition_def parsePosition_def ReconstructPosition_def validatePositionAmounts_def Let_def
      split: option.split)

lemma calm_collect: "collectPositions E S rows err \<noteq> Panicked m"
  using calm_scan [of E S] by (induction rows) (auto split: option.split res.split)

lemma calm_scanAsset: "row \<noteq> Panicked m \<Longrightarrow> scanAsset l row \<noteq> Panicked m"
  by (cases row) (simp_all add: scanAsset_def)

lemma calm_repositories:
  "calm (ClientRepository_FindByID E S ctx c w)" "calm (AssetRepository_FindByID E S ctx a w)"
  "calm (PositionRepository_FindByClientAndInstrument E S ctx c i w)"
  "calm (PositionRepository_Create E S ctx p w)" "calm (PositionRepository_Update E S ctx p w)"
  "calm (ProcessedCommandRepository_FindByTypeAndOrderID S ctx t k w)"
  "calm (ProcessedCommandRepository_Create E S ctx cmd w)"
proof -
  note rules = calm_endDBSpan calm_bind calm_query calm_stmt calm_if calm_leaf calm_statements calm_position_statements
  show "calm (AssetRepository_FindByID E S ctx a w)"
    unfolding AssetRepository_FindByID_def
  proof (rule calm_endDBSpan)
    let ?q = "pg_query S ctx (select_asset (\<lambda>r. a_asset_id r = a)) (startDBSpan ''db.asset.find_by_id'' ''SELECT'' w)"
    have "calm ?q" by (intro rules)
    then have "scanAsset l (fst ?q) \<noteq> Panicked m" for l m by (intro calm_scanAsset) (simp add: calm_def)
    then show "calm (case ?q of (row, w1) \<Rightarrow> (case scanAsset (''asset '' @ e_uuidString E a) row of
        Ok asset \<Rightarrow> (Ok asset, w1) | Err err \<Rightarrow> (Err err, if \<not> errors_Is err ErrNotFound
                  then log_error ctx ''FindByID: query failed''
                    [(''asset_id'', AStr (e_uuidString E a)), (''error'', AStr (error_text err))] w1
                  else w1) | Panicked m \<Rightarrow> (Panicked m, w1)))"
      by (auto simp: calm_def split: prod.split res.split)
  qed
  show "calm (PositionRepository_FindByClientAndInstrument E S ctx c i w)"
    unfolding PositionRepository_FindByClientAndInstrument_def
    by (intro rules) (auto simp: calm_def calm_collect split: prod.split)
qed (simp_all only: ClientRepository_FindByID_def PositionRepository_Create_def PositionRepository_Update_def
    ProcessedCommandRepository_FindByTypeAndOrderID_def ProcessedCommandRepository_Create_def,
   (intro calm_endDBSpan calm_bind calm_query calm_stmt calm_if calm_leaf calm_statements calm_position_statements)+)

lemma calm_Do:
  assumes "\<And>v. w_store v = \<lparr>st_db = sv_interfere S (w_tick w) (committed w), st_tx = Some (sv_interfere S (w_tick w) (committed w))\<rparr> \<Longrightarrow>
      calm (fn (ctx\<lparr>ctx_tx := True\<rparr>) v)"
  shows "calm (TransactionRunner_Do S ctx fn w)"
proof -
  obtain f v where v: "pg_call S (startDBSpan ''db.transaction'' ''TRANSACTION'' w) = (f, v)" by fastforce
  then have "w_store (set_tx (Some (st_db (w_store v))) v) = \<lparr>st_db = sv_interfere S (w_tick w) (committed w),
      st_tx = Some (sv_interfere S (w_tick w) (committed w))\<rparr>"
    by (auto simp: pg_call_def set_tx_def committed_def startDBSpan_def Let_def)
  from assms [OF this] show ?thesis
    by (auto simp: TransactionRunner_Do_def v calm_def endDBSpan_def tx_Rollback_def tx_Commit_def Let_def
        split: option.split res.split prod.split)
qed

subsection \<open>The units of work\<close>

lemma calm_update_lots: "calm (update_lots (wallet_withdraw_service E S) ctx lots w)"
proof (induction lots arbitrary: w)
  case (Cons p ps)
  show ?case
    unfolding update_lots.simps
    by (simp only: nested.svc_simps record_simps) (intro calm_bind calm_repositories calm_leaf Cons.IH [unfolded nested.svc_simps])
qed (simp add: calm_def)

lemma calm_command: "NewProcessedCommand u now t k c s \<noteq> Panicked m"
  by (simp add: NewProcessedCommand_def)

lemma calm_pure: "(\<And>m. r \<noteq> Panicked m) \<Longrightarrow> (\<And>a. calm (f a)) \<Longrightarrow> (\<And>e. calm (g e)) \<Longrightarrow>
    calm (case r of Ok a \<Rightarrow> f a | Err e \<Rightarrow> g e | Panicked m \<Rightarrow> h m)"
  by (cases r) auto

lemma calm_record: "calm (record_withdrawal E (wallet_withdraw_service E S) req c ps ctx w)"
  unfolding record_withdrawal_def Let_def
  by (simp only: nested.svc_simps record_simps case_prod_unfold)
    (simp only: withdrawMarshalJSON_def res.case, intro calm_pure calm_command calm_leaf calm_bind [unfolded case_prod_unfold] calm_repositories)

lemma calm_deposit_tx: "calm (deposit_tx E (wallet_deposit_service E S) req c p s ctx w)"
  unfolding deposit_tx_def Let_def
  by (simp only: nested.svc_simps record_simps case_prod_unfold)
    (intro calm_pure calm_command calm_leaf calm_bind [unfolded case_prod_unfold] calm_repositories)

context pg_text begin

lemma calm_withdraw_tx:
  assumes "e_dec E = D" "rely S db_ok" "db_ok d" "st_tx (w_store w) = Some d" "ctx_tx ctx"
  shows "calm (withdraw_tx E (wallet_withdraw_service E S) req c x ctx w)"
proof -
  have "calm (PositionRepository_FindByClientAndInstrument E S ctx c (wq_InstrumentID req) w)" by (rule calm_repositories)
  then consider (err) e v where "PositionRepository_FindByClientAndInstrument E S ctx c (wq_InstrumentID req) w = (Err e, v)"
    | (ok) ps v where "PositionRepository_FindByClientAndInstrument E S ctx c (wq_InstrumentID req) w = (Ok ps, v)"
    by (cases "PositionRepository_FindByClientAndInstrument E S ctx c (wq_InstrumentID req) w"; cases "fst (PositionRepository_FindByClientAndInstrument E S ctx c (wq_InstrumentID req) w)") (auto simp: calm_def)
  then show ?thesis
  proof cases
    case err
    then show ?thesis by (simp add: withdraw_tx_def nested.svc_simps calm_leaf)
  next
    case ok
    from ok assms(5,4) obtain k where ps: "collectPositions E S (select_lots c (wq_InstrumentID req) (sv_interfere S k d)) None = Ok ps"
      by (rule find_lots_Ok)
    have db: "db_ok (sv_interfere S k d)" using assms(2,3) unfolding rely_def by blast
    obtain el tot where el: "select_eligible D ps [] (d_Zero D) = (el, tot)" by fastforce
    have "lot_ok val p \<and> 0 < free_value val p" if "p \<in> set el" for p
      using that select_eligible_spec [OF el] list_all2_in2 [OF collect_represents [OF assms(1) db ps]]
        represents_lot_ok select_lots_rows(3) [OF db] by fastforce
    from consume_lots_spec [OF assms(1) this, of el x "[]" v]
    obtain sold rem v' where "consume_lots E el x [] v = (Ok (sold, rem), v')" by auto
    then show ?thesis
      using ok calm_update_lots [of E S ctx sold v'] calm_record [of E S req c sold ctx]
      by (auto simp: withdraw_tx_def el assms(1) calm_def nested.svc_simps split: prod.split res.split)
  qed
qed

end

subsection \<open>The services\<close>

text \<open>A property \<open>I\<close> of the world is carried along, for the unit of work.\<close>

lemma ce_bind:
  "calm x \<Longrightarrow> I (snd x) \<Longrightarrow> (\<And>a v. I v \<Longrightarrow> calm_exec (f a v)) \<Longrightarrow> (\<And>e v. I v \<Longrightarrow> calm_exec (g e v)) \<Longrightarrow>
     calm_exec (case x of (r, v) \<Rightarrow> (case r of Ok a \<Rightarrow> f a v | Err e \<Rightarrow> g e v | Panicked m \<Rightarrow> h m v))"
  by (auto simp: calm_def calm_exec_def split: prod.split res.split)

lemma ce_pure: "(\<And>m. r \<noteq> Panicked m) \<Longrightarrow> (\<And>a. calm_exec (f a)) \<Longrightarrow> (\<And>e. calm_exec (g e)) \<Longrightarrow>
    calm_exec (case r of Ok a \<Rightarrow> f a | Err e \<Rightarrow> g e | Panicked m \<Rightarrow> h m)"
  by (cases r) auto

lemma ce_leaf: "calm_exec (Success a s, v)" "calm_exec (Failure s e, v)" "calm_exec (fail_with sp s e v)"
  by (simp_all add: calm_exec_def fail_with_def)

lemma ce_pair: "(\<And>a b. calm_exec (f a b)) \<Longrightarrow> calm_exec (case x of (a, b) \<Rightarrow> f a b)"
  by (cases x) simp

lemma ce_if: "calm_exec x \<Longrightarrow> calm_exec y \<Longrightarrow> calm_exec (if c then x else y)"
  by simp

lemma ce_snapshot: "deserializeSnapshot E t \<noteq> Crashed m" "deserializeWithdrawSnapshot E t \<noteq> Crashed m"
  by (simp_all add: deserializeSnapshot_def deserializeWithdrawSnapshot_def split: option.split)

lemma ce_replay: "(\<And>m. r \<noteq> Crashed m) \<Longrightarrow> calm_exec (finish_replay sp r v)"
  by (cases r) (auto simp: calm_exec_def finish_replay_def)

lemma ce_race:
  "calm_exec (case deposit_replayAfterRace E (wallet_deposit_service E S) ctx k v of (r, w) \<Rightarrow> finish_replay sp r w)"
  "calm_exec (case withdraw_replayAfterRace E (wallet_withdraw_service E S) ctx k v of (r, w) \<Rightarrow> finish_replay sp r w)"
  using calm_repositories(6) [of S ctx commandTypeDeposit k v] calm_repositories(6) [of S ctx commandTypeWithdraw k v]
  by (auto simp: deposit_replayAfterRace_def withdraw_replayAfterRace_def nested.svc_simps calm_def ce_snapshot
      split: prod.split res.split intro!: ce_replay)

lemma calm_validate:
  "validateDepositRequest E dreq \<noteq> Panicked m" "validateWithdrawRequest E wreq \<noteq> Panicked m"
  "ValidateProductType s \<noteq> Panicked m" "NewPosition D u now c a amt pr t \<noteq> Panicked m" "depositMarshalJSON r \<noteq> Panicked m"
  by (simp_all add: validateDepositRequest_def validateWithdrawRequest_def ValidateProductType_def NewPosition_def
      validatePositionAmounts_def depositMarshalJSON_def split: option.split)

lemma ce_deposit_commit: "calm_exec (deposit_commit E (wallet_deposit_service E S) ctx req c p resp s w)"
proof -
  have "calm (TransactionRunner_Do S ctx (deposit_tx E (wallet_deposit_service E S) req c p s) w)"
    by (rule calm_Do) (rule calm_deposit_tx)
  note run = this [unfolded nested.svc_simps]
  show ?thesis
    unfolding deposit_commit_def
    by (simp only: nested.svc_simps record_simps)
      (intro ce_bind [where I = "\<lambda>_. True"] run ce_if ce_leaf ce_race [unfolded nested.svc_simps] TrueI)
qed

lemma ce_deposit: "calm_exec (DepositService_Execute E (wallet_deposit_service E S) ctx req w)"
proof -
  have "calm_exec (deposit_body E (wallet_deposit_service E S) ctx req v)" for v
    unfolding deposit_body_def deposit_fresh_def Let_def case_prod_unfold
    by (simp only: nested.svc_simps record_simps)
      (intro ce_bind [where I = "\<lambda>_. True", unfolded case_prod_unfold] ce_pure calm_repositories calm_validate ce_if ce_leaf
        ce_replay ce_snapshot ce_deposit_commit [unfolded nested.svc_simps] TrueI)
  then show ?thesis by (simp add: DepositService_Execute_def calm_exec_def case_prod_unfold)
qed

context pg_text begin

lemma ce_withdraw:
  assumes "e_dec E = D" "rely S db_ok" "holds db_ok w"
  shows "calm_exec (WithdrawService_Execute E (wallet_withdraw_service E S) ctx req w)"
proof -
  have "calm (TransactionRunner_Do S ctx (withdraw_tx E (wallet_withdraw_service E S) req c x) v)"
    if "table_stable S db_ok v" for c x v
  proof (rule calm_Do)
    fix u :: "pg_store world"
    assume u: "w_store u = \<lparr>st_db = sv_interfere S (w_tick v) (committed v),
      st_tx = Some (sv_interfere S (w_tick v) (committed v))\<rparr>"
    have "db_ok (sv_interfere S (w_tick v) (committed v))"
      using that assms(2) unfolding table_stable_def holds_def rely_def committed_def by blast
    then show "calm (withdraw_tx E (wallet_withdraw_service E S) req c x (ctx\<lparr>ctx_tx := True\<rparr>) u)"
      by (rule calm_withdraw_tx [OF assms(1,2)]) (simp_all add: u)
  qed
  note run = this [unfolded nested.svc_simps]
  have commit: "calm_exec (withdraw_commit E (wallet_withdraw_service E S) ctx req c x v)"
    if "table_stable S db_ok v" for c x v
    unfolding withdraw_commit_def
    by (simp only: nested.svc_simps record_simps)
      (intro ce_bind [where I = "\<lambda>_. True"] run that ce_if ce_leaf ce_race [unfolded nested.svc_simps] TrueI)
  have "calm_exec (withdraw_body E (wallet_withdraw_service E S) ctx req v)" if "table_stable S db_ok v" for v
    unfolding withdraw_body_def withdraw_fresh_def
    by (simp only: nested.svc_simps record_simps)
      (intro ce_bind [where I = "table_stable S db_ok"] ce_pure ce_pair calm_repositories calm_validate ce_if ce_leaf
        ce_replay ce_snapshot commit [unfolded nested.svc_simps] find_inv that)
  moreover have "table_stable S db_ok (emit es w)" for es using assms(3) by (simp add: table_stable_def holds_def)
  ultimately show ?thesis by (simp add: WithdrawService_Execute_def calm_exec_def case_prod_unfold)
qed

end

end
