(* ===== verification/Http_Properties.thy ===== *)
theory Http_Properties
  imports Calm Repository_Properties
begin

text \<open>
  Properties of the Lambda as its callers and operators see it: every request is answered and
  with which statuses, what is refused before a service is reached, the JSON that goes in, and
  the spans, metrics and cold start flag of a request.
\<close>

subsection \<open>Answers\<close>

lemma deposit_answer:
  assumes "outcome_in [200, 201] [409, 422, 500] x" "\<And>m. x \<noteq> Crashed m"
  shows "\<exists>resp. fst (deposit_respond E lg t x u) = Ok resp \<and> rp_StatusCode resp \<in> {200, 201, 409, 422, 500} \<and>
    rp_Headers resp = [(''Content-Type'', ''application/json'')]"
  using assms by (cases x) (auto simp: deposit_respond_def errorResponse_def outcome_in_def Let_def)

lemma withdraw_answer:
  assumes "outcome_in [200] [404, 409, 422, 500] x" "\<And>m. x \<noteq> Crashed m"
  shows "\<exists>resp. fst (withdraw_respond E lg t x u) = Ok resp \<and> rp_StatusCode resp \<in> {200, 404, 409, 422, 500} \<and>
    rp_Headers resp = [(''Content-Type'', ''application/json'')]"
  using assms by (cases x) (auto simp: withdraw_respond_def errorResponse_def codedErrorResponse_def outcome_in_def)

text \<open>The statuses a route answers with.\<close>

definition route_statuses :: "string \<Rightarrow> nat set" where
  "route_statuses path =
     (if path = ''/deposits'' then {200, 201, 405, 409, 422, 500}
      else if path = ''/withdrawals'' then {200, 404, 405, 409, 422, 500} else {404})"

lemma lambda_answers:
  assumes "pg_text D val S" "e_dec E = D" "rely S db_ok" "holds db_ok w"
    and run: "wallet_lambda E S base ctx req w = (r, w')"
  shows "\<exists>resp. r = Ok resp \<and>
    rp_Headers resp = [(''Content-Type'', ''application/json'')] \<and> rp_StatusCode resp \<in> route_statuses (rq_Path req)"
  using run
proof (cases rule: lambda_events)
  case unserved
  then show ?thesis using run by (auto simp: refusal_def route_statuses_def)
next
  case (deposit lg q v x t u)
  have "x \<noteq> Crashed m" for m
    using ce_deposit [of E S "WithLogger ctx lg" q v] deposit(5) by (simp add: calm_exec_def)
  moreover have "outcome_in [200, 201] [409, 422, 500] x" unfolding deposit(5) by (rule deposit_outcomes)
  ultimately have "\<exists>resp. fst (deposit_respond E lg t x u) = Ok resp \<and>
      rp_StatusCode resp \<in> {200, 201, 409, 422, 500} \<and> rp_Headers resp = [(''Content-Type'', ''application/json'')]"
    by (intro deposit_answer)
  then show ?thesis
    using run deposit(2,6) by (auto simp: route_statuses_def)
next
  case (withdraw lg q v x t u)
  have "holds db_ok v" using assms(4) withdraw(4) by (simp add: holds_def)
  then have "x \<noteq> Crashed m" for m
    using pg_text.ce_withdraw [OF assms(1,2,3), of v "WithLogger ctx lg" q] withdraw(5) by (simp add: calm_exec_def)
  moreover have "outcome_in [200] [404, 409, 422, 500] x" unfolding withdraw(5) by (rule withdraw_outcomes)
  ultimately have "\<exists>resp. fst (withdraw_respond E lg t x u) = Ok resp \<and>
      rp_StatusCode resp \<in> {200, 404, 409, 422, 500} \<and> rp_Headers resp = [(''Content-Type'', ''application/json'')]"
    by (intro withdraw_answer)
  then show ?thesis
    using run withdraw(2,6) by (auto simp: route_statuses_def)
qed


definition demo_request :: api_request where
  "demo_request = \<lparr>rq_Method = ''POST'', rq_Path = ''/withdrawals'', rq_Body = ''{}''\<rparr>"


text \<open>C27. What reaches no service is refused and leaves no trace in the store.  A request with
  an unknown path is answered 404, one with another method than POST 405, one whose body is not
  the JSON of a command 422, each with its message as JSON; the store and the cold start flag
  are untouched and no metric is recorded.\<close>

theorem unserved_requests:
  assumes "wallet_lambda E S base ctx req w = (r, w')" "\<not> reaches_service req"
  shows "r = refusal req \<and> w_store w' = w_store w \<and> w_cold w' = w_cold w \<and>
    (\<exists>es. w_tel w' = w_tel w @ es \<and> filter is_metric es = [])"
  using assms(1)
  by (cases rule: lambda_events) (use assms(2) in \<open>auto simp: handler_events_def command_metrics_def\<close>)

theorem unserved_requests_witness:
  "\<exists>w'. wallet_lambda ref_env ref_server [] demo_ctx (demo_request\<lparr>rq_Method := ''GET''\<rparr>) (demo_world demo_lots_db) =
      (Ok \<lparr>rp_StatusCode = 405, rp_Headers = [(''Content-Type'', ''application/json'')],
           rp_Body = json_print (json_of_members [(''error'', ''method not allowed'')])\<rparr>, w') \<and>
    w_store w' = w_store (demo_world demo_lots_db)"
proof -
  let ?req = "demo_request\<lparr>rq_Method := ''GET''\<rparr>"
  obtain r w' where run: "wallet_lambda ref_env ref_server [] demo_ctx ?req (demo_world demo_lots_db) = (r, w')" by fastforce
  have "\<not> reaches_service ?req" by (simp add: reaches_service_def decoded_def demo_request_def)
  from unserved_requests [OF run this] run show ?thesis
    by (auto simp: refusal_def demo_request_def)
qed

subsection \<open>Spans, metrics, cold start\<close>

text \<open>C29. Spans are closed properly.  Whatever happens to a request, every span it starts is ended, and
  spans are ended in the order opposite to their start, so that the spans open before the request
  are open after it and no others.\<close>

theorem spans_nested:
  "\<exists>es. w_tel (snd (wallet_lambda E S base ctx req w)) = w_tel w @ es \<and> (\<forall>st. open_spans es st = Some st)"
proof -
  obtain r w' where run: "wallet_lambda E S base ctx req w = (r, w')" by fastforce
  then have "\<exists>c oc. handler_events c oc w w'" by (cases rule: lambda_events) blast+
  then show ?thesis by (auto simp: run handler_events_def balanced_def)
qed

lemma deposit_outcome_of:
  assumes "outcome_in [200, 201] [409, 422, 500] x" "fst (deposit_respond E lg t x u) = Ok resp"
  shows "command_outcome ''deposit'' x = Some (if 400 \<le> rp_StatusCode resp then ''failed''
    else if rp_StatusCode resp = 200 then ''replayed'' else ''success'')"
  using assms by (cases x) (auto simp: outcome_in_def deposit_respond_def errorResponse_def command_outcome_def Let_def)

lemma withdraw_outcome_of:
  assumes "outcome_in [200] [404, 409, 422, 500] x" "fst (withdraw_respond E lg t x u) = Ok resp"
  shows "command_outcome ''withdraw'' x = Some (if 400 \<le> rp_StatusCode resp then ''failed'' else ''success'')"
  using assms by (cases x) (auto simp: outcome_in_def withdraw_respond_def errorResponse_def codedErrorResponse_def
      command_outcome_def split: if_splits)

text \<open>The metrics of an answered request: one count and one duration, labelled alike.\<close>

definition request_metrics :: "api_request \<Rightarrow> nat \<Rightarrow> int \<Rightarrow> tel_event list" where
  "request_metrics req status ms =
     (let command = (if rq_Path req = ''/deposits'' then ''deposit'' else ''withdraw'');
          outcome = (if 400 \<le> status then ''failed''
            else if command = ''deposit'' \<and> status = 200 then ''replayed'' else ''success'');
          as = [(''command'', AStr command), (''outcome'', AStr outcome)]
      in [CounterAdd ''wallet.command.count'' 1 as, HistogramRecord ''wallet.command.duration'' ms as])"

text \<open>C28. Metrics are recorded once per command.  An answered request that reaches its service
  records one count and one duration, under the outcome its status tells, where only a deposit
  tells a replay from a success; any other request records none.  The cold start flag is
  cleared by the first request that reaches a service.\<close>

theorem metrics_once:
  assumes "wallet_lambda E S base ctx req w = (Ok resp, w')"
  shows "(\<exists>es ms. w_tel w' = w_tel w @ es \<and>
      filter is_metric es = (if reaches_service req then request_metrics req (rp_StatusCode resp) ms else [])) \<and>
    w_cold w' = (w_cold w \<and> \<not> reaches_service req)"
  using assms
proof (cases rule: lambda_events)
  case unserved
  then show ?thesis by (auto simp: handler_events_def command_metrics_def)
next
  case (deposit lg q v x t u)
  have "outcome_in [200, 201] [409, 422, 500] x" unfolding deposit(5) by (rule deposit_outcomes)
  from deposit_outcome_of [OF this deposit(6) [symmetric]] show ?thesis
    using deposit(1,2,3,7) by (auto simp: handler_events_def request_metrics_def command_metrics_def Let_def)
next
  case (withdraw lg q v x t u)
  have "outcome_in [200] [404, 409, 422, 500] x" unfolding withdraw(5) by (rule withdraw_outcomes)
  from withdraw_outcome_of [OF this withdraw(6) [symmetric]] show ?thesis
    using withdraw(1,2,3,7) by (auto simp: handler_events_def request_metrics_def command_metrics_def Let_def)
qed

lemma demo_request_served: "reaches_service demo_request"
proof -
  have "json_parse ''{}'' = Some (JObj [])" by code_simp
  then show ?thesis
    by (simp add: reaches_service_def decoded_def demo_request_def withdraw_request_of_json_def decode_strings_def
        string_fields_ok_def)
qed

theorem metrics_once_witness:
  "\<exists>resp w' ms. wallet_lambda ref_env ref_server [] demo_ctx demo_request (demo_world demo_lots_db) = (Ok resp, w') \<and>
     filter is_metric (w_tel w') = request_metrics demo_request (rp_StatusCode resp) ms \<and> \<not> w_cold w'"
proof -
  obtain r w' where run: "wallet_lambda ref_env ref_server [] demo_ctx demo_request (demo_world demo_lots_db) = (r, w')" by fastforce
  have "rely ref_server db_ok" "holds db_ok (demo_world demo_lots_db)"
    by (simp_all add: rely_def holds_def demo_lots_db_ok)
  from lambda_answers [OF reft.pg_text_axioms ref_fields(1) this run] obtain resp where resp: "r = Ok resp" by blast
  from metrics_once [OF run [unfolded resp]] show ?thesis
    using run resp demo_request_served by (auto simp: demo_world_def)
qed


subsection \<open>Refused withdrawals\<close>

definition available :: "uuid \<Rightarrow> string \<Rightarrow> db \<Rightarrow> rat" where
  "available c i d = (\<Sum>r \<leftarrow> select_lots c i d.
     max 0 (p_total_value r - p_collateral_value r - p_judiciary_collateral_value r))"

lemma quiet_Do_Err:
  assumes "quiet S" "w_store w = \<lparr>st_db = d, st_tx = None\<rparr>"
    and "\<And>v. w_store v = \<lparr>st_db = d, st_tx = Some d\<rparr> \<Longrightarrow>
      \<exists>e v'. fn (ctx\<lparr>ctx_tx := True\<rparr>) v = (Err e, v') \<and> w_store v' = w_store v \<and> P e"
  shows "\<exists>e w'. TransactionRunner_Do S ctx fn w = (Err e, w') \<and> w_store w' = w_store w \<and> P e"
proof -
  let ?w0 = "next_tick (startDBSpan ''db.transaction'' ''TRANSACTION'' w)"
  let ?v = "set_tx (Some (st_db (w_store ?w0))) ?w0"
  have "w_store ?v = \<lparr>st_db = d, st_tx = Some d\<rparr>" by (simp add: set_tx_def assms(2))
  from assms(3) [OF this] this obtain e v' where v': "fn (ctx\<lparr>ctx_tx := True\<rparr>) ?v = (Err e, v')"
    "w_store v' = \<lparr>st_db = d, st_tx = Some d\<rparr>" "P e" by auto
  have "TransactionRunner_Do S ctx fn w = endDBSpan ''db.transaction'' (Err e, set_tx None (next_tick v'))"
    unfolding TransactionRunner_Do_def quiet_call [OF assms(1)] prod.case option.case v'(1) res.case tx_Rollback_def ..
  then show ?thesis
    using v'(2,3) assms(2) by (simp add: endDBSpan_def set_tx_def)
qed

definition refused :: "'d env \<Rightarrow> withdraw_request \<Rightarrow> uuid \<Rightarrow> db \<Rightarrow> go_error \<Rightarrow> bool" where
  "refused E req c d e \<longleftrightarrow> (\<exists>m. e = Wrapped m
     (Sentinel (if select_lots c (wq_InstrumentID req) d = [] then ErrNotFound else ErrInsufficientPosition)))"

context pg_text begin

lemma withdraw_tx_refused:
  assumes "quiet S" "e_dec E = D" "db_ok d" "available c (wq_InstrumentID req) d < val x" "ctx_tx ctx"
    "w_store v = \<lparr>st_db = d', st_tx = Some d\<rparr>"
  shows "\<exists>e v'. withdraw_tx E (wallet_withdraw_service E S) req c x ctx v = (Err e, v') \<and> w_store v' = w_store v \<and> refused E req c d e"
proof -
  let ?rows = "select_lots c (wq_InstrumentID req) d"
  obtain ps where ps: "collectPositions E S ?rows None = Ok ps" "list_all2 (represents val) ?rows ps"
    using collectPositions_Ok [OF assms(2)] select_lots_rows(3) [OF assms(3)] by blast
  have "executorFromContext ctx (w_store v) = d" using assms(5,6) by (simp add: executorFromContext_def)
  then obtain v1 where v1: "PositionRepository_FindByClientAndInstrument E S ctx c (wq_InstrumentID req) v = (Ok ps, v1)"
    "w_store v1 = w_store v"
    using quiet_lots [OF assms(1)] ps(1) by metis
  obtain el tot where sel: "select_eligible D ps [] (d_Zero D) = (el, tot)" by fastforce
  then have "val tot = available c (wq_InstrumentID req) d"
    using select_eligible_spec [OF sel] sum_free_represents [OF ps(2)] by (simp add: val_simps available_def)
  moreover have "(ps = []) = (?rows = [])" using ps(2) by auto
  ultimately show ?thesis
    using v1 sel assms(4)
    by (simp add: withdraw_tx_def nested.svc_simps assms(2) val_simps refused_def)
qed

lemma withdraw_refused:
  assumes S: "quiet S" and E: "e_dec E = D"
    and req: "validateWithdrawRequest E req = Ok (c, x)"
    and d: "w_store w = \<lparr>st_db = d, st_tx = None\<rparr>" "db_ok d" "\<not> ctx_tx ctx"
    and new: "select_command commandTypeWithdraw (wq_OrderID req) d = Err ErrNoRows"
    and few: "c \<notin> c_client_id ` set (db_clients d) \<or> available c (wq_InstrumentID req) d < val x"
  shows "\<exists>e w'. WithdrawService_Execute E (wallet_withdraw_service E S) ctx req w =
      (Failure (if c \<notin> c_client_id ` set (db_clients d) then 422
        else if select_lots c (wq_InstrumentID req) d = [] then 404 else 409) e, w') \<and> w_store w' = w_store w"
proof -
  let ?w0 = "emit [SpanStart withdrawSpan, SpanAttr withdrawSpan ''wallet.order_id'' (wq_OrderID req)] w"
  have db: "executorFromContext ctx (w_store v) = d" if "w_store v = w_store w" for v :: "pg_store world"
    using that d by (simp add: executorFromContext_def)
  obtain v1 e where v1: "ProcessedCommandRepository_FindByTypeAndOrderID S ctx commandTypeWithdraw
      (wq_OrderID req) ?w0 = (Err e, v1)" "errors_Is e ErrNotFound" "w_store v1 = w_store w"
    using quiet_no_command [OF S(1), of commandTypeWithdraw "wq_OrderID req" ctx ?w0] new db [of ?w0] by auto
  show ?thesis
  proof (cases "c \<in> c_client_id ` set (db_clients d)")
    case False
    then have "select_client c (executorFromContext ctx (w_store v1)) = Err ErrNoRows"
      using db [OF v1(3)] by (simp add: select_client_def filter_key_absent)
    then have "\<exists>e v2. ClientRepository_FindByID E S ctx c v1 = (Err e, v2) \<and> errors_Is e ErrNotFound \<and> w_store v2 = w_store v1"
      by (simp add: ClientRepository_FindByID_def quiet_query [OF S] endDBSpan_def)
    with v1 req False show ?thesis
      by (auto simp: WithdrawService_Execute_def withdraw_body_def withdraw_fresh_def nested.svc_simps fail_with_def)
  next
    case True
    then obtain q where "select_client c (executorFromContext ctx (w_store v1)) = Ok q"
      using select_client_mem [of c d] db [OF v1(3)] by auto
    from quiet_client [OF S(1) this, of E] obtain x2 v2 where
      v2: "ClientRepository_FindByID E S ctx c v1 = (Ok x2, v2)" "w_store v2 = w_store w"
      using v1(3) by auto
    let ?fn = "withdraw_tx E (wallet_withdraw_service E S) req c x"
    have tx: "\<exists>e v'. ?fn (ctx\<lparr>ctx_tx := True\<rparr>) v = (Err e, v') \<and> w_store v' = w_store v \<and> refused E req c d e"
      if "w_store v = \<lparr>st_db = d, st_tx = Some d\<rparr>" for v
      using withdraw_tx_refused [OF S E d(2) _ _ that] few True by auto
    have "\<exists>e v3. TransactionRunner_Do S ctx ?fn v2 = (Err e, v3) \<and> w_store v3 = w_store v2 \<and> refused E req c d e"
      by (rule quiet_Do_Err [OF S, where d = d]) (simp add: v2(2) d(1), erule tx)
    then obtain e v3 where "TransactionRunner_Do S ctx ?fn v2 = (Err e, v3)" "w_store v3 = w_store w" "refused E req c d e"
      using v2(2) by auto
    with v1 v2 req True show ?thesis
      by (auto simp: WithdrawService_Execute_def withdraw_body_def withdraw_fresh_def withdraw_commit_def
          nested.svc_simps refused_def fail_with_def split: if_splits)
  qed
qed

end


text \<open>C19. A withdrawal that cannot be served is refused for the reason that holds.  On a quiet
  server, a valid request under a fresh order id is answered 422 if the client is unknown, 404
  if he holds no lot of the instrument, and 409 if the free value of his lots does not cover the
  desired value; the store is left as it was.\<close>

theorem withdraw_refusals:
  assumes "pg_text D val S" "quiet S" "e_dec E = D" "validateWithdrawRequest E req = Ok (c, x)"
    and "w_store w = \<lparr>st_db = d, st_tx = None\<rparr>" "db_ok d" "\<not> ctx_tx ctx"
    and "select_command ''WITHDRAW'' (wq_OrderID req) d = Err ErrNoRows"
    and "c \<notin> c_client_id ` set (db_clients d) \<or> available c (wq_InstrumentID req) d < val x"
  shows "\<exists>e w'. WithdrawService_Execute E (wallet_withdraw_service E S) ctx req w =
      (Failure (if c \<notin> c_client_id ` set (db_clients d) then 422
        else if select_lots c (wq_InstrumentID req) d = [] then 404 else 409) e, w') \<and> w_store w' = w_store w"
  by (rule pg_text.withdraw_refused [OF assms(1-7) _ assms(9)]) (use assms(8) in \<open>simp add: commandTypeWithdraw_def\<close>)

theorem withdraw_refusals_witness:
  "\<exists>e w'. WithdrawService_Execute ref_env (wallet_withdraw_service ref_env ref_server) demo_ctx
      (demo_withdraw\<lparr>wq_DesiredValue := ''1000''\<rparr>) (demo_world demo_lots_db) = (Failure 409 e, w')"
proof -
  let ?req = "demo_withdraw\<lparr>wq_DesiredValue := ''1000''\<rparr>"
  have "ref_NewFromString ''1000'' = Some (1000, 0)" by code_simp
  then have req: "validateWithdrawRequest ref_env ?req = Ok (7, (1000, 0))"
    by (simp add: validateWithdrawRequest_def demo_withdraw_def demo_uuids del: ref_NewFromString.simps)
  have i: "wq_InstrumentID ?req = ''CDB-9''" by (simp add: demo_withdraw_def)
  have "available 7 ''CDB-9'' demo_lots_db < ref_val (1000, 0)"
    by (simp add: available_def demo_select_lots) (simp add: demo_row_def)
  then have few: "7 \<notin> c_client_id ` set (db_clients demo_lots_db) \<or>
      available 7 (wq_InstrumentID ?req) demo_lots_db < ref_val (1000, 0)" by (simp add: i)
  have new: "select_command ''WITHDRAW'' (wq_OrderID ?req) demo_lots_db = Err ErrNoRows"
    by (simp add: select_command_def demo_lots_db_def demo_db_def)
  have mem: "7 \<in> c_client_id ` set (db_clients demo_lots_db)" by (simp add: demo_lots_db_def demo_db_def demo_client_def)
  have "w_store (demo_world demo_lots_db) = \<lparr>st_db = demo_lots_db, st_tx = None\<rparr>" by simp
  from withdraw_refusals [OF reft.pg_text_axioms ref_quiet ref_fields(1) req this demo_lots_db_ok demo_ctx_tx new few]
  show ?thesis unfolding i demo_select_lots using mem by (simp, blast)
qed

subsection \<open>Decoding\<close>

lemma members_decode:
  assumes "mset kvs = mset ms" "distinct (map (fold_name \<circ> fst) ms)"
    and "list_all (\<lambda>(k, s). printable k \<and> printable s) ms"
  shows "json_parse (json_print (json_of_members kvs)) = Some (json_of_members kvs)"
    and "(n, s) \<in> set ms \<Longrightarrow> get_string (map (\<lambda>(k, s). (k, JStr s)) kvs) n = s"
proof -
  have set: "set kvs = set ms" using assms(1) by (rule mset_eq_setD)
  have "mset (map (fold_name \<circ> fst) kvs) = mset (map (fold_name \<circ> fst) ms)" using assms(1) by simp
  then have dist: "distinct (map (fold_name \<circ> fst) kvs)" using assms(2) by (metis mset_eq_imp_distinct_iff)
  then show "get_string (map (\<lambda>(k, s). (k, JStr s)) kvs) n = s" if "(n, s) \<in> set ms"
    using get_string_members set that by blast
  have "distinct (map fst kvs)" using dist by (metis distinct_map map_map)
  then have "jsonb_safe (json_of_members kvs)"
    using assms(3) set by (auto simp: json_of_members_def list_all_iff comp_def case_prod_unfold)
  moreover have "json_depth (json_of_members kvs) \<le> 1"
    by (auto simp: json_of_members_def case_prod_unfold image_constant_conv)
  ultimately show "json_parse (json_print (json_of_members kvs)) = Some (json_of_members kvs)"
    by (intro json_parse_print) (simp_all add: jsonb_safe_plain maxNestingDepth_def)
qed

definition deposit_request_members :: "deposit_request \<Rightarrow> (string \<times> string) list" where
  "deposit_request_members q =
     [(''client_id'', dr_ClientID q), (''asset_id'', dr_AssetID q), (''order_id'', dr_OrderID q),
      (''amount'', dr_Amount q), (''unit_price'', dr_UnitPrice q)]"

lemma deposit_request_decodes:
  assumes "mset kvs = mset (deposit_request_members q)" "list_all (\<lambda>(k, s). printable s) (deposit_request_members q)"
  shows "decoded deposit_request_of_json \<lparr>rq_Method = ''POST'', rq_Path = path,
      rq_Body = json_print (json_of_members kvs)\<rparr> = Some q"
proof -
  have "distinct (map fold_name [''client_id'', ''asset_id'', ''order_id'', ''amount'', ''unit_price''])" by code_simp
  then have ms: "distinct (map (fold_name \<circ> fst) (deposit_request_members q))"
    "list_all (\<lambda>(k, s). printable k \<and> printable s) (deposit_request_members q)"
    using assms(2) by (simp_all add: deposit_request_members_def)
  note get = members_decode(2) [OF assms(1) ms]
  let ?f = "get_string (map (\<lambda>(k, s). (k, JStr s)) kvs)"
  have "?f ''client_id'' = dr_ClientID q" "?f ''asset_id'' = dr_AssetID q" "?f ''order_id'' = dr_OrderID q"
    "?f ''amount'' = dr_Amount q" "?f ''unit_price'' = dr_UnitPrice q"
    by (rule get; simp add: deposit_request_members_def)+
  then show ?thesis
    by (simp add: decoded_def members_decode(1) [OF assms(1) ms] deposit_request_of_json_def)
      (simp add: json_of_members_def decode_strings_def string_fields_members)
qed

text \<open>C30. A deposit request survives its JSON form.  The document of a request, with its members in
  any order and printable texts, decodes to that very request.\<close>

theorem request_decoded:
  assumes "mset kvs = mset (deposit_request_members q)" "list_all (\<lambda>(k, s). printable s) (deposit_request_members q)"
  shows "decoded deposit_request_of_json \<lparr>rq_Method = ''POST'', rq_Path = path,
      rq_Body = json_print (json_of_members kvs)\<rparr> = Some q"
  using assms by (rule deposit_request_decodes)

theorem request_decoded_witness:
  "decoded deposit_request_of_json \<lparr>rq_Method = ''POST'', rq_Path = ''/deposits'',
     rq_Body = json_print (json_of_members (rev (deposit_request_members demo_deposit)))\<rparr> = Some demo_deposit"
  by (rule request_decoded) (simp_all add: deposit_request_members_def demo_deposit_def)




end
