(* ===== verification/Session_Properties.thy ===== *)
theory Session_Properties
  imports Sessions Http_Properties
begin

text \<open>
  The two properties of whole sessions: an order is executed once and always answered alike, and
  a wallet alone on its server is the ledger.
\<close>

subsection \<open>A deposit and its repetition\<close>

definition demo_order :: api_request where
  "demo_order = \<lparr>rq_Method = ''POST'', rq_Path = ''/deposits'',
     rq_Body = json_print (json_of_members (deposit_request_members demo_deposit))\<rparr>"

lemma demo_order_decoded:
  "decoded deposit_request_of_json demo_order = Some demo_deposit" "rq_Path demo_order = ''/deposits''"
  "order_of demo_order = Some (''DEPOSIT'', ''order-1'')"
proof -
  show d: "decoded deposit_request_of_json demo_order = Some demo_deposit"
    unfolding demo_order_def by (rule deposit_request_decodes) (simp_all add: deposit_request_members_def demo_deposit_def)
  show p: "rq_Path demo_order = ''/deposits''" by (simp add: demo_order_def)
  show "order_of demo_order = Some (''DEPOSIT'', ''order-1'')"
    by (simp add: order_of_def d p) (simp add: demo_deposit_def commandTypeDeposit_def)
qed

lemma demo_order_created:
  assumes "committed w = demo_db"
  shows "\<exists>r w'. wallet_lambda ref_env ref_server [] demo_ctx demo_order w = (r, w') \<and> status_of r = Some 201"
proof -
  obtain r w' where run: "wallet_lambda ref_env ref_server [] demo_ctx demo_order w = (r, w')" by fastforce
  then have "status_of r = Some 201"
  proof (cases rule: lambda_exchange)
    case (deposit q lg t v x v')
    have can: "can_deposit ref_env (committed v) demo_deposit 7 9"
      using deposit(3) assms demo_can_deposit by (simp add: committed_def)
    have "\<not> ctx_tx (WithLogger demo_ctx lg)" by (simp add: WithLogger_def demo_ctx_tx)
    from reft.deposit_succeeds [OF ref_quiet ref_fields(1) ref_jsonb_text ref_uuid_texts demo_deposit_valid can demo_values this]
    show ?thesis using deposit(2,5,6) by (auto simp: demo_order_decoded exec_status_def)
  qed (simp_all add: demo_order_decoded)
  with run show ?thesis by blast
qed

lemma demo_order_repeated:
  assumes "replay_body ref_env (''DEPOSIT'', ''order-1'') (committed w) = Some b"
  shows "\<exists>r w'. wallet_lambda ref_env ref_server [] demo_ctx demo_order w = (r, w') \<and> status_of r = Some 200"
proof -
  obtain r w' where run: "wallet_lambda ref_env ref_server [] demo_ctx demo_order w = (r, w')" by fastforce
  obtain rec resp where rec: "select_command ''DEPOSIT'' ''order-1'' (committed w) = Ok rec"
    "deserializeSnapshot ref_env (k_response_snapshot rec) = Success resp 200"
    using assms by (auto simp: replay_body_def commandTypeDeposit_def dest: load_status split: res.splits exec.splits)
  from run have "status_of r = Some 200"
  proof (cases rule: lambda_exchange)
    case (deposit q lg t v x v')
    have q: "q = demo_deposit" using deposit(2) by (simp add: demo_order_decoded)
    have "select_command commandTypeDeposit (dr_OrderID demo_deposit) (sv_interfere ref_server (w_tick v) (committed v)) = Ok rec"
      using rec(1) deposit(3) by (simp add: committed_def commandTypeDeposit_def demo_deposit_def)
    moreover have "\<not> ctx_tx (WithLogger demo_ctx lg)" by (simp add: WithLogger_def demo_ctx_tx)
    ultimately have "x = deserializeSnapshot ref_env (k_response_snapshot rec)"
      using deposit_hit(1) [OF demo_deposit_valid ref_server_fields(2)] deposit(6) q by blast
    then show ?thesis using deposit(5) rec(2) by (simp add: exec_status_def)
  qed (simp_all add: demo_order_decoded)
  with run show ?thesis by blast
qed


text \<open>C6. An order is executed once, whatever happens between its repetitions.  In any session, with
  commits of other sessions, faults of the driver and restarts, at most one deposit of an order is
  answered 201, and all successful answers to the same order, deposits or withdrawals, fresh or
  repeated, carry the same body.\<close>

theorem orders_answered_once:
  assumes "session E S base extends_db w tr w'"
    and "decimal_arith (e_dec E) val" "uuid_texts E" "jsonb_text (sv_jsonb S)" "growing S"
  shows "length (filter (\<lambda>(req, r). order_of req = Some order \<and> status_of r = Some 201) tr) \<le> 1 \<and>
    (\<forall>(req, r) \<in> set tr. \<forall>(req', r') \<in> set tr. order_of req' = order_of req \<longrightarrow>
       status_of r \<in> {Some 200, Some 201} \<longrightarrow> status_of r' \<in> {Some 200, Some 201} \<longrightarrow>
       order_of req \<noteq> None \<and> body_of r \<noteq> None \<and> body_of r' = body_of r)"
proof -
  note inv = session_accounted [OF assms]
  have "order_of req \<noteq> None \<and> body_of r \<noteq> None \<and> body_of r' = body_of r"
    if "(req, r) \<in> set tr" "(req', r') \<in> set tr" "order_of req' = order_of req"
      "status_of r \<in> {Some 200, Some 201}" "status_of r' \<in> {Some 200, Some 201}" for req r req' r'
  proof -
    have "accounted E (committed w') (req, r)" "accounted E (committed w') (req', r')" using inv that by blast+
    with that show ?thesis unfolding accounted_def prod.case by (metis option.distinct(1) option.inject)
  qed
  with inv show ?thesis unfolding created_def by blast
qed

theorem orders_answered_once_witness:
  "\<exists>r1 r2 w'. session ref_env ref_server [] extends_db (demo_world demo_db) [(demo_order, r1), (demo_order, r2)] w' \<and>
     status_of r1 = Some 201 \<and> status_of r2 = Some 200 \<and> body_of r2 = body_of r1"
proof -
  note surroundings = refd.decimal_arith_axioms [folded ref_fields(1)] ref_uuid_texts ref_jsonb_text quiet_growing [OF ref_quiet]
  let ?w0 = "set_tx None (demo_world demo_db)"
  obtain r1 w1 where one: "wallet_lambda ref_env ref_server [] demo_ctx demo_order ?w0 = (r1, w1)" "status_of r1 = Some 201"
    using demo_order_created [of ?w0] by auto
  obtain b where "replay_body ref_env (''DEPOSIT'', ''order-1'') (committed w1) = Some b"
    using success_recorded [OF one(1) _ demo_ctx_tx surroundings] one(2) by (auto simp: demo_order_decoded)
  then obtain r2 w2 where two: "wallet_lambda ref_env ref_server [] demo_ctx demo_order (set_tx None w1) = (r2, w2)"
    "status_of r2 = Some 200"
    using demo_order_repeated [of "set_tx None w1" b] by auto
  have run: "session ref_env ref_server [] extends_db (demo_world demo_db) [(demo_order, r1), (demo_order, r2)] w2"
    using session.request [OF session.request [OF session.start demo_ctx_tx one(1)] demo_ctx_tx two(1)] by simp
  note alike = orders_answered_once [OF this surroundings, THEN conjunct2, THEN bspec, of "(demo_order, r1)",
      unfolded prod.case, THEN bspec, of "(demo_order, r2)", unfolded prod.case]
  have "body_of r2 = body_of r1" using alike one(2) two(2) by (simp only: list.set insert_iff simp_thms)
  with run one(2) two(2) show ?thesis by blast
qed

subsection \<open>The ledger\<close>

text \<open>C2. A wallet alone on its server implements the ledger.  Whatever requests it is sent, in
  whatever order and under whatever faults, with restarts between them, the exchange of requests
  and answers is a run of the ledger from its tables before to its tables after; the tables keep
  the schema, no account is ever negative, and no executed order is forgotten.\<close>

theorem sessions_refine_ledger:
  assumes "pg_text D val S" "e_dec E = D" "\<And>k d. sv_interfere S k d = d" "\<And>k. \<not> sv_commit_applied S k"
    and "session E S base (=) w tr w'" "db_ok (committed w)"
  shows "ledger_run E val (ledger_of (committed w)) tr (ledger_of (committed w')) \<and> db_ok (committed w') \<and>
    (\<forall>c i. 0 \<le> ld_accounts (ledger_of (committed w')) c i) \<and>
    ld_orders (ledger_of (committed w)) \<subseteq> ld_orders (ledger_of (committed w'))"
proof -
  from assms(5) have "ledger_run E val (ledger_of (committed w)) tr (ledger_of (committed w')) \<and> db_ok (committed w')"
  proof induction
    case start
    then show ?case using assms(6) run_none by blast
  next
    case (request tr u ctx req r v)
    then have "ledger_step E val (ledger_of (committed u)) (req, r) (ledger_of (committed v))"
      using lambda_ledger_step [OF assms(1-4) request.hyps(3,2)] by simp
    moreover have "db_ok (committed v)"
      using lambda_ok [OF assms(3), of "set_tx None u" E base ctx req] request by simp
    ultimately show ?case using request.IH run_step by blast
  qed simp_all
  moreover have "decimal_arith (e_dec E) val" using assms(1,2) by (simp add: pg_text_def)
  moreover have "0 \<le> ld_accounts (ledger_of (committed w)) c i" for c i using holding_nonneg [OF assms(6)] by simp
  ultimately show ?thesis using ledger_run_safe by blast
qed

theorem sessions_refine_ledger_witness:
  "\<exists>r w'. session ref_env ref_server [] (=) (demo_world demo_db) [(demo_order, r)] w' \<and> status_of r = Some 201 \<and>
     ledger_run ref_env ref_val (ledger_of demo_db) [(demo_order, r)] (ledger_of (committed w'))"
proof -
  obtain r w' where one: "wallet_lambda ref_env ref_server [] demo_ctx demo_order (set_tx None (demo_world demo_db)) = (r, w')"
    "status_of r = Some 201"
    using demo_order_created [of "set_tx None (demo_world demo_db)"] by auto
  have run: "session ref_env ref_server [] (=) (demo_world demo_db) [(demo_order, r)] w'"
    using session.request [OF session.start demo_ctx_tx one(1)] by simp
  have "db_ok (committed (demo_world demo_db))"
    by (simp add: db_ok_def demo_db_def demo_client_def demo_asset_def asset_checks_def)
  from sessions_refine_ledger [OF reft.pg_text_axioms ref_fields(1) ref_server_fields(1,3) run this] run one(2)
  show ?thesis by auto
qed


end
