(* ===== verification/Races.thy ===== *)
theory Races
  imports Sessions
begin

text \<open>
  Deposits that race.  On a server that answers every call, other sessions may commit between any
  two statements of a deposit, the same order included (\<open>civil\<close>: they keep what is recorded, do not
  reuse the UUIDs this process draws, and store readable snapshots).  Whatever they do, the deposit
  succeeds: it finds the order recorded, executes it, or loses the race for the unique index and
  replays the winner's response (\<open>replayAfterRace\<close>).
\<close>

subsection \<open>A server that answers, and civil neighbours\<close>

definition answering :: "pg_server \<Rightarrow> bool" where
  "answering S \<longleftrightarrow> (\<forall>k. sv_fault S k = None \<and> sv_stream S k = None)"

definition fresh_positions :: "'d env \<Rightarrow> db \<Rightarrow> bool" where
  "fresh_positions E d \<longleftrightarrow> (\<forall>k. e_uuidNew E k \<notin> p_position_id ` set (db_positions d))"

definition fresh_commands :: "'d env \<Rightarrow> db \<Rightarrow> bool" where
  "fresh_commands E d \<longleftrightarrow> (\<forall>k. e_uuidNew E k \<notin> k_command_id ` set (db_commands d))"

definition replayable :: "'d env \<Rightarrow> db \<Rightarrow> bool" where
  "replayable E d \<longleftrightarrow> (\<forall>r \<in> set (db_commands d).
     (k_command_type r = commandTypeDeposit \<longrightarrow> (\<exists>resp. deserializeSnapshot E (k_response_snapshot r) = Success resp 200)) \<and>
     (k_command_type r = commandTypeWithdraw \<longrightarrow> (\<exists>resp. deserializeWithdrawSnapshot E (k_response_snapshot r) = Success resp 200)))"

text \<open>Which commands others commit does not depend on positions this session has not committed.\<close>

definition civil :: "'d env \<Rightarrow> pg_server \<Rightarrow> bool" where
  "civil E S \<longleftrightarrow> growing S \<and>
     rely S (fresh_positions E) \<and> rely S (fresh_commands E) \<and> rely S (replayable E) \<and>
     (\<forall>k d d'. db_commands d = db_commands d' \<longrightarrow>
        db_commands (sv_interfere S k d) = db_commands (sv_interfere S k d'))"

definition offered :: "uuid \<Rightarrow> uuid \<Rightarrow> db \<Rightarrow> bool" where
  "offered c a d \<longleftrightarrow> c \<in> c_client_id ` set (db_clients d) \<and>
     (\<exists>r. select_asset (\<lambda>r. a_asset_id r = a) d = Ok r \<and> a_product_type r \<in> set validProductTypes)"

definition depositable :: "'d env \<Rightarrow> uuid \<Rightarrow> uuid \<Rightarrow> db \<Rightarrow> bool" where
  "depositable E c a d \<longleftrightarrow> offered c a d \<and> fresh_positions E d \<and> fresh_commands E d \<and> replayable E d"

lemma select_asset_extends:
  "extends_db d d' \<Longrightarrow> select_asset P d = Ok r \<Longrightarrow> select_asset P d' = Ok r"
  by (auto simp: select_asset_def extends_db_def prefix_def split: list.splits)

lemma offered_extends: "extends_db d d' \<Longrightarrow> offered c a d \<Longrightarrow> offered c a d'"
  unfolding offered_def by (meson image_mono select_asset_extends set_mono_prefix extends_db_def subsetD)

lemma civil_rely:
  assumes "civil E S"
  shows "rely S (offered c a)" "rely S (depositable E c a)"
proof -
  show offered: "rely S (offered c a)"
    using assms offered_extends unfolding civil_def growing_def rely_def by blast
  show "rely S (depositable E c a)"
    using assms offered unfolding civil_def rely_def depositable_def by blast
qed

lemma select_command_cases:
  obtains (found) r where "select_command t k d = Ok r" | (missing) "select_command t k d = Err ErrNoRows"
  by (cases "filter (\<lambda>r. k_command_type r = t \<and> k_order_id r = k) (db_commands d)")
    (auto simp: select_command_def)

lemma select_command_present: "(t, k) \<in> order_ids d \<Longrightarrow> \<exists>r. select_command t k d = Ok r"
  by (rule select_command_cases [of t k d])
    (auto simp: order_ids_def select_command_def filter_empty_conv split: list.splits)

lemma replayable_response:
  "replayable E d \<Longrightarrow> select_command commandTypeDeposit k d = Ok r \<Longrightarrow>
     \<exists>resp. deserializeSnapshot E (k_response_snapshot r) = Success resp 200"
  "replayable E d \<Longrightarrow> select_command commandTypeWithdraw k d = Ok r \<Longrightarrow>
     \<exists>resp. deserializeWithdrawSnapshot E (k_response_snapshot r) = Success resp 200"
proof -
  have "r \<in> set (db_commands d) \<and> k_command_type r = t" if "select_command t k d = Ok r" for t
    using that by (auto simp: select_command_def split: list.splits dest!: filter_eq_ConsD)
  then show "replayable E d \<Longrightarrow> select_command commandTypeDeposit k d = Ok r \<Longrightarrow>
      \<exists>resp. deserializeSnapshot E (k_response_snapshot r) = Success resp 200"
    "replayable E d \<Longrightarrow> select_command commandTypeWithdraw k d = Ok r \<Longrightarrow>
      \<exists>resp. deserializeWithdrawSnapshot E (k_response_snapshot r) = Success resp 200"
    unfolding replayable_def by blast+
qed

subsection \<open>One call\<close>

definition after_others :: "pg_server \<Rightarrow> pg_store world \<Rightarrow> pg_store world" where
  "after_others S w = w\<lparr>w_tick := Suc (w_tick w),
     w_store := \<lparr>st_db = sv_interfere S (w_tick w) (st_db (w_store w)),
                 st_tx = map_option (sv_interfere S (w_tick w)) (st_tx (w_store w))\<rparr>\<rparr>"

lemma answering_call: "answering S \<Longrightarrow> pg_call S w = (None, after_others S w)"
  by (simp add: answering_def pg_call_def after_others_def Let_def)

lemma after_others_store [simp]:
  "st_db (w_store (after_others S w)) = sv_interfere S (w_tick w) (st_db (w_store w))"
  "st_tx (w_store (after_others S w)) = map_option (sv_interfere S (w_tick w)) (st_tx (w_store w))"
  by (simp_all add: after_others_def)

lemma startDBSpan_state [simp]:
  "committed (startDBSpan sp op w) = committed w" "w_tick (startDBSpan sp op w) = w_tick w"
  by (simp_all add: startDBSpan_def committed_def)

lemma after_others_committed [simp]:
  "committed (after_others S w) = sv_interfere S (w_tick w) (committed w)" "committed (emit es w) = committed w"
  "committed (set_tx t w) = committed w"
  by (simp_all add: committed_def set_tx_def)

lemma raced_query:
  "answering S \<Longrightarrow> \<not> ctx_tx ctx \<Longrightarrow>
     pg_query S ctx q w = (q (sv_interfere S (w_tick w) (committed w)), after_others S w)"
  by (simp add: pg_query_def answering_call executorFromContext_def) (simp add: committed_def)

lemma raced_exec:
  "answering S \<Longrightarrow> ctx_tx ctx \<Longrightarrow> st_tx (w_store w) = Some d \<Longrightarrow>
     pg_exec S ctx x w =
       (case x (sv_interfere S (w_tick w) d) of
          Ok (y, d') \<Rightarrow> (Ok y, set_tx (Some d') (after_others S w))
        | Err e \<Rightarrow> (Err e, after_others S w)
        | Panicked m \<Rightarrow> (Panicked m, after_others S w))"
  by (simp add: pg_exec_def answering_call executorFromContext_def write_through_def set_tx_def
      split: res.split)

text \<open>The reads of \<open>Execute\<close> under interference.\<close>

lemma raced_client:
  "answering S \<Longrightarrow> \<not> ctx_tx ctx \<Longrightarrow> d = sv_interfere S (w_tick w) (committed w) \<Longrightarrow> select_client c d = Ok r \<Longrightarrow>
     \<exists>v x. ClientRepository_FindByID E S ctx c w = (Ok x, v) \<and> committed v = d"
  by (simp add: ClientRepository_FindByID_def raced_query endDBSpan_def)

lemma raced_asset:
  "answering S \<Longrightarrow> \<not> ctx_tx ctx \<Longrightarrow> d = sv_interfere S (w_tick w) (committed w) \<Longrightarrow>
     select_asset (\<lambda>r. a_asset_id r = a) d = Ok r \<Longrightarrow>
     \<exists>v x. AssetRepository_FindByID E S ctx a w = (Ok x, v) \<and> committed v = d \<and> as_productType x = a_product_type r"
  by (simp add: AssetRepository_FindByID_def raced_query scanAsset_def endDBSpan_def ReconstructAsset_def)

lemma raced_command:
  assumes "answering S" "\<not> ctx_tx ctx"
  obtains (found) r cmd v where "select_command t k (committed v) = Ok r"
      "ProcessedCommandRepository_FindByTypeAndOrderID S ctx t k w = (Ok cmd, v)"
      "pc_responseSnapshot cmd = k_response_snapshot r" "committed v = sv_interfere S (w_tick w) (committed w)"
  | (missing) e v where "select_command t k (committed v) = Err ErrNoRows" "errors_Is e ErrNotFound"
      "ProcessedCommandRepository_FindByTypeAndOrderID S ctx t k w = (Err e, v)"
      "committed v = sv_interfere S (w_tick w) (committed w)"
  by (rule select_command_cases [of t k "sv_interfere S (w_tick w) (committed w)"])
    (auto simp: ProcessedCommandRepository_FindByTypeAndOrderID_def raced_query [OF assms] endDBSpan_def
      ReconstructProcessedCommand_def intro: found missing)

subsection \<open>Inside the transaction\<close>

text \<open>The view of the transaction and the committed tables hold the same commands: those of others.\<close>

definition in_step :: "'d env \<Rightarrow> db \<Rightarrow> pg_store world \<Rightarrow> bool" where
  "in_step E d w \<longleftrightarrow> st_tx (w_store w) = Some d \<and> db_commands d = db_commands (committed w) \<and>
     fresh_commands E (committed w) \<and> replayable E (committed w)"

lemma in_step_span [simp]: "in_step E d (startDBSpan sp op w) \<longleftrightarrow> in_step E d w"
  by (simp add: in_step_def startDBSpan_def)

lemma in_step_emit [simp]: "in_step E d (emit es w) \<longleftrightarrow> in_step E d w"
  by (simp add: in_step_def)

lemma in_step_tick [simp]: "in_step E d (next_tick w) \<longleftrightarrow> in_step E d w"
  by (simp add: in_step_def committed_def)

lemma in_step_tx: "in_step E d w \<Longrightarrow> st_tx (w_store w) = Some d"
  by (simp add: in_step_def)

lemma in_step_after:
  assumes "civil E S" "in_step E d w"
  shows "in_step E (sv_interfere S (w_tick w) d) (after_others S w)"
    and "db_commands d' = db_commands (sv_interfere S (w_tick w) d) \<Longrightarrow>
      in_step E d' (set_tx (Some d') (after_others S w))"
proof -
  have "fresh_commands E (sv_interfere S (w_tick w) (committed w))" "replayable E (sv_interfere S (w_tick w) (committed w))"
    using assms unfolding civil_def rely_def in_step_def by blast+
  moreover have "db_commands (sv_interfere S (w_tick w) d) = db_commands (sv_interfere S (w_tick w) (committed w))"
    using assms unfolding civil_def in_step_def by blast
  ultimately show "in_step E (sv_interfere S (w_tick w) d) (after_others S w)"
    "db_commands d' = db_commands (sv_interfere S (w_tick w) d) \<Longrightarrow> in_step E d' (set_tx (Some d') (after_others S w))"
    using assms(2) by (simp_all add: in_step_def) (simp add: set_tx_def)
qed

lemma raced_create:
  assumes "answering S" "civil E S" "ctx_tx ctx" "in_step E d w"
    and "insert_position E S p (sv_interfere S (w_tick w) d) = Ok ((), d')"
      "db_commands d' = db_commands (sv_interfere S (w_tick w) d)"
  shows "\<exists>v. PositionRepository_Create E S ctx p w = (Ok (), v) \<and> in_step E d' v"
proof -
  let ?w = "startDBSpan ''db.position.create'' ''INSERT'' w"
  note exec = raced_exec [OF assms(1,3), of ?w d]
  have "in_step E d' (set_tx (Some d') (after_others S ?w))"
    using in_step_after(2) [OF assms(2), of d ?w d'] assms(4,6) by simp
  then show ?thesis
    using assms(4) by (simp add: PositionRepository_Create_def exec in_step_tx assms(5) endDBSpan_def)
qed

lemma raced_update:
  assumes "answering S" "civil E S" "ctx_tx ctx" "in_step E d w"
    and "update_position E S p (sv_interfere S (w_tick w) d) = Ok (n, d')"
      "db_commands d' = db_commands (sv_interfere S (w_tick w) d)"
  shows "\<exists>r v. PositionRepository_Update E S ctx p w = (r, v) \<and> in_step E d' v \<and>
    r = (if n = 0 then Err (Wrapped (''position '' @ e_uuidString E (pos_positionID p)) (Sentinel ErrConcurrencyConflict)) else Ok ())"
proof -
  let ?w = "startDBSpan ''db.position.update'' ''UPDATE'' w"
  note exec = raced_exec [OF assms(1,3), of ?w d]
  have "in_step E d' (set_tx (Some d') (after_others S ?w))"
    using in_step_after(2) [OF assms(2), of d ?w d'] assms(4,6) by simp
  then show ?thesis
    using assms(4) by (simp add: PositionRepository_Update_def exec in_step_tx assms(5) endDBSpan_def)
qed

text \<open>The idempotency record is written, or the unique index names the order as taken.\<close>

lemma raced_record:
  assumes "answering S" "civil E S" "ctx_tx ctx" "in_step E d w"
    and "sv_jsonb S (pc_responseSnapshot cmd) = Some t" "pc_commandID cmd = e_uuidNew E k"
  obtains (written) v d' where "ProcessedCommandRepository_Create E S ctx cmd w = (Ok (), v)" "st_tx (w_store v) = Some d'"
  | (taken) v e where "ProcessedCommandRepository_Create E S ctx cmd w = (Err e, v)" "errors_Is e ErrDuplicate"
      "(pc_commandType cmd, pc_orderID cmd) \<in> order_ids (committed v)" "replayable E (committed v)"
proof -
  let ?w = "startDBSpan ''db.processed_command.create'' ''INSERT'' w" and ?d = "sv_interfere S (w_tick w) d"
  note exec = raced_exec [OF assms(1,3), of ?w d]
  have step: "in_step E ?d (after_others S ?w)" using in_step_after(1) [OF assms(2), of d ?w] assms(4) by simp
  then have order: "order_ids ?d = order_ids (committed (after_others S ?w))" by (simp add: in_step_def order_ids_def)
  show thesis
  proof (cases "(pc_commandType cmd, pc_orderID cmd) \<in> order_ids ?d")
    case True
    then have ins: "insert_command S cmd ?d = Err (pg_error S ''23505'')"
      using assms(5) by (fastforce simp: insert_command_def list_ex_iff order_ids_def)
    define e where "e = Wrapped (command_label (pc_commandType cmd) (pc_orderID cmd)) (Sentinel ErrDuplicate)"
    have "\<exists>v. ProcessedCommandRepository_Create E S ctx cmd w = (Err e, v) \<and> committed v = committed (after_others S ?w)"
      using assms(4) by (simp add: ProcessedCommandRepository_Create_def exec in_step_tx ins endDBSpan_def pg_error_def
          pgUniqueViolation_def e_def)
    then obtain v where v: "ProcessedCommandRepository_Create E S ctx cmd w = (Err e, v)"
      "committed v = committed (after_others S ?w)" by blast
    have "replayable E (committed v)" using step v(2) unfolding in_step_def by simp
    with v True order show thesis by (intro taken [of e v]) (simp_all add: e_def)
  next
    case False
    have "pc_commandID cmd \<notin> k_command_id ` set (db_commands ?d)"
      using step assms(6) by (simp add: in_step_def fresh_commands_def)
    then obtain d' where ins: "insert_command S cmd ?d = Ok ((), d')"
      using insert_command_Ok_iff [of S cmd ?d "()"] assms(5) False by (auto simp: order_ids_def)
    have "\<exists>v. ProcessedCommandRepository_Create E S ctx cmd w = (Ok (), v) \<and> st_tx (w_store v) = Some d'"
      using assms(4) by (simp add: ProcessedCommandRepository_Create_def exec in_step_tx ins endDBSpan_def set_tx_def)
    then show thesis using written by blast
  qed
qed

subsection \<open>The unit of work\<close>

lemma raced_Do:
  assumes "answering S"
    and body: "fn (ctx\<lparr>ctx_tx := True\<rparr>)
      (set_tx (Some (committed v)) v) = (r, v')" "v = after_others S (startDBSpan ''db.transaction'' ''TRANSACTION'' w)"
  shows "r = Ok x \<Longrightarrow> st_tx (w_store v') = Some d \<Longrightarrow> \<exists>u. TransactionRunner_Do S ctx fn w = (Ok x, u)"
    and "r = Err e \<Longrightarrow> \<exists>u. TransactionRunner_Do S ctx fn w = (Err e, u) \<and>
      committed u = sv_interfere S (w_tick v') (committed v')"
proof -
  have v: "fn (ctx\<lparr>ctx_tx := True\<rparr>) (set_tx (Some (sv_interfere S (w_tick w) (st_db (w_store w))))
      (after_others S (startDBSpan ''db.transaction'' ''TRANSACTION'' w))) = (r, v')"
    using body by (simp add: committed_def)
  note run = TransactionRunner_Do_def answering_call [OF assms(1)] v tx_Commit_def tx_Rollback_def endDBSpan_def
  show "\<exists>u. TransactionRunner_Do S ctx fn w = (Ok x, u)" if "r = Ok x" "st_tx (w_store v') = Some d"
    using that by (simp add: run)
  show "\<exists>u. TransactionRunner_Do S ctx fn w = (Err e, u) \<and> committed u = sv_interfere S (w_tick v') (committed v')"
    if "r = Err e"
    using that by (simp add: run)
qed

context pg_text begin

lemma raced_deposit_tx:
  assumes S: "answering S" "civil E S" "e_dec E = D"
    and d: "offered c a d" "fresh_positions E d" "c \<noteq> 0" "dr_OrderID req \<noteq> []"
    and p: "fits val p" "pos_rowVersion p = 1" "pos_positionID p = e_uuidNew E k" "pos_clientID p = c" "pos_assetID p = a"
    and s: "s \<noteq> []" "sv_jsonb S s = Some t"
    and v: "ctx_tx ctx" "in_step E d v"
  obtains (fresh) v' d' where "deposit_tx E (wallet_deposit_service E S) req c p s ctx v = (Ok (), v')"
      "st_tx (w_store v') = Some d'"
  | (lost) v' e where "deposit_tx E (wallet_deposit_service E S) req c p s ctx v = (Err e, v')"
      "errors_Is e ErrDuplicate" "(commandTypeDeposit, dr_OrderID req) \<in> order_ids (committed v')"
      "replayable E (committed v')"
proof -
  note svc = wallet_deposit_service_def NewDepositService_def wiring_simps
  let ?d = "sv_interfere S (w_tick v) d"
  have later: "offered c a ?d" "fresh_positions E ?d"
    using d(1,2) S(2) civil_rely(1) [OF S(2)] unfolding civil_def rely_def by blast+
  have one: "int4_range (sint (pos_rowVersion p))" "0 < sint (pos_rowVersion p)"
    using p(2) by (simp_all add: int4_range_def)
  obtain d1 where d1: "insert_position E S p ?d = Ok ((), d1)" "db_commands d1 = db_commands ?d"
    using insert_position_fits [OF p(1) S(3) one, of ?d] later p(3-5) select_asset_mem
    unfolding offered_def fresh_positions_def by metis
  from raced_create [OF S(1,2) v d1] obtain w1 where
    w1: "PositionRepository_Create E S ctx p v = (Ok (), w1)" "in_step E d1 (next_tick (next_tick w1))" by auto
  let ?cmd = "\<lparr>pc_commandID = e_uuidNew E (w_tick w1), pc_commandType = commandTypeDeposit,
    pc_orderID = dr_OrderID req, pc_clientID = c, pc_responseSnapshot = s,
    pc_createdAt = e_now E (Suc (w_tick w1))\<rparr>"
  have cmd: "NewProcessedCommand (e_uuidNew E (w_tick w1)) (e_now E (Suc (w_tick w1))) commandTypeDeposit
      (dr_OrderID req) c s = Ok ?cmd"
    using d(3,4) s(1) by (simp add: NewProcessedCommand_def commandTypeDeposit_def)
  have snap: "sv_jsonb S (pc_responseSnapshot ?cmd) = Some t" "pc_commandID ?cmd = e_uuidNew E (w_tick w1)"
    using s(2) by simp_all
  note run = deposit_tx_def svc w1(1) cmd uuid_New_def time_Now_def
  from S(1,2) v(1) w1(2) snap show thesis
  proof (cases rule: raced_record)
    case (written v' d')
    then show thesis by (intro fresh) (simp_all add: run)
  next
    case (taken v' e)
    then show thesis by (intro lost [of "Wrapped ''create processed command'' e" v']) (simp_all add: run)
  qed
qed

end

subsection \<open>The deposit\<close>

lemma replay_after_race:
  assumes "answering S" "civil E S" "\<not> ctx_tx ctx" "replayable E (committed w)"
    and "(commandTypeDeposit, k) \<in> order_ids (committed w)"
  shows "\<exists>resp v. deposit_replayAfterRace E (wallet_deposit_service E S) ctx k w = (Success resp 200, v)"
proof -
  let ?d = "sv_interfere S (w_tick w) (committed w)"
  have d: "replayable E ?d" "(commandTypeDeposit, k) \<in> order_ids ?d"
    using assms(2,4,5) order_ids_mono unfolding civil_def growing_def rely_def by blast+
  obtain r where r: "select_command commandTypeDeposit k ?d = Ok r" using select_command_present [OF d(2)] by blast
  obtain resp where resp: "deserializeSnapshot E (k_response_snapshot r) = Success resp 200"
    using replayable_response(1) [OF d(1) r] by blast
  from assms(1,3) show ?thesis
  proof (cases rule: raced_command [of S ctx commandTypeDeposit k w])
    case (found r' cmd v)
    then show ?thesis
      using r resp by (simp add: deposit_replayAfterRace_def wallet_deposit_service_def NewDepositService_def wiring_simps)
  next
    case (missing e v)
    then show ?thesis using r by simp
  qed
qed

context pg_text begin

text \<open>Past the reads: the position, its snapshot, and the unit of work.\<close>

lemma raced_commit:
  assumes S: "answering S" "civil E S" "e_dec E = D" "\<not> ctx_tx ctx"
    and d: "depositable E c a (committed w)" "c \<noteq> 0" "dr_OrderID req \<noteq> []"
    and p: "fits val p" "pos_rowVersion p = 1" "pos_positionID p = e_uuidNew E k" "pos_clientID p = c" "pos_assetID p = a"
    and s: "s \<noteq> []" "sv_jsonb S s = Some t"
  shows "\<exists>resp' n w'. deposit_commit E (wallet_deposit_service E S) ctx req c p resp s w = (Success resp' n, w') \<and>
    n \<in> {200, 201}"
proof -
  let ?svc = "wallet_deposit_service E S" and ?v = "after_others S (startDBSpan ''db.transaction'' ''TRANSACTION'' w)"
  let ?tx = "deposit_tx E ?svc req c p s" and ?u = "set_tx (Some (committed ?v)) ?v"
  have do: "uow_Do (ds_unitOfWork ?svc) = TransactionRunner_Do S"
    by (simp add: wallet_deposit_service_def NewDepositService_def wiring_simps)
  have now: "depositable E c a (committed ?v)"
    using d(1) civil_rely(2) [OF S(2), of c a] by (simp add: rely_def)
  then have here: "offered c a (committed ?v)" "fresh_positions E (committed ?v)" "in_step E (committed ?v) ?u"
    by (simp_all add: depositable_def in_step_def) (simp add: set_tx_def)
  have tx: "ctx_tx (ctx\<lparr>ctx_tx := True\<rparr>)" by simp
  from S(1-3) here(1,2) d(2,3) p s tx here(3)
  show ?thesis
  proof (cases rule: raced_deposit_tx)
    case (fresh v' d')
    from raced_Do(1) [where fn = ?tx, OF S(1) fresh(1) refl refl fresh(2)] show ?thesis
      by (auto simp: deposit_commit_def do)
  next
    case (lost v' e)
    from raced_Do(2) [where fn = ?tx, OF S(1) lost(1) refl refl] obtain u where
      u: "TransactionRunner_Do S ctx ?tx w = (Err e, u)" "committed u = sv_interfere S (w_tick v') (committed v')" by blast
    have "replayable E (committed u)" "(commandTypeDeposit, dr_OrderID req) \<in> order_ids (committed u)"
      using lost(3,4) S(2) order_ids_mono unfolding u(2) civil_def growing_def rely_def by blast+
    from replay_after_race [OF S(1,2,4) this] show ?thesis
      using lost(2) u(1) by (auto simp: deposit_commit_def do finish_replay_def)
  qed
qed

end

context pg_text begin

lemma raced_deposit:
  assumes S: "answering S" "civil E S" "e_dec E = D" "jsonb_text (sv_jsonb S)" "uuid_texts E"
    and req: "validateDepositRequest E req = Ok (c, a, amt, pr)" "depositable E c a (committed w)" "c \<noteq> 0"
    and grid: "on_grid 6 (val amt)" "val amt < 10 ^ 12" "on_grid 8 (val pr)" "val pr < 10 ^ 12"
      "on_grid 8 (val amt * val pr)" "val amt * val pr < 10 ^ 12"
    and ctx: "\<not> ctx_tx ctx"
  shows "\<exists>resp n w'. DepositService_Execute E (wallet_deposit_service E S) ctx req w = (Success resp n, w') \<and> n \<in> {200, 201}"
proof -
  let ?svc = "wallet_deposit_service E S"
  let ?w0 = "emit [SpanStart depositSpan, SpanAttr depositSpan ''wallet.order_id'' (dr_OrderID req)] w"
  note svc = wallet_deposit_service_def NewDepositService_def wiring_simps
  have later: "depositable E c a (sv_interfere S k d)" if "depositable E c a d" for k d
    using civil_rely(2) [OF S(2)] that unfolding rely_def by blast
  have pos: "0 < val amt" "0 < val pr"
    using req(1) by (auto simp: validateDepositRequest_def S(3) val_simps split: if_splits option.splits)
  from S(1) ctx show ?thesis
  proof (cases rule: raced_command [of S ctx commandTypeDeposit "dr_OrderID req" ?w0])
    case (found r cmd v)
    have "replayable E (committed v)" using found(4) later [OF req(2)] by (simp add: depositable_def)
    then obtain resp where "deserializeSnapshot E (k_response_snapshot r) = Success resp 200"
      using replayable_response(1) [OF _ found(1)] by blast
    then show ?thesis
      using found(2,3) req(1) by (simp add: DepositService_Execute_def deposit_body_def svc finish_replay_def)
  next
    case (missing e v1)
    have 1: "depositable E c a (committed v1)" using missing(4) later [OF req(2)] by simp
    let ?d2 = "sv_interfere S (w_tick v1) (committed v1)"
    obtain q where "select_client c ?d2 = Ok q"
      using select_client_mem later [OF 1] unfolding depositable_def offered_def by blast
    from raced_client [OF S(1) ctx refl this] obtain v2 x2 where
      v2: "ClientRepository_FindByID E S ctx c v1 = (Ok x2, v2)" "committed v2 = ?d2" by blast
    have 2: "depositable E c a (committed v2)" using v2(2) later [OF 1] by simp
    let ?d3 = "sv_interfere S (w_tick v2) (committed v2)"
    obtain q3 where q3: "select_asset (\<lambda>r. a_asset_id r = a) ?d3 = Ok q3" "a_product_type q3 \<in> set validProductTypes"
      using later [OF 2] unfolding depositable_def offered_def by blast
    from raced_asset [OF S(1) ctx refl q3(1)] obtain v3 x3 where
      v3: "AssetRepository_FindByID E S ctx a v2 = (Ok x3, v3)" "committed v3 = ?d3" "as_productType x3 = a_product_type q3"
      by blast
    let ?k = "w_tick v3" and ?v4 = "next_tick (next_tick (next_tick v3))"
    have 3: "depositable E c a (committed ?v4)" using v3(2) later [OF 2] by (simp add: committed_def)
    obtain p where p: "NewPosition (e_dec E) (e_uuidNew E (Suc (Suc ?k))) (e_now E (Suc ?k)) c a amt pr
        (time_UTC (e_now E ?k)) = Ok p" "fits val p" "pos_rowVersion p = 1"
        "pos_positionID p = e_uuidNew E (Suc (Suc ?k))" "pos_clientID p = c" "pos_assetID p = a"
      using pos grid by (simp add: domain_simps S(3) val_simps fits_def position_inv_def)
    let ?resp = "position_to_dto E p"
    let ?s = "json_print (dto_json ?resp)"
    have pr: "printable_dto ?resp" by (rule printable_position_dto [OF S(3,5)])
    obtain t where s: "?s \<noteq> []" "sv_jsonb S ?s = Some t"
      using jsonb_text.accepts [OF S(4) json_parse_dto [OF pr] jsonb_safe_dto [OF pr]]
      by (auto simp: dto_json_def json_of_members_def)
    from raced_commit [OF S(1-3) ctx 3 req(3) validated_order [OF req(1)] p(2-6) s] obtain resp' n w' where
      "deposit_commit E ?svc ctx req c p ?resp ?s ?v4 = (Success resp' n, w')" "n \<in> {200, 201}" by blast
    with missing(2,3) v2(1) v3(1,3) p(1) q3(2) req(1) show ?thesis
      by (auto simp: DepositService_Execute_def deposit_body_def deposit_fresh_def svc ValidateProductType_def
          time_Now_def uuid_New_def toDepositResponse_def depositMarshalJSON_def Let_def)
  qed
qed

end

subsection \<open>Withdrawals that race\<close>

text \<open>Tables whose lots can be written back after a sale: prices with at most two decimals, so that
  a total fits its column, and versions below the maximum of theirs.\<close>

definition sellable :: "db \<Rightarrow> bool" where
  "sellable d \<longleftrightarrow> db_ok d \<and>
     (\<forall>r \<in> set (db_positions d). on_grid 2 (p_unit_price r) \<and> p_row_version r < 2147483647)"

definition withdrawable :: "'d env \<Rightarrow> uuid \<Rightarrow> db \<Rightarrow> bool" where
  "withdrawable E c d \<longleftrightarrow> sellable d \<and> c \<in> c_client_id ` set (db_clients d) \<and> fresh_commands E d \<and> replayable E d"

lemma withdrawable_rely:
  assumes "civil E S" "rely S sellable"
  shows "rely S (withdrawable E c)"
proof -
  have "c \<in> c_client_id ` set (db_clients (sv_interfere S k d))" if "c \<in> c_client_id ` set (db_clients d)" for k d
  proof -
    have "extends_db d (sv_interfere S k d)" using assms(1) unfolding civil_def growing_def by blast
    then obtain cs where "db_clients (sv_interfere S k d) = db_clients d @ cs"
      unfolding extends_db_def prefix_def by blast
    then show ?thesis using that by auto
  qed
  moreover have "rely S (fresh_commands E)" "rely S (replayable E)" using assms(1) by (simp_all add: civil_def)
  ultimately show ?thesis using assms(2) unfolding rely_def withdrawable_def by blast
qed

definition storable :: "('d \<Rightarrow> rat) \<Rightarrow> 'd position \<Rightarrow> bool" where
  "storable val q \<longleftrightarrow> fits val q \<and> 0 < sint (pos_rowVersion q) \<and> int4_range (sint (pos_rowVersion q)) \<and>
     int4_range (sint (pos_rowVersion q - 1))"

lemma writable_storable: "writable val d q \<Longrightarrow> storable val q"
  by (simp add: writable_def storable_def)

lemma raced_lots:
  assumes "answering S" "civil E S" "ctx_tx ctx" "in_step E d w"
    and "collectPositions E S (select_lots c i (sv_interfere S (w_tick w) d)) None = Ok ps"
  shows "\<exists>v. PositionRepository_FindByClientAndInstrument E S ctx c i w = (Ok ps, v) \<and>
    in_step E (sv_interfere S (w_tick w) d) v"
proof -
  let ?w = "startDBSpan ''db.position.find_by_client_and_instrument'' ''SELECT'' w"
  have step: "in_step E (sv_interfere S (w_tick w) d) (after_others S ?w)"
    using in_step_after(1) [OF assms(2), of d ?w] assms(4) by simp
  have "executorFromContext ctx (w_store (after_others S ?w)) = sv_interfere S (w_tick w) d"
    using assms(3) by (simp add: executorFromContext_def in_step_tx [OF step] del: after_others_store)
  then show ?thesis
    using step assms(1,5)
    by (simp add: PositionRepository_FindByClientAndInstrument_def pg_query_def answering_call [OF assms(1)]
        fetch_rows_def answering_def endDBSpan_def)
qed

context pg_text begin

text \<open>A lot that fits its columns is written back, or its version is no longer there.\<close>

lemma update_position_storable:
  assumes "e_dec E = D" "storable val q"
  obtains n d' where "update_position E S q d = Ok (n, d')" "db_commands d' = db_commands d"
proof -
  have q: "fits val q" "0 < sint (pos_rowVersion q)" "int4_range (sint (pos_rowVersion q))"
    "int4_range (sint (pos_rowVersion q - 1))" using assms(2) by (simp_all add: storable_def)
  have "position_checks (updated_row S q (val (pos_amount q), val (pos_unitPrice q), val (pos_totalValue q),
    val (pos_collateralValue q), val (pos_judiciaryCollateralValue q)) r)" for r
    using position_checks_fits [OF q(1,2)] by (simp add: updated_row_def)
  then show thesis
    using q numeric_columns_fits [OF q(1) assms(1)] that
    by (cases "filter (update_matches q) (db_positions d)") (auto simp: update_position_def list_all_iff)
qed

lemma raced_update_lots:
  assumes S: "answering S" "civil E S" "e_dec E = D" and ctx: "ctx_tx ctx"
  shows "in_step E d w \<Longrightarrow> (\<And>q. q \<in> set qs \<Longrightarrow> storable val q) \<Longrightarrow>
    (\<exists>v d'. update_lots (wallet_withdraw_service E S) ctx qs w = (Ok (), v) \<and> in_step E d' v) \<or>
    (\<exists>v e. update_lots (wallet_withdraw_service E S) ctx qs w = (Err e, v) \<and>
       errors_Is e ErrConcurrencyConflict \<and> \<not> errors_Is e ErrDuplicate)"
proof (induction qs arbitrary: d w)
  case (Cons q qs)
  have upd: "pr_Update (ws_positions (wallet_withdraw_service E S)) = PositionRepository_Update E S"
    by (simp add: wallet_withdraw_service_def NewWithdrawService_def wiring_simps)
  have "storable val q" using Cons.prems(2) by simp
  then obtain n d1 where "update_position E S q (sv_interfere S (w_tick w) d) = Ok (n, d1)"
    "db_commands d1 = db_commands (sv_interfere S (w_tick w) d)"
    by (rule update_position_storable [OF S(3)])
  from raced_update [OF S(1,2) ctx Cons.prems(1) this] obtain r v where
    v: "PositionRepository_Update E S ctx q w = (r, v)" "in_step E d1 v"
    "r = (if n = 0 then Err (Wrapped (''position '' @ e_uuidString E (pos_positionID q)) (Sentinel ErrConcurrencyConflict)) else Ok ())"
    by blast
  show ?case
  proof (cases "n = 0")
    case True
    then show ?thesis using v by (simp add: upd)
  next
    case False
    then show ?thesis using v Cons.IH [OF v(2)] Cons.prems(2) by (simp add: upd)
  qed
qed auto

end

context pg_text begin

lemma raced_record_withdrawal:
  assumes S: "answering S" "civil E S" "jsonb_text (sv_jsonb S)" and E: "e_dec E = D" "uuid_texts E"
    and req: "c \<noteq> 0" "wq_OrderID req \<noteq> []" and w: "ctx_tx ctx" "in_step E d w"
  obtains (fresh) resp v d' where "record_withdrawal E (wallet_withdraw_service E S) req c sold ctx w = (Ok resp, v)"
      "st_tx (w_store v) = Some d'"
  | (lost) v e where "record_withdrawal E (wallet_withdraw_service E S) req c sold ctx w = (Err e, v)"
      "errors_Is e ErrDuplicate" "(commandTypeWithdraw, wq_OrderID req) \<in> order_ids (committed v)"
      "replayable E (committed v)"
proof -
  note svc = wallet_withdraw_service_def NewWithdrawService_def wiring_simps
  let ?resp = "toWithdrawResponse E sold"
  let ?s = "json_print (withdraw_response_json ?resp)"
  have pr: "list_all printable_dto (wr_Positions ?resp)"
    by (simp add: toWithdrawResponse_def list_all_iff printable_position_dto [OF E])
  obtain t where t: "sv_jsonb S ?s = Some t"
    using jsonb_text.accepts [OF S(3) json_parse_withdraw [OF pr] jsonb_safe_withdraw [OF pr]] by blast
  let ?cmd = "\<lparr>pc_commandID = e_uuidNew E (w_tick w), pc_commandType = commandTypeWithdraw,
    pc_orderID = wq_OrderID req, pc_clientID = c, pc_responseSnapshot = ?s, pc_createdAt = e_now E (Suc (w_tick w))\<rparr>"
  have cmd: "NewProcessedCommand (e_uuidNew E (w_tick w)) (e_now E (Suc (w_tick w))) commandTypeWithdraw
      (wq_OrderID req) c ?s = Ok ?cmd"
    using req by (simp add: NewProcessedCommand_def commandTypeWithdraw_def withdraw_response_json_def)
  have snap: "sv_jsonb S (pc_responseSnapshot ?cmd) = Some t" "pc_commandID ?cmd = e_uuidNew E (w_tick w)"
    "in_step E d (next_tick (next_tick w))" using t w(2) by simp_all
  note run = record_withdrawal_def svc cmd withdrawMarshalJSON_def uuid_New_def time_Now_def Let_def
  from S(1,2) w(1) snap(3,1,2) show thesis
  proof (cases rule: raced_record)
    case (written v d')
    then show thesis by (intro fresh) (simp_all add: run)
  next
    case (taken v e)
    then show thesis by (intro lost [of "Wrapped ''create processed command'' e" v]) (simp_all add: run)
  qed
qed

lemma raced_withdraw_tx:
  assumes S: "answering S" "civil E S" "jsonb_text (sv_jsonb S)" "rely S sellable" and E: "e_dec E = D" "uuid_texts E"
    and req: "c \<noteq> 0" "wq_OrderID req \<noteq> []" and w: "ctx_tx ctx" "in_step E d w" "sellable d"
  obtains (fresh) resp v d' where "withdraw_tx E (wallet_withdraw_service E S) req c x ctx w = (Ok resp, v)"
      "st_tx (w_store v) = Some d'"
  | (refused) v e where "withdraw_tx E (wallet_withdraw_service E S) req c x ctx w = (Err e, v)" "\<not> errors_Is e ErrDuplicate"
      "errors_Is e ErrConcurrencyConflict \<or> errors_Is e ErrNotFound \<or> errors_Is e ErrInsufficientPosition"
  | (lost) v e where "withdraw_tx E (wallet_withdraw_service E S) req c x ctx w = (Err e, v)"
      "errors_Is e ErrDuplicate" "(commandTypeWithdraw, wq_OrderID req) \<in> order_ids (committed v)"
      "replayable E (committed v)"
proof -
  let ?svc = "wallet_withdraw_service E S" and ?d = "sv_interfere S (w_tick w) d"
  let ?rows = "select_lots c (wq_InstrumentID req) ?d"
  note run = withdraw_tx_def wallet_withdraw_service_def NewWithdrawService_def wiring_simps E(1) val_simps
  have ready: "sellable ?d" using S(4) w(3) unfolding rely_def by blast
  then have db: "db_ok ?d" by (simp add: sellable_def)
  have rows: "on_grid 2 (p_unit_price r) \<and> p_row_version r < 2147483647" if "r \<in> set ?rows" for r
    using ready select_lots_rows(2) [OF db that] by (simp add: sellable_def)
  obtain ps where ps: "collectPositions E S ?rows None = Ok ps" "list_all2 (represents val) ?rows ps"
    using collectPositions_Ok [OF E(1)] select_lots_rows(3) [OF db] by blast
  from raced_lots [OF S(1,2) w(1,2) ps(1)] obtain w1 where
    w1: "PositionRepository_FindByClientAndInstrument E S ctx c (wq_InstrumentID req) w = (Ok ps, w1)" "in_step E ?d w1" by blast
  obtain el tot where sel: "select_eligible D ps [] (d_Zero D) = (el, tot)" by fastforce
  then have el: "el = filter (\<lambda>p. 0 < free_value val p) ps" using select_eligible_spec [OF sel] by simp
  show thesis
  proof (cases "ps = [] \<or> val tot < val x")
    case True
    then have "\<exists>e. withdraw_tx E ?svc req c x ctx w = (Err e, w1) \<and> \<not> errors_Is e ErrDuplicate \<and>
        (errors_Is e ErrNotFound \<or> errors_Is e ErrInsufficientPosition)"
      using w1(1) sel by (cases "ps = []") (simp_all add: run)
    then show thesis using refused by blast
  next
    case False
    have "lot_ok val p \<and> 0 < free_value val p" if "p \<in> set el" for p
      using that el list_all2_in2 [OF ps(2)] represents_lot_ok select_lots_rows(3) [OF db] by fastforce
    from consume_lots_spec [OF E(1) this, of el x "[]" w1] obtain sold rem where
      con: "consume_lots E el x [] w1 = (Ok (sold, rem), w1\<lparr>w_tick := w_tick w1 + length sold\<rparr>)"
      and out: "fifo_outcome val el (val x) sold (val rem)" by auto
    let ?w2 = "w1\<lparr>w_tick := w_tick w1 + length sold\<rparr>"
    have red: "list_all2 (reduced val) (take (length sold) (filter (\<lambda>p. 0 < free_value val p) ps)) sold"
      using out el by (simp add: fifo_outcome_def)
    have sold: "storable val q" if "q \<in> set sold" for q
      using sold_writable(2) [OF db rows ps(2) red that] by (rule writable_storable)
    have "in_step E ?d ?w2" using w1(2) by (simp add: in_step_def committed_def)
    from raced_update_lots [OF S(1,2) E(1) w(1) this, of sold] sold
    consider (conflict) v e where "update_lots ?svc ctx sold ?w2 = (Err e, v)" "errors_Is e ErrConcurrencyConflict"
        "\<not> errors_Is e ErrDuplicate"
      | (updated) v d' where "update_lots ?svc ctx sold ?w2 = (Ok (), v)" "in_step E d' v" by blast
    then show thesis
    proof cases
      case conflict
      then show thesis using w1(1) sel con False by (intro refused) (auto simp: run)
    next
      case (updated v d')
      have tx: "withdraw_tx E ?svc req c x ctx w = record_withdrawal E ?svc req c sold ctx v"
        using w1(1) sel con False updated(1) by (simp add: run)
      from S(1-3) E req w(1) updated(2) show thesis
        by (rule raced_record_withdrawal [where sold = sold]) (use fresh lost tx in auto)
    qed
  qed
qed

end

lemma withdraw_replay_after_race:
  assumes "answering S" "civil E S" "\<not> ctx_tx ctx" "replayable E (committed w)"
    and "(commandTypeWithdraw, k) \<in> order_ids (committed w)"
  shows "\<exists>resp v. withdraw_replayAfterRace E (wallet_withdraw_service E S) ctx k w = (Success resp 200, v)"
proof -
  let ?d = "sv_interfere S (w_tick w) (committed w)"
  have d: "replayable E ?d" "(commandTypeWithdraw, k) \<in> order_ids ?d"
    using assms(2,4,5) order_ids_mono unfolding civil_def growing_def rely_def by blast+
  obtain r where r: "select_command commandTypeWithdraw k ?d = Ok r" using select_command_present [OF d(2)] by blast
  obtain resp where resp: "deserializeWithdrawSnapshot E (k_response_snapshot r) = Success resp 200"
    using replayable_response(2) [OF d(1) r] by blast
  from assms(1,3) show ?thesis
  proof (cases rule: raced_command [of S ctx commandTypeWithdraw k w])
    case (found r' cmd v)
    then show ?thesis
      using r resp by (simp add: withdraw_replayAfterRace_def wallet_withdraw_service_def NewWithdrawService_def wiring_simps)
  next
    case (missing e v)
    then show ?thesis using r by simp
  qed
qed

context pg_text begin

lemma raced_withdraw_commit:
  assumes S: "answering S" "civil E S" "jsonb_text (sv_jsonb S)" "rely S sellable" and E: "e_dec E = D" "uuid_texts E"
    and req: "c \<noteq> 0" "wq_OrderID req \<noteq> []" and w: "\<not> ctx_tx ctx" "withdrawable E c (committed w)"
  shows "\<exists>y w'. withdraw_commit E (wallet_withdraw_service E S) ctx req c x w = (y, w') \<and>
    exec_status y \<in> {Some 200, Some 404, Some 409}"
proof -
  let ?svc = "wallet_withdraw_service E S" and ?v = "after_others S (startDBSpan ''db.transaction'' ''TRANSACTION'' w)"
  let ?tx = "withdraw_tx E ?svc req c x" and ?u = "set_tx (Some (committed ?v)) ?v"
  have do: "uow_Do (ws_unitOfWork ?svc) = TransactionRunner_Do S"
    by (simp add: wallet_withdraw_service_def NewWithdrawService_def wiring_simps)
  have "withdrawable E c (committed ?v)"
    using w(2) withdrawable_rely [OF S(2,4), of c] by (simp add: rely_def)
  then have here: "in_step E (committed ?v) ?u" "sellable (committed ?v)"
    by (simp_all add: withdrawable_def in_step_def) (simp add: set_tx_def)
  have tx: "ctx_tx (ctx\<lparr>ctx_tx := True\<rparr>)" by simp
  from S E req tx here show ?thesis
  proof (cases rule: raced_withdraw_tx [where x = x])
    case (fresh resp v' d')
    from raced_Do(1) [where fn = ?tx, OF S(1) fresh(1) refl refl fresh(2)] show ?thesis
      by (auto simp: withdraw_commit_def do exec_status_def)
  next
    case (refused v' e)
    from raced_Do(2) [where fn = ?tx, OF S(1) refused(1) refl refl] obtain u where
      "TransactionRunner_Do S ctx ?tx w = (Err e, u)" by blast
    then show ?thesis using refused(2,3) by (auto simp: withdraw_commit_def do exec_status_def fail_with_def)
  next
    case (lost v' e)
    from raced_Do(2) [where fn = ?tx, OF S(1) lost(1) refl refl] obtain u where
      u: "TransactionRunner_Do S ctx ?tx w = (Err e, u)" "committed u = sv_interfere S (w_tick v') (committed v')" by blast
    have "replayable E (committed u)" "(commandTypeWithdraw, wq_OrderID req) \<in> order_ids (committed u)"
      using lost(3,4) S(2) order_ids_mono unfolding u(2) civil_def growing_def rely_def by blast+
    from withdraw_replay_after_race [OF S(1,2) w(1) this] show ?thesis
      using lost(2) u(1) by (auto simp: withdraw_commit_def do finish_replay_def exec_status_def)
  qed
qed

lemma raced_withdrawal:
  assumes S: "answering S" "civil E S" "jsonb_text (sv_jsonb S)" "rely S sellable" and E: "e_dec E = D" "uuid_texts E"
    and req: "validateWithdrawRequest E req = Ok (c, x)" "c \<noteq> 0" "withdrawable E c (committed w)"
    and ctx: "\<not> ctx_tx ctx"
  shows "\<exists>y w'. WithdrawService_Execute E (wallet_withdraw_service E S) ctx req w = (y, w') \<and>
    exec_status y \<in> {Some 200, Some 404, Some 409}"
proof -
  let ?svc = "wallet_withdraw_service E S"
  let ?w0 = "emit [SpanStart withdrawSpan, SpanAttr withdrawSpan ''wallet.order_id'' (wq_OrderID req)] w"
  note run = WithdrawService_Execute_def withdraw_body_def withdraw_fresh_def wallet_withdraw_service_def
    NewWithdrawService_def wiring_simps
  have later: "withdrawable E c (sv_interfere S k d)" if "withdrawable E c d" for k d
    using withdrawable_rely [OF S(2,4)] that unfolding rely_def by blast
  have order: "wq_OrderID req \<noteq> []" using validated_withdraw(1) [OF req(1)] decimal_arith_axioms E(1) by auto
  from S(1) ctx show ?thesis
  proof (cases rule: raced_command [of S ctx commandTypeWithdraw "wq_OrderID req" ?w0])
    case (found r cmd v)
    have "replayable E (committed v)" using found(4) later [OF req(3)] by (simp add: withdrawable_def)
    then obtain resp where "deserializeWithdrawSnapshot E (k_response_snapshot r) = Success resp 200"
      using replayable_response(2) [OF _ found(1)] by blast
    then show ?thesis using found(2,3) req(1) by (simp add: run finish_replay_def exec_status_def)
  next
    case (missing e v1)
    have 1: "withdrawable E c (committed v1)" using missing(4) later [OF req(3)] by simp
    let ?d2 = "sv_interfere S (w_tick v1) (committed v1)"
    obtain q where "select_client c ?d2 = Ok q"
      using select_client_mem later [OF 1] unfolding withdrawable_def by blast
    from raced_client [OF S(1) ctx refl this] obtain v2 x2 where
      v2: "ClientRepository_FindByID E S ctx c v1 = (Ok x2, v2)" "committed v2 = ?d2" by blast
    have "withdrawable E c (committed v2)" using v2(2) later [OF 1] by simp
    from raced_withdraw_commit [OF S E req(2) order ctx this] obtain y w' where
      "withdraw_commit E ?svc ctx req c x v2 = (y, w')" "exec_status y \<in> {Some 200, Some 404, Some 409}" by blast
    with missing(2,3) v2(1) req(1) show ?thesis
      by (simp add: WithdrawService_Execute_def withdraw_body_def withdraw_fresh_def wallet_withdraw_service_def
          NewWithdrawService_def wiring_simps)
  qed
qed

end

end
