(* ===== verification/Race_Properties.thy ===== *)
theory Race_Properties
  imports Races Http_Properties
begin

text \<open>
  The properties of requests that race, and a rival session to apply them to: in front of every
  statement of ours it touches every lot, so that the versions a withdrawal has read are gone, and
  once the order of a deposit has been looked up, it stores a deposit under that order id.
\<close>

subsection \<open>A rival session\<close>




definition rival_touch :: "position_row \<Rightarrow> position_row" where
  "rival_touch r =
     (if p_row_version r < 2147483646
      then r\<lparr>p_collateral_value := 0, p_row_version := p_row_version r + 1\<rparr> else r)"









text \<open>It is civil, and keeps the tables sellable.\<close>

lemma rival_touch_fields [simp]:
  "p_position_id (rival_touch r) = p_position_id r" "p_client_id (rival_touch r) = p_client_id r"
  "p_asset_id (rival_touch r) = p_asset_id r" "p_unit_price (rival_touch r) = p_unit_price r"
  "row_evolves r (rival_touch r)"
  by (simp_all add: rival_touch_def row_evolves_def)











subsection \<open>Deposits\<close>



subsection \<open>Withdrawals\<close>



end
