(* ===== verification/Example_Events.thy ===== *)
theory Example_Events
  imports Go_Std
begin

text \<open>
  What the example Lambdas under \<open>.github/skills\<close> share: the events and responses of API Gateway
  (HTTP API) and SQS as they use them, and the contract of a loop over the records of a batch that
  reports the failing ones (locale \<open>record_loop\<close>).
\<close>

subsection \<open>Gateway and queue\<close>

text \<open>A Go map; an absent key reads as the empty string.\<close>

type_synonym go_map = "string \<Rightarrow> string option"

definition map_index :: "go_map \<Rightarrow> string \<Rightarrow> string" where
  "map_index m k = (case m k of Some v \<Rightarrow> v | None \<Rightarrow> '''')"

record http_request =
  v2_Method :: string
  v2_RawPath :: string
  v2_Body :: string
  v2_PathParameters :: go_map
  v2_QueryStringParameters :: go_map

record http_response =
  v2_StatusCode :: nat
  v2_ResponseBody :: string
  v2_Headers :: go_map

definition http_reply :: "nat \<Rightarrow> string \<Rightarrow> http_response" where
  "http_reply status body = \<lparr>v2_StatusCode = status, v2_ResponseBody = body, v2_Headers = Map.empty\<rparr>"

record sqs_message =
  sm_MessageId :: string
  sm_Body :: string
  sm_EventSourceARN :: string

text \<open>
  A response names the messages to deliver again: \<open>BatchItemFailures\<close> is the list of their
  identifiers.  The handlers' own error is always nil.
\<close>

type_synonym batch_failures = "string list"

subsection \<open>Loops over a batch\<close>

text \<open>
  One step handles a record: whether it failed, and the state afterwards.  A panic leaves the loop.
\<close>

datatype verdict = Done | Failed | Aborted string

fun verdicts :: "(sqs_message \<Rightarrow> 's \<Rightarrow> verdict \<times> 's) \<Rightarrow> sqs_message list \<Rightarrow> 's \<Rightarrow> verdict list \<times> 's" where
  "verdicts step [] s = ([], s)"
| "verdicts step (r # rs) s =
     (case step r s of
        (Aborted m, s1) \<Rightarrow> ([Aborted m], s1)
      | (v, s1) \<Rightarrow> (case verdicts step rs s1 of (vs, s2) \<Rightarrow> (v # vs, s2)))"

definition failed_ids :: "sqs_message list \<Rightarrow> verdict list \<Rightarrow> string list" where
  "failed_ids rs vs = map (sm_MessageId \<circ> fst) (filter (\<lambda>(r, v). v = Failed) (zip rs vs))"

text \<open>The panic that ended a batch, if one did.\<close>

fun aborted :: "verdict list \<Rightarrow> string option" where
  "aborted [] = None"
| "aborted (Aborted m # vs) = Some m"
| "aborted (v # vs) = aborted vs"

lemma aborted_iff: "aborted vs = Some m \<Longrightarrow> Aborted m \<in> set vs" "aborted vs = None \<longleftrightarrow> (\<forall>m. Aborted m \<notin> set vs)"
  by (induction vs rule: aborted.induct) auto

lemma failed_ids_Cons [simp]:
  "failed_ids (r # rs) (v # vs) = (if v = Failed then [sm_MessageId r] else []) @ failed_ids rs vs"
  "failed_ids rs [] = []"
  by (simp_all add: failed_ids_def)

text \<open>What a loop returns for the verdicts on its records.\<close>

definition batch_result :: "sqs_message list \<Rightarrow> batch_failures \<Rightarrow> verdict list \<Rightarrow> batch_failures res" where
  "batch_result rs failures vs =
     (case aborted vs of Some m \<Rightarrow> Panicked m | None \<Rightarrow> Ok (failures @ failed_ids rs vs))"

text \<open>
  Every record was processed, in order, without a panic; \<open>failures\<close> names exactly the failing ones.
\<close>

definition reported ::
    "(sqs_message \<Rightarrow> 's \<Rightarrow> verdict \<times> 's) \<Rightarrow> sqs_message list \<Rightarrow> 's \<Rightarrow> batch_failures \<Rightarrow> 's \<Rightarrow> bool" where
  "reported step rs s failures s' \<longleftrightarrow>
     (\<exists>vs. verdicts step rs s = (vs, s') \<and> length vs = length rs \<and> set vs \<subseteq> {Done, Failed} \<and>
        failures = failed_ids rs vs)"

locale record_loop =
  fixes loop :: "sqs_message list \<Rightarrow> batch_failures \<Rightarrow> 's \<Rightarrow> batch_failures res \<times> 's"
    and step :: "sqs_message \<Rightarrow> 's \<Rightarrow> verdict \<times> 's"
  assumes loop_Nil: "loop [] failures s = (Ok failures, s)"
    and loop_Cons: "loop (r # rs) failures s =
      (case step r s of
         (Aborted m, s1) \<Rightarrow> (Panicked m, s1)
       | (Done, s1) \<Rightarrow> loop rs failures s1
       | (Failed, s1) \<Rightarrow> loop rs (failures @ [sm_MessageId r]) s1)"
begin

lemma loop_verdicts:
  "loop rs failures s = (case verdicts step rs s of (vs, s') \<Rightarrow> (batch_result rs failures vs, s'))"
proof (induction rs arbitrary: failures s)
  case Nil
  then show ?case by (simp add: loop_Nil batch_result_def)
next
  case (Cons r rs)
  show ?case
    by (simp add: loop_Cons Cons batch_result_def split: prod.split verdict.split option.split)
qed

text \<open>A batch without a panic reports each failing record once, in order, and nothing else.\<close>

lemma loop_reports:
  assumes "loop rs [] s = (Ok failures, s')"
  shows "reported step rs s failures s'"
proof -
  have "length vs = length rs \<and> set vs \<subseteq> {Done, Failed}" if "verdicts step rs s = (vs, u)" "aborted vs = None" for vs u
    using that
    by (induction step rs s arbitrary: vs rule: verdicts.induct)
      (fastforce split: prod.splits verdict.splits)+
  with assms show ?thesis
    by (auto simp: reported_def loop_verdicts batch_result_def split: prod.splits option.splits)
qed

end

end
