(* ===== verification/Example_Errors.thy ===== *)
theory Example_Errors
  imports Example_Events
begin

text \<open>
  The example of \<open>.github/skills/go-lambda-error-handling\<close>: five sentinels, a use case that wraps
  the errors of its repository, an HTTP handler that maps errors to statuses, and an SQS handler
  that tells errors to retry from terminal ones and keeps the order of a FIFO queue.  The
  repository and the processor are arguments, over a state \<open>'s\<close> of theirs.
\<close>

subsection \<open>Errors (\<open>shared/errors.go\<close>)\<close>

datatype shared_sentinel = ErrInvalidInput | ErrNotFound_shared | ErrConflict | ErrRetryable | ErrTerminal

primrec shared_text :: "shared_sentinel \<Rightarrow> string" where
  "shared_text ErrInvalidInput = ''invalid input''"
| "shared_text ErrNotFound_shared = ''not found''"
| "shared_text ErrConflict = ''conflict''"
| "shared_text ErrRetryable = ''retryable failure''"
| "shared_text ErrTerminal = ''terminal failure''"

text \<open>
  \<open>Wrap p e\<close> is \<open>fmt.Errorf("p: %w", e)\<close>, \<open>Join es\<close> is \<open>errors.Join\<close> of the errors, and
  \<open>Foreign\<close> an error of other code, known by its text.
\<close>

datatype shared_error = Shared shared_sentinel | Foreign string | Wrap string shared_error | Join "shared_error list"

fun shared_Is :: "shared_error \<Rightarrow> shared_sentinel \<Rightarrow> bool" where
  "shared_Is (Shared s) t = (s = t)"
| "shared_Is (Foreign m) t = False"
| "shared_Is (Wrap p e) t = shared_Is e t"
| "shared_Is (Join es) t = list_ex (\<lambda>e. shared_Is e t) es"

datatype 'a reply = Value 'a | Fault shared_error | Panic string

subsection \<open>Use case (\<open>shared/usecase.go\<close>)\<close>

record ('c, 's) repository =
  repo_Load :: "'c \<Rightarrow> string \<Rightarrow> 's \<Rightarrow> string reply \<times> 's"

record ('c, 's) use_case =
  uc_repo :: "('c, 's) repository"

definition NewUseCase :: "('c, 's) repository \<Rightarrow> ('c, 's) use_case" where
  "NewUseCase repo = \<lparr>uc_repo = repo\<rparr>"

definition UseCase_Execute :: "('c, 's) use_case \<Rightarrow> 'c \<Rightarrow> string \<Rightarrow> 's \<Rightarrow> string reply \<times> 's" where
  "UseCase_Execute uc ctx i s =
     (if i = '''' then (Fault (Shared ErrInvalidInput), s)
      else case repo_Load (uc_repo uc) ctx i s of
        (Panic m, s1) \<Rightarrow> (Panic m, s1)
      | (Fault err, s1) \<Rightarrow> (Fault (Wrap (''load entity '' @ go_quote i) err), s1)
      | (Value v, s1) \<Rightarrow> (Value v, s1))"

subsection \<open>HTTP handler (\<open>httpapi/handler.go\<close>)\<close>

definition message_body :: "string \<Rightarrow> string" where
  "message_body m = ''{'' @ [CHR 0x22] @ ''message'' @ [CHR 0x22] @ '':'' @ [CHR 0x22] @ m @ [CHR 0x22] @ ''}''"

definition mapError :: "shared_error \<Rightarrow> http_response" where
  "mapError err =
     (if shared_Is err ErrInvalidInput then http_reply 400 (message_body ''invalid request'')
      else if shared_Is err ErrNotFound_shared then http_reply 404 (message_body ''not found'')
      else if shared_Is err ErrConflict then http_reply 409 (message_body ''conflict'')
      else http_reply 500 (message_body ''internal server error''))"

definition errors_http_Handle ::
    "('c \<Rightarrow> string \<Rightarrow> 's \<Rightarrow> string reply \<times> 's) \<Rightarrow> 'c \<Rightarrow> http_request \<Rightarrow> 's \<Rightarrow> http_response res \<times> 's" where
  "errors_http_Handle execute ctx req s =
     (let i = map_index (v2_PathParameters req) ''id'' in
      case execute ctx i s of
        (Panic m, s1) \<Rightarrow> (Panicked m, s1)
      | (Fault err, s1) \<Rightarrow> (Ok (mapError err), s1)
      | (Value v, s1) \<Rightarrow> (Ok (http_reply 200 v), s1))"

subsection \<open>SQS handler (\<open>sqs/handler.go\<close>)\<close>

record ('c, 's) errors_sqs_handler =
  es_processor :: "'c \<Rightarrow> string \<Rightarrow> 's \<Rightarrow> string reply \<times> 's"
  es_fifo :: bool

definition NewHandler_errors_sqs :: "('c \<Rightarrow> string \<Rightarrow> 's \<Rightarrow> string reply \<times> 's) \<Rightarrow> bool \<Rightarrow> ('c, 's) errors_sqs_handler" where
  "NewHandler_errors_sqs processor fifo = \<lparr>es_processor = processor, es_fifo = fifo\<rparr>"

fun errors_sqs_loop ::
    "('c, 's) errors_sqs_handler \<Rightarrow> 'c \<Rightarrow> sqs_message list \<Rightarrow> bool \<Rightarrow> batch_failures \<Rightarrow> 's \<Rightarrow>
     batch_failures res \<times> 's" where
  "errors_sqs_loop h ctx [] stop failures s = (Ok failures, s)"
| "errors_sqs_loop h ctx (r # rs) stop failures s =
     (if stop then errors_sqs_loop h ctx rs stop (failures @ [sm_MessageId r]) s
      else case es_processor h ctx (sm_MessageId r) s of
        (Panic m, s1) \<Rightarrow> (Panicked m, s1)
      | (Value v, s1) \<Rightarrow> errors_sqs_loop h ctx rs stop failures s1
      | (Fault err, s1) \<Rightarrow>
          if shared_Is err ErrRetryable
          then errors_sqs_loop h ctx rs (if es_fifo h then True else stop) (failures @ [sm_MessageId r]) s1
          else if shared_Is err ErrTerminal then errors_sqs_loop h ctx rs stop failures s1
          else errors_sqs_loop h ctx rs (if es_fifo h then True else stop) (failures @ [sm_MessageId r]) s1)"

definition errors_sqs_Handle ::
    "('c, 's) errors_sqs_handler \<Rightarrow> 'c \<Rightarrow> sqs_message list \<Rightarrow> 's \<Rightarrow> batch_failures res \<times> 's" where
  "errors_sqs_Handle h ctx records s = errors_sqs_loop h ctx records False [] s"

subsection \<open>What a batch reports\<close>

text \<open>An error counts as a failure of its record unless it is terminal and not to be retried.\<close>

definition to_retry :: "shared_error \<Rightarrow> bool" where
  "to_retry err \<longleftrightarrow> shared_Is err ErrRetryable \<or> \<not> shared_Is err ErrTerminal"

definition errors_sqs_step :: "('c, 's) errors_sqs_handler \<Rightarrow> 'c \<Rightarrow> sqs_message \<Rightarrow> 's \<Rightarrow> verdict \<times> 's" where
  "errors_sqs_step h ctx r s =
     (case es_processor h ctx (sm_MessageId r) s of
        (Panic m, s1) \<Rightarrow> (Aborted m, s1)
      | (Value v, s1) \<Rightarrow> (Done, s1)
      | (Fault err, s1) \<Rightarrow> (if to_retry err then Failed else Done, s1))"

text \<open>A standard queue: a loop over the records as any other.\<close>

interpretation errors_batch: record_loop
    "\<lambda>rs. errors_sqs_loop (h\<lparr>es_fifo := False\<rparr>) ctx rs False" "errors_sqs_step h ctx" for h ctx
  by unfold_locales
    (auto simp: errors_sqs_step_def to_retry_def split: prod.split reply.split)

lemma errors_sqs_stopped:
  "errors_sqs_loop h ctx rs True failures s = (Ok (failures @ map sm_MessageId rs), s)"
  by (induction rs arbitrary: failures) simp_all

text \<open>
  A FIFO queue: the records up to the first failing one are processed, none after it, and that
  one and all after it are reported.
\<close>

fun fifo_verdicts :: "(sqs_message \<Rightarrow> 's \<Rightarrow> verdict \<times> 's) \<Rightarrow> sqs_message list \<Rightarrow> 's \<Rightarrow> batch_failures res \<times> 's" where
  "fifo_verdicts step [] s = (Ok [], s)"
| "fifo_verdicts step (r # rs) s =
     (case step r s of
        (Aborted m, s1) \<Rightarrow> (Panicked m, s1)
      | (Done, s1) \<Rightarrow> fifo_verdicts step rs s1
      | (Failed, s1) \<Rightarrow> (Ok (map sm_MessageId (r # rs)), s1))"

lemma errors_sqs_fifo:
  "es_fifo h \<Longrightarrow> errors_sqs_loop h ctx rs False [] s = fifo_verdicts (errors_sqs_step h ctx) rs s"
  by (induction rs arbitrary: s)
    (auto simp: errors_sqs_step_def to_retry_def errors_sqs_stopped split: prod.split reply.split)

lemma fifo_verdicts_split:
  assumes "fifo_verdicts step rs s = (Ok failures, s')"
  shows "\<exists>before rest. rs = before @ rest \<and> failures = map sm_MessageId rest \<and>
    verdicts step (before @ take 1 rest) s = (replicate (length before) Done @ replicate (length (take 1 rest)) Failed, s')"
  using assms
proof (induction rs arbitrary: s)
  case (Cons r rs)
  show ?case
  proof (cases "step r s")
    case (Pair v s1)
    show ?thesis
    proof (cases v)
      case Done
      with Cons.prems Pair have "fifo_verdicts step rs s1 = (Ok failures, s')" by simp
      from Cons.IH [OF this] obtain before rest where "rs = before @ rest" "failures = map sm_MessageId rest"
        "verdicts step (before @ take 1 rest) s1 = (replicate (length before) Done @ replicate (length (take 1 rest)) Failed, s')"
        by blast
      with Pair Done show ?thesis by (intro exI [of _ "r # before"] exI [of _ rest]) simp
    next
      case Failed
      with Cons.prems Pair show ?thesis by (intro exI [of _ "[]"] exI [of _ "r # rs"]) auto
    qed (use Cons.prems Pair in simp)
  qed
qed simp

text \<open>C33. An SQS batch is reported as its queue needs it.  From a FIFO queue, the records before the
  first failing one are done, it is the last one processed, and it and every record after it are
  reported in order; from a standard queue, every record is processed, and exactly the failing
  ones are reported.  A record fails unless its processor succeeds or its error is terminal and
  not to be retried, however deeply the error is wrapped.\<close>

theorem fifo_batches:
  assumes "errors_sqs_Handle h ctx rs s = (Ok failures, s')"
  shows "if es_fifo h
    then \<exists>before rest. rs = before @ rest \<and> failures = map sm_MessageId rest \<and>
      verdicts (errors_sqs_step h ctx) (before @ take 1 rest) s =
        (replicate (length before) Done @ replicate (length (take 1 rest)) Failed, s')
    else reported (errors_sqs_step h ctx) rs s failures s'"
proof (cases "es_fifo h")
  case True
  then show ?thesis
    using fifo_verdicts_split assms by (fastforce simp: errors_sqs_Handle_def errors_sqs_fifo)
next
  case False
  then have h: "h\<lparr>es_fifo := False\<rparr> = h" by (cases h) simp
  have "errors_sqs_loop (h\<lparr>es_fifo := False\<rparr>) ctx rs False [] s = (Ok failures, s')"
    using assms by (simp add: errors_sqs_Handle_def h)
  from errors_batch.loop_reports [OF this] False show ?thesis by simp
qed

text \<open>A processor that counts its calls and fails for one message.\<close>

definition counting_processor :: "unit \<Rightarrow> string \<Rightarrow> nat \<Rightarrow> string reply \<times> nat" where
  "counting_processor ctx i n = (if i = ''b'' then Fault (Wrap ''load'' (Shared ErrRetryable)) else Value i, Suc n)"

definition three_messages :: "sqs_message list" where
  "three_messages = map (\<lambda>i. \<lparr>sm_MessageId = i, sm_Body = [], sm_EventSourceARN = []\<rparr>) [''a'', ''b'', ''c'']"

theorem fifo_batches_witness:
  "errors_sqs_Handle (NewHandler_errors_sqs counting_processor True) () three_messages 0 = (Ok [''b'', ''c''], 2) \<and>
   (\<exists>before rest. three_messages = before @ rest \<and> [''b'', ''c''] = map sm_MessageId rest)"
proof -
  have fifo: "es_fifo (NewHandler_errors_sqs counting_processor True)" by (simp add: NewHandler_errors_sqs_def)
  have run: "errors_sqs_Handle (NewHandler_errors_sqs counting_processor True) () three_messages 0 = (Ok [''b'', ''c''], 2)"
    by (simp add: errors_sqs_Handle_def NewHandler_errors_sqs_def counting_processor_def three_messages_def)
  from fifo_batches [OF run, unfolded if_P [OF fifo]] obtain before rest where
    split: "three_messages = before @ rest" "[''b'', ''c''] = map sm_MessageId rest"
    by (elim exE conjE) (rule that)
  show ?thesis by (intro conjI exI) (rule run split)+
qed

subsection \<open>Statuses\<close>

text \<open>The HTTP handler over the use case: the status is that of the repository's error, however wrapped.\<close>

lemma load_statuses:
  assumes "repo_Load repo ctx i s = (x, s1)" "map_index (v2_PathParameters req) ''id'' = i" "i \<noteq> []"
  shows "errors_http_Handle (UseCase_Execute (NewUseCase repo)) ctx req s =
    ((case x of Panic m \<Rightarrow> Panicked m | Value v \<Rightarrow> Ok (http_reply 200 v) | Fault err \<Rightarrow> Ok (mapError err)), s1)"
  using assms
  by (simp add: errors_http_Handle_def UseCase_Execute_def NewUseCase_def mapError_def split: reply.split)

lemma missing_id_refused:
  "map_index (v2_PathParameters req) ''id'' = '''' \<Longrightarrow>
     errors_http_Handle (UseCase_Execute uc) ctx req s = (Ok (http_reply 400 (message_body ''invalid request'')), s)"
  by (simp add: errors_http_Handle_def UseCase_Execute_def mapError_def)


end
