(* ===== verification/Example_Orders.thy ===== *)
theory Example_Orders
  imports Example_Events Handlers
begin

text \<open>
  The example of \<open>.github/skills/go-aws-lambda-microservice-hexagonal\<close>: orders with a customer,
  the use case that creates one, its DynamoDB adapter, and the HTTP and SQS handlers in front of
  it.  The DynamoDB client is an argument.
\<close>

subsection \<open>\<open>strings.TrimSpace\<close>\<close>

text \<open>The UTF-8 forms of the runes \<open>unicode.IsSpace\<close> accepts.\<close>

definition space_runes :: "string list" where
  "space_runes =
     map (\<lambda>n. [char_of n]) [9, 10, 11, 12, 13, 32 :: nat] @
     map (map char_of) ([[0xC2, 0x85], [0xC2, 0xA0], [0xE1, 0x9A, 0x80]] @
       map (\<lambda>n. [0xE2, 0x80, n]) ([0x80 ..< 0x8B] @ [0xA8, 0xA9, 0xAF]) @
       [[0xE2, 0x81, 0x9F], [0xE3, 0x80, 0x80 :: nat]])"

lemma space_run_shorter:
  assumes "find (\<lambda>p. p \<noteq> [] \<and> take (length p) s = p) runes = Some p"
  shows "length (drop (length p) s) < length s"
proof -
  have "p \<noteq> []" "take (length p) s = p" using assms by (auto simp: find_Some_iff)
  then show ?thesis by (cases s) auto
qed

function trim_left :: "string list \<Rightarrow> string \<Rightarrow> string" where
  "trim_left runes s =
     (case find (\<lambda>p. p \<noteq> [] \<and> take (length p) s = p) runes of
        Some p \<Rightarrow> trim_left runes (drop (length p) s)
      | None \<Rightarrow> s)"
  by pat_completeness auto
termination
  by (relation "measure (length \<circ> snd)") (auto dest: space_run_shorter)

declare trim_left.simps [simp del]

definition TrimSpace :: "string \<Rightarrow> string" where
  "TrimSpace s = rev (trim_left (map rev space_runes) (rev (trim_left space_runes s)))"

subsection \<open>Order (\<open>domain/order/order.go\<close>)\<close>

definition ErrInvalidCustomerID :: go_error where
  "ErrInvalidCustomerID = Opaque ''invalid customer id''"

record order =
  order_id :: string
  order_customerID :: string

definition New_order :: "string \<Rightarrow> string \<Rightarrow> order res" where
  "New_order i customerID =
     (if TrimSpace customerID = '''' then Err ErrInvalidCustomerID
      else Ok \<lparr>order_id = i, order_customerID = customerID\<rparr>)"

subsection \<open>Ports and the DynamoDB adapter (\<open>order_repository.go\<close>)\<close>

record 's order_repository =
  or_Save :: "order \<Rightarrow> (unit, 's) action"

record 's put_item_api =
  pi_PutItem :: "go_map \<Rightarrow> (unit, 's) action"

definition order_item :: "string \<Rightarrow> order \<Rightarrow> go_map" where
  "order_item table entity =
     [''pk'' \<mapsto> ''ORDER#'' @ order_id entity, ''customer_id'' \<mapsto> order_customerID entity, ''table'' \<mapsto> table]"

definition OrderRepository_Save :: "'s put_item_api \<Rightarrow> string \<Rightarrow> order \<Rightarrow> (unit, 's) action" where
  "OrderRepository_Save client table entity = pi_PutItem client (order_item table entity)"

definition NewOrderRepository :: "'s put_item_api \<Rightarrow> string \<Rightarrow> 's order_repository" where
  "NewOrderRepository client table = \<lparr>or_Save = OrderRepository_Save client table\<rparr>"

subsection \<open>Use case (\<open>createorder/handler.go\<close>)\<close>

record create_order_command =
  co_OrderID :: string
  co_CustomerID :: string

text \<open>The zero handler has a nil repository.\<close>

record 's create_order =
  co_orders :: "'s order_repository option"

definition NewCreateOrder :: "'s order_repository \<Rightarrow> 's create_order" where
  "NewCreateOrder orders = \<lparr>co_orders = Some orders\<rparr>"

definition nil_dereference :: string where
  "nil_dereference = ''runtime error: invalid memory address or nil pointer dereference''"

definition CreateOrder_Handle :: "'s create_order \<Rightarrow> create_order_command \<Rightarrow> (string, 's) action" where
  "CreateOrder_Handle h cmd w =
     (case New_order (co_OrderID cmd) (co_CustomerID cmd) of
        Panicked m \<Rightarrow> (Panicked m, w)
      | Err err \<Rightarrow> (Err err, w)
      | Ok entity \<Rightarrow>
          (case co_orders h of
             None \<Rightarrow> (Panicked nil_dereference, w)
           | Some orders \<Rightarrow>
               (case or_Save orders entity w of
                  (Panicked m, w1) \<Rightarrow> (Panicked m, w1)
                | (Err err, w1) \<Rightarrow> (Err err, w1)
                | (Ok _, w1) \<Rightarrow> (Ok (order_id entity), w1))))"

text \<open>\<open>bootstrap.MustBuild\<close>, whose logger is dropped.\<close>

definition MustBuild :: "'s put_item_api \<Rightarrow> string \<Rightarrow> 's create_order" where
  "MustBuild client table = NewCreateOrder (NewOrderRepository client table)"

subsection \<open>Inbound adapters\<close>

definition create_order_of_json :: "json \<Rightarrow> create_order_command option" where
  "create_order_of_json j =
     map_option (\<lambda>f. \<lparr>co_OrderID = f ''order_id'', co_CustomerID = f ''customer_id''\<rparr>)
       (decode_strings [''order_id'', ''customer_id''] j)"

definition unmarshal_order :: "string \<Rightarrow> create_order_command option" where
  "unmarshal_order body = (case json_parse body of Some j \<Rightarrow> create_order_of_json j | None \<Rightarrow> None)"

definition orders_http_Handle :: "'s create_order \<Rightarrow> http_request \<Rightarrow> (http_response, 's) action" where
  "orders_http_Handle createOrder event w =
     (case unmarshal_order (v2_Body event) of
        None \<Rightarrow> (Ok (http_reply 400 ''''), w)
      | Some req \<Rightarrow>
          (case CreateOrder_Handle createOrder req w of
             (Panicked m, w1) \<Rightarrow> (Panicked m, w1)
           | (Err err, w1) \<Rightarrow> (Ok (http_reply 422 ''''), w1)
           | (Ok orderID, w1) \<Rightarrow>
               (Ok \<lparr>v2_StatusCode = 201, v2_ResponseBody = json_print (json_of_members [(''order_id'', orderID)]),
                    v2_Headers = [''content-type'' \<mapsto> ''application/json'']\<rparr>, w1)))"

fun orders_sqs_loop :: "'s create_order \<Rightarrow> sqs_message list \<Rightarrow> batch_failures \<Rightarrow> (batch_failures, 's) action" where
  "orders_sqs_loop createOrder [] failures w = (Ok failures, w)"
| "orders_sqs_loop createOrder (r # rs) failures w =
     (case unmarshal_order (sm_Body r) of
        None \<Rightarrow> orders_sqs_loop createOrder rs (failures @ [sm_MessageId r]) w
      | Some msg \<Rightarrow>
          (case CreateOrder_Handle createOrder msg w of
             (Panicked m, w1) \<Rightarrow> (Panicked m, w1)
           | (Err err, w1) \<Rightarrow> orders_sqs_loop createOrder rs (failures @ [sm_MessageId r]) w1
           | (Ok _, w1) \<Rightarrow> orders_sqs_loop createOrder rs failures w1))"

definition orders_sqs_Handle :: "'s create_order \<Rightarrow> sqs_message list \<Rightarrow> (batch_failures, 's) action" where
  "orders_sqs_Handle createOrder records w = orders_sqs_loop createOrder records [] w"

text \<open>
  The two \<open>main.go\<close>: the package variable \<open>handler\<close> is never assigned (\<open>init\<close> is a comment), so
  \<open>lambda.Start\<close> serves the zero handler.
\<close>

definition unassigned_handler :: "'s create_order" where
  "unassigned_handler = \<lparr>co_orders = None\<rparr>"

definition main_http :: "http_request \<Rightarrow> (http_response, 's) action" where
  "main_http = orders_http_Handle unassigned_handler"

definition main_sqs :: "sqs_message list \<Rightarrow> (batch_failures, 's) action" where
  "main_sqs = orders_sqs_Handle unassigned_handler"

subsection \<open>Blank texts\<close>

text \<open>A text is blank if it consists of space runes only.\<close>

definition made_of :: "string list \<Rightarrow> string \<Rightarrow> bool" where
  "made_of runes s \<longleftrightarrow> (\<exists>rs. set rs \<subseteq> set runes \<and> s = concat rs)"

lemma made_of_Nil [simp]: "made_of runes []"
  unfolding made_of_def by (rule exI [of _ "[]"]) simp

lemma made_of_append: "p \<in> set runes \<Longrightarrow> made_of runes s \<Longrightarrow> made_of runes (p @ s)"
  unfolding made_of_def by (metis concat.simps(2) insert_subset list.set(2))

lemma made_of_rev: "made_of (map rev runes) (rev s) \<longleftrightarrow> made_of runes s"
proof -
  have "made_of (map rev R) (rev t)" if t: "made_of R t" for R t
  proof -
    obtain rs where "set rs \<subseteq> set R" "t = concat rs" using t by (auto simp: made_of_def)
    then show ?thesis
      unfolding made_of_def by (intro exI [of _ "rev (map rev rs)"]) (auto simp: rev_concat rev_map)
  qed
  from this [of runes s] this [of "map rev runes" "rev s"] show ?thesis by (auto simp: comp_def)
qed

lemma trim_left_Nil [simp]: "trim_left runes [] = []"
  by (subst trim_left.simps) (auto split: option.split simp: find_Some_iff)

lemma trim_left_blank: "trim_left runes s = [] \<Longrightarrow> made_of runes s"
proof (induction runes s rule: trim_left.induct)
  case (1 runes s)
  show ?case
  proof (cases "find (\<lambda>p. p \<noteq> [] \<and> take (length p) s = p) runes")
    case None
    with "1.prems" show ?thesis by (simp add: trim_left.simps [of runes s])
  next
    case (Some p)
    then have p: "p \<in> set runes" "take (length p) s = p" by (auto simp: find_Some_iff)
    from Some "1.prems" have "trim_left runes (drop (length p) s) = []" by (simp add: trim_left.simps [of runes s])
    from made_of_append [OF p(1) "1.IH" [OF Some this]] show ?thesis
      using p(2) by (metis append_take_drop_id)
  qed
qed

lemma trim_left_stops:
  "trim_left runes s = t \<Longrightarrow> p \<in> set runes \<Longrightarrow> p \<noteq> [] \<Longrightarrow> take (length p) t \<noteq> p"
proof (induction runes s rule: trim_left.induct)
  case (1 runes s)
  show ?case
  proof (cases "find (\<lambda>p. p \<noteq> [] \<and> take (length p) s = p) runes")
    case None
    then have "t = s" using "1.prems"(1) by (simp add: trim_left.simps [of runes s])
    with None show ?thesis using "1.prems"(2,3) by (auto simp: find_None_iff)
  next
    case (Some q)
    with "1.prems"(1) have "trim_left runes (drop (length q) s) = t" by (simp add: trim_left.simps [of runes s])
    from "1.IH" [OF Some this] show ?thesis using "1.prems"(2,3) by blast
  qed
qed

definition prefix_free :: "string list \<Rightarrow> bool" where
  "prefix_free runes \<longleftrightarrow> list_all (\<lambda>p. p \<noteq> [] \<and> list_all (\<lambda>q. take (length p) q = p \<longrightarrow> p = q) runes) runes"

text \<open>The first byte of a rune gives its length, so no rune is the beginning of another.\<close>

definition rune_length :: "char \<Rightarrow> nat" where
  "rune_length c = (let n = (of_char c :: nat) in if n < 0xC0 then 1 else if n < 0xE0 then 2 else 3)"

lemma space_runes_length: "list_all (\<lambda>p. p \<noteq> [] \<and> length p = rune_length (hd p)) space_runes"
  by (simp add: space_runes_def rune_length_def upt_rec)

lemma space_runes_prefix_free: "prefix_free space_runes"
proof -
  have runes: "p \<noteq> [] \<and> length p = rune_length (hd p)" if "p \<in> set space_runes" for p
    using space_runes_length that unfolding list_all_iff by blast
  have "p = q" if "p \<in> set space_runes" "q \<in> set space_runes" "take (length p) q = p" for p q
  proof -
    note p = runes [OF that(1)] and q = runes [OF that(2)]
    have "hd (take (length p) q) = hd q" using p by (metis hd_take length_greater_0_conv)
    then have "length p = length q" using that(3) p q by metis
    with that(3) show ?thesis by simp
  qed
  with runes show ?thesis unfolding prefix_free_def list_all_iff by blast
qed

lemma prefix_free_concat:
  assumes "prefix_free runes" "p \<in> set runes" "q \<in> set runes" "take (length p) (q @ s) = p"
  shows "p = q"
proof (cases "length p \<le> length q")
  case True
  then show ?thesis using assms by (auto simp: prefix_free_def list_all_iff)
next
  case False
  then have "take (length q) p = q" using assms(4) by (metis append_eq_conv_conj take_all_iff take_take min.absorb1 nle_le)
  then show ?thesis using assms(1-3) by (auto simp: prefix_free_def list_all_iff)
qed

lemma blank_trim_left:
  assumes "prefix_free runes" "set rs \<subseteq> set runes"
  shows "trim_left runes (concat rs) = []"
  using assms(2)
proof (induction rs)
  case (Cons q rs)
  let ?P = "\<lambda>p. p \<noteq> [] \<and> take (length p) (q @ concat rs) = p"
  have q: "q \<in> set runes" "q \<noteq> []" using Cons.prems assms(1) by (auto simp: prefix_free_def list_all_iff)
  then have "find ?P runes \<noteq> None" by (auto simp: find_None_iff)
  then obtain p where p: "find ?P runes = Some p" by blast
  then have "p = q"
    using prefix_free_concat [OF assms(1) _ q(1)] by (auto simp: find_Some_iff dest: nth_mem)
  with p show ?case using Cons by (simp add: trim_left.simps [of runes "q @ concat rs"])
qed simp

lemma TrimSpace_blank: "TrimSpace s = [] \<longleftrightarrow> made_of space_runes s"
proof
  assume "made_of space_runes s"
  then obtain rs where "set rs \<subseteq> set space_runes" "s = concat rs" by (auto simp: made_of_def)
  then show "TrimSpace s = []" by (simp add: TrimSpace_def blank_trim_left [OF space_runes_prefix_free])
next
  assume blank: "TrimSpace s = []"
  let ?t = "trim_left space_runes s"
  have "trim_left (map rev space_runes) (rev ?t) = []" using blank by (simp add: TrimSpace_def)
  then have "made_of space_runes ?t" using trim_left_blank made_of_rev by blast
  then obtain rs where rs: "set rs \<subseteq> set space_runes" "?t = concat rs" by (auto simp: made_of_def)
  have "rs = []"
  proof (cases rs)
    case (Cons p rs')
    then have "p \<in> set space_runes" "p \<noteq> []" "take (length p) ?t = p"
      using rs space_runes_prefix_free by (auto simp: prefix_free_def list_all_iff)
    then show ?thesis using trim_left_stops [of space_runes s ?t] by blast
  qed simp
  with rs(2) show "made_of space_runes s" using trim_left_blank by simp
qed


subsection \<open>What the handlers answer\<close>

definition orders_sqs_step :: "'s create_order \<Rightarrow> sqs_message \<Rightarrow> 's world \<Rightarrow> verdict \<times> 's world" where
  "orders_sqs_step createOrder r w =
     (case unmarshal_order (sm_Body r) of
        None \<Rightarrow> (Failed, w)
      | Some msg \<Rightarrow>
          (case CreateOrder_Handle createOrder msg w of
             (Panicked m, w1) \<Rightarrow> (Aborted m, w1)
           | (Err err, w1) \<Rightarrow> (Failed, w1)
           | (Ok _, w1) \<Rightarrow> (Done, w1)))"

interpretation orders_batch: record_loop "orders_sqs_loop h" "orders_sqs_step h" for h :: "'s create_order"
  by unfold_locales (auto simp: orders_sqs_step_def split: option.split prod.split res.split)

lemma CreateOrder_built:
  "CreateOrder_Handle (MustBuild client table) cmd w =
     (if made_of space_runes (co_CustomerID cmd) then (Err ErrInvalidCustomerID, w)
      else case pi_PutItem client (order_item table \<lparr>order_id = co_OrderID cmd, order_customerID = co_CustomerID cmd\<rparr>) w of
        (Panicked m, w1) \<Rightarrow> (Panicked m, w1) | (Err e, w1) \<Rightarrow> (Err e, w1) | (Ok _, w1) \<Rightarrow> (Ok (co_OrderID cmd), w1))"
  by (simp add: CreateOrder_Handle_def MustBuild_def NewCreateOrder_def NewOrderRepository_def
      OrderRepository_Save_def New_order_def TrimSpace_blank split: prod.split res.split)

text \<open>C34. The order example, from the HTTP event to the DynamoDB item.  A body that is not the JSON of an
  order is answered 400 and an order whose customer id consists of white space (in Unicode's
  sense) 422, both without a call of the client; any other order is written with exactly one call,
  as the item of its id, and the answer is 201 with the id when the call succeeds and 422 when
  it fails.\<close>

theorem order_answers:
  "orders_http_Handle (MustBuild client table) event w =
     (case unmarshal_order (v2_Body event) of
        None \<Rightarrow> (Ok (http_reply 400 ''''), w)
      | Some cmd \<Rightarrow>
          if \<exists>rs. set rs \<subseteq> set space_runes \<and> co_CustomerID cmd = concat rs then (Ok (http_reply 422 ''''), w)
          else case pi_PutItem client [''pk'' \<mapsto> ''ORDER#'' @ co_OrderID cmd, ''customer_id'' \<mapsto> co_CustomerID cmd,
                 ''table'' \<mapsto> table] w of
            (Ok _, w1) \<Rightarrow> (Ok \<lparr>v2_StatusCode = 201,
              v2_ResponseBody = json_print (json_of_members [(''order_id'', co_OrderID cmd)]),
              v2_Headers = [''content-type'' \<mapsto> ''application/json'']\<rparr>, w1)
          | (Err e, w1) \<Rightarrow> (Ok (http_reply 422 ''''), w1)
          | (Panicked m, w1) \<Rightarrow> (Panicked m, w1))"
  unfolding orders_http_Handle_def CreateOrder_built made_of_def [symmetric]
  by (simp add: order_item_def split: option.split prod.split res.split)

text \<open>The two \<open>main\<close> packages as they are: every valid order panics, in the handler of an event as in a batch.\<close>

lemma main_unassigned:
  assumes "unmarshal_order body = Some cmd" "\<not> made_of space_runes (co_CustomerID cmd)"
  shows "v2_Body event = body \<Longrightarrow> main_http event w = (Panicked nil_dereference, w)"
    and "sm_Body r = body \<Longrightarrow> main_sqs (r # rs) w = (Panicked nil_dereference, w)"
  using assms
  by (simp_all add: main_http_def main_sqs_def orders_http_Handle_def orders_sqs_Handle_def CreateOrder_Handle_def
      unassigned_handler_def New_order_def TrimSpace_blank)


end
