(* ===== verification/Example_Logging.thy ===== *)
theory Example_Logging
  imports Example_Events Handlers
begin

text \<open>
  The example of \<open>.github/skills/go-lambda-structured-logging\<close>: a logger factory that marks the
  first invocation of a process, and an HTTP and an SQS handler that log each failure and each
  outcome.  A logger is the list of its bound attributes; a log record is an event of the world,
  as everywhere in the model (which levels the \<open>slog\<close> handler lets through is the library's).
  The application behind the handlers is an argument.
\<close>

subsection \<open>Factory (\<open>shared/logger.go\<close>)\<close>

definition NewLoggerFactory_base :: "string \<Rightarrow> attrs" where
  "NewLoggerFactory_base service = [(''service'', AStr service)]"

text \<open>The factory's \<open>coldStart\<close> is the flag of the world; \<open>NewLoggerFactory\<close> sets it.\<close>

definition NewLoggerFactory_shared :: "string \<Rightarrow> 's world \<Rightarrow> attrs \<times> 's world" where
  "NewLoggerFactory_shared service w = (NewLoggerFactory_base service, w\<lparr>w_cold := True\<rparr>)"

definition FromContext_shared :: "attrs \<Rightarrow> go_ctx \<Rightarrow> string \<Rightarrow> string \<Rightarrow> 's world \<Rightarrow> attrs \<times> 's world" where
  "FromContext_shared base ctx trigger operation w =
     (let logger = base @ [(''trigger'', AStr trigger), (''operation'', AStr operation)];
          logger1 = logger @ (case ctx_request_id ctx of Some rid \<Rightarrow> [(''request_id'', AStr rid)] | None \<Rightarrow> [])
      in if w_cold w then (logger1 @ [(''cold_start'', ABool True)], w\<lparr>w_cold := False\<rparr>)
         else (logger1, w))"

subsection \<open>HTTP handler (\<open>httpapi/handler.go\<close>)\<close>

record 's things_app =
  ta_HandleCreateThing :: "go_ctx \<Rightarrow> string \<Rightarrow> (string, 's) action"

definition created_body :: "string \<Rightarrow> string" where
  "created_body thingID = ''{'' @ [CHR 0x22] @ ''id'' @ [CHR 0x22] @ '':'' @ [CHR 0x22] @ thingID @ [CHR 0x22] @ ''}''"

definition logging_http_Handle :: "'s things_app \<Rightarrow> attrs \<Rightarrow> go_ctx \<Rightarrow> http_request \<Rightarrow> (http_response, 's) action" where
  "logging_http_Handle app base ctx req w =
     (let (logger0, w1) = FromContext_shared base ctx ''http'' ''create_thing'' w;
          logger = logger0 @ [(''method'', AStr (v2_Method req)), (''route'', AStr (v2_RawPath req))];
          name = map_index (v2_QueryStringParameters req) ''name''
      in case ta_HandleCreateThing app ctx name w1 of
           (Panicked m, w2) \<Rightarrow> (Panicked m, w2)
         | (Err err, w2) \<Rightarrow>
             (Ok (http_reply 500 (''{'' @ [CHR 0x22] @ ''message'' @ [CHR 0x22] @ '':'' @ [CHR 0x22] @
                 ''internal error'' @ [CHR 0x22] @ ''}'')),
              emit [LogRecord logger LevelError ''create thing failed''
                [(''outcome'', AStr ''failed''), (''error'', AStr (error_text err))]] w2)
         | (Ok thingID, w2) \<Rightarrow>
             (Ok (http_reply 201 (created_body thingID)),
              emit [LogRecord logger LevelInfo ''create thing completed''
                [(''outcome'', AStr ''success''), (''thing_id'', AStr thingID)]] w2))"

subsection \<open>SQS handler (\<open>sqs/handler.go\<close>)\<close>

record 's messages_app =
  ma_ProcessThing :: "go_ctx \<Rightarrow> string \<Rightarrow> string \<Rightarrow> (unit, 's) action"

definition logging_sqs_step :: "'s messages_app \<Rightarrow> attrs \<Rightarrow> go_ctx \<Rightarrow> sqs_message \<Rightarrow> 's world \<Rightarrow> verdict \<times> 's world" where
  "logging_sqs_step app base ctx r w =
     (let logger = base @ [(''message_id'', AStr (sm_MessageId r)), (''queue_arn'', AStr (sm_EventSourceARN r))] in
      case ma_ProcessThing app ctx (sm_MessageId r) (sm_Body r) w of
        (Panicked m, w1) \<Rightarrow> (Aborted m, w1)
      | (Err err, w1) \<Rightarrow>
          (Failed, emit [LogRecord logger LevelError ''message processing failed''
             [(''outcome'', AStr ''failed''), (''error'', AStr (error_text err))]] w1)
      | (Ok _, w1) \<Rightarrow> (Done, w1))"

fun logging_sqs_loop :: "'s messages_app \<Rightarrow> attrs \<Rightarrow> go_ctx \<Rightarrow> sqs_message list \<Rightarrow> batch_failures \<Rightarrow>
    (batch_failures, 's) action" where
  "logging_sqs_loop app base ctx [] failures w = (Ok failures, w)"
| "logging_sqs_loop app base ctx (r # rs) failures w =
     (case logging_sqs_step app base ctx r w of
        (Aborted m, w1) \<Rightarrow> (Panicked m, w1)
      | (Failed, w1) \<Rightarrow> logging_sqs_loop app base ctx rs (failures @ [sm_MessageId r]) w1
      | (Done, w1) \<Rightarrow> logging_sqs_loop app base ctx rs failures w1)"

definition logging_sqs_Handle :: "'s messages_app \<Rightarrow> attrs \<Rightarrow> go_ctx \<Rightarrow> sqs_message list \<Rightarrow> (batch_failures, 's) action" where
  "logging_sqs_Handle app factory ctx records w =
     (let (logger0, w1) = FromContext_shared factory ctx ''sqs'' ''process_thing'' w;
          base = logger0 @ [(''batch_size'', AInt (int (length records)))]
      in case logging_sqs_loop app base ctx records [] w1 of
           (Ok failures, w2) \<Rightarrow>
             (Ok failures,
              if failures \<noteq> []
              then emit [LogRecord base LevelWarn ''batch completed with failures''
                [(''outcome'', AStr ''partial_failure''), (''failed_count'', AInt (int (length failures)))]] w2
              else emit [LogRecord base LevelInfo ''batch completed'' [(''outcome'', AStr ''success'')]] w2)
         | (r, w2) \<Rightarrow> (r, w2))"

interpretation logging_batch: record_loop "logging_sqs_loop app base ctx" "logging_sqs_step app base ctx"
    for app :: "'s messages_app" and base ctx
  by unfold_locales (auto split: prod.split verdict.split)

subsection \<open>Cold starts\<close>

text \<open>The mark is on the first logger of a process only.\<close>

lemma cold_start_once:
  assumes "NewLoggerFactory_shared service w0 = (base, w)"
    and "FromContext_shared base ctx t op w = (l1, w1)" "FromContext_shared base ctx' t' op' w1 = (l2, w2)"
  shows "(''cold_start'', ABool True) \<in> set l1" "(''cold_start'', ABool True) \<notin> set l2" "w_cold w2 = False"
  using assms
  by (auto simp: NewLoggerFactory_shared_def NewLoggerFactory_base_def FromContext_shared_def Let_def
      split: option.splits if_splits)

subsection \<open>The identifier in the body\<close>

text \<open>
  The body of a 201 is put together from texts: an identifier with a quotation mark makes it no
  JSON document, one that is chosen well adds members to it.
\<close>

lemma created_body_unescaped:
  "json_parse (created_body [CHR 0x22]) = None"
  "json_parse (created_body (''a'' @ [CHR 0x22, CHR '','', CHR 0x22] @ ''role'' @ [CHR 0x22, CHR '':'', CHR 0x22] @ ''x'')) =
     Some (JObj [(''id'', JStr ''a''), (''role'', JStr ''x'')])"
  by code_simp+

end
