(* ===== verification/Example_Otel.thy ===== *)
theory Example_Otel
  imports Example_Events
begin

text \<open>
  The example of \<open>.github/skills/go-lambda-observability-otel\<close>: the providers and their shutdown,
  and an HTTP and an SQS handler with a span and two metrics for each unit of work.  Here spans
  have identities and parents: a context carries the current span, and \<open>Start\<close> makes a child
  of it.  The use cases, the clock and the answers of the SDK are arguments.
\<close>

subsection \<open>Spans and metrics\<close>

type_synonym span_id = nat
type_synonym otel_ctx = "span_id option"

datatype otel_event =
    Started span_id string otel_ctx
  | SetAttributes span_id "(string \<times> string) list"
  | RecordError span_id string
  | SetStatus span_id span_code string
  | Ended span_id
  | LatencyRecord otel_ctx int "(string \<times> string) list"
  | FailureAdd otel_ctx nat "(string \<times> string) list"

text \<open>The state of the application, the next span, the calls of the clock, and the events so far.\<close>

record 's otel_world =
  ow_state :: 's
  ow_next :: span_id
  ow_ticks :: nat
  ow_events :: "otel_event list"

definition tell :: "otel_event list \<Rightarrow> 's otel_world \<Rightarrow> 's otel_world" where
  "tell es w = w\<lparr>ow_events := ow_events w @ es\<rparr>"

text \<open>\<open>otel.Tracer(name).Start(ctx, span)\<close>: the new span and the context that carries it.\<close>

definition tracer_Start :: "otel_ctx \<Rightarrow> string \<Rightarrow> 's otel_world \<Rightarrow> span_id \<times> 's otel_world" where
  "tracer_Start ctx name w =
     (ow_next w, tell [Started (ow_next w) name ctx] (w\<lparr>ow_next := Suc (ow_next w)\<rparr>))"

definition clock_Now :: "(nat \<Rightarrow> gotime) \<Rightarrow> 's otel_world \<Rightarrow> gotime \<times> 's otel_world" where
  "clock_Now now w = (now (ow_ticks w), w\<lparr>ow_ticks := Suc (ow_ticks w)\<rparr>)"

subsection \<open>Providers (\<open>shared/provider.go\<close>)\<close>

record providers_state =
  ps_tracer_live :: bool
  ps_meter_live :: bool
  ps_globals :: bool

record otel_deps =
  od_resource :: "go_error option"
  od_traceExporter :: "go_error option"
  od_tracerShutdown :: "go_error option"
  od_meterShutdown :: "go_error option"

definition providers_Shutdown :: "otel_deps \<Rightarrow> providers_state \<Rightarrow> go_error option \<times> providers_state" where
  "providers_Shutdown deps p =
     (let p1 = p\<lparr>ps_tracer_live := False\<rparr> in
      case od_tracerShutdown deps of
        Some err \<Rightarrow> (Some err, p1)
      | None \<Rightarrow> (od_meterShutdown deps, p1\<lparr>ps_meter_live := False\<rparr>))"

definition BuildProviders ::
    "otel_deps \<Rightarrow> providers_state \<Rightarrow>
     (providers_state \<Rightarrow> go_error option \<times> providers_state) res \<times> providers_state" where
  "BuildProviders deps p =
     (case od_resource deps of
        Some err \<Rightarrow> (Err (Wrapped ''build otel resource'' err), p)
      | None \<Rightarrow>
          (case od_traceExporter deps of
             Some err \<Rightarrow> (Err (Wrapped ''build trace exporter'' err), p)
           | None \<Rightarrow>
               (Ok (providers_Shutdown deps), \<lparr>ps_tracer_live = True, ps_meter_live = True, ps_globals = True\<rparr>)))"

lemma shutdown_leaves_meter:
  assumes "BuildProviders deps p = (Ok shutdown, p1)" "shutdown p1 = (err, p2)"
  shows "\<not> ps_tracer_live p2" "ps_meter_live p2 \<longleftrightarrow> od_tracerShutdown deps \<noteq> None"
    "err = (case od_tracerShutdown deps of Some e \<Rightarrow> Some e | None \<Rightarrow> od_meterShutdown deps)"
  using assms
  by (cases "od_tracerShutdown deps"; auto simp: BuildProviders_def providers_Shutdown_def Let_def split: option.splits)+

subsection \<open>Instruments\<close>

text \<open>The answers of the meter for the histogram and for the counter.\<close>

definition New_otel_sqs :: "go_error option \<Rightarrow> go_error option \<Rightarrow> unit res" where
  "New_otel_sqs histogramErr counterErr =
     (case histogramErr of Some err \<Rightarrow> Err err
      | None \<Rightarrow> (case counterErr of Some err \<Rightarrow> Err err | None \<Rightarrow> Ok ()))"

definition New_otel_http :: "go_error option \<Rightarrow> go_error option \<Rightarrow> unit res" where
  "New_otel_http histogramErr counterErr =
     (case histogramErr of Some err \<Rightarrow> Err (Wrapped ''create duration instrument'' err)
      | None \<Rightarrow>
          (case counterErr of Some err \<Rightarrow> Err (Wrapped ''create failure instrument'' err) | None \<Rightarrow> Ok ()))"

subsection \<open>HTTP handler (\<open>httpapi/handler.go\<close>)\<close>

type_synonym 's otel_use_case = "otel_ctx \<Rightarrow> string \<Rightarrow> 's otel_world \<Rightarrow> unit res \<times> 's otel_world"

definition otel_http_body ::
    "(nat \<Rightarrow> gotime) \<Rightarrow> 's otel_use_case \<Rightarrow> gotime \<Rightarrow> span_id \<Rightarrow> http_request \<Rightarrow> 's otel_world \<Rightarrow>
     http_response res \<times> 's otel_world" where
  "otel_http_body now useCase start sp req w =
     (let ctx = Some sp;
          attrs = [(''trigger'', ''http''), (''http.method'', v2_Method req), (''http.route'', v2_RawPath req)]
      in case useCase ctx (map_index (v2_PathParameters req) ''id'') (tell [SetAttributes sp attrs] w) of
           (Panicked m, w1) \<Rightarrow> (Panicked m, w1)
         | (r, w1) \<Rightarrow>
             (let (t, w2) = clock_Now now w1;
                  w3 = tell [LatencyRecord ctx (millis_between start t) attrs] w2
              in case r of
                   Err err \<Rightarrow>
                     (Ok (http_reply 500 (''{'' @ [CHR 0x22] @ ''message'' @ [CHR 0x22] @ '':'' @ [CHR 0x22] @
                        ''internal error'' @ [CHR 0x22] @ ''}'')),
                      tell [RecordError sp (error_text err), SetStatus sp CodeError ''create order failed'',
                            FailureAdd ctx 1 attrs] w3)
                 | _ \<Rightarrow> (Ok (http_reply 201 ''''), tell [SetStatus sp CodeOk ''ok''] w3)))"

definition otel_http_Handle ::
    "(nat \<Rightarrow> gotime) \<Rightarrow> 's otel_use_case \<Rightarrow> otel_ctx \<Rightarrow> http_request \<Rightarrow> 's otel_world \<Rightarrow>
     http_response res \<times> 's otel_world" where
  "otel_http_Handle now useCase ctx req w =
     (let (start, w1) = clock_Now now w;
          (sp, w2) = tracer_Start ctx ''http create-order'' w1;
          (r, w3) = otel_http_body now useCase start sp req w2
      in (r, tell [Ended sp] w3))"

subsection \<open>SQS handler (\<open>sqs/handler.go\<close>)\<close>

text \<open>What follows the use case, when it returns.\<close>

definition otel_record_finish ::
    "(nat \<Rightarrow> gotime) \<Rightarrow> span_id \<Rightarrow> (string \<times> string) list \<Rightarrow> gotime \<Rightarrow> go_error option \<Rightarrow> 's otel_world \<Rightarrow>
     verdict \<times> 's otel_world" where
  "otel_record_finish now sp attrs begun err w =
     (let (t, w1) = clock_Now now w;
          w2 = tell [LatencyRecord (Some sp) (millis_between begun t) attrs] w1
      in case err of
           Some e \<Rightarrow>
             (Failed, tell [RecordError sp (error_text e), SetStatus sp CodeError ''record failed'',
                FailureAdd (Some sp) 1 attrs, Ended sp] w2)
         | None \<Rightarrow> (Done, tell [SetStatus sp CodeOk ''ok'', Ended sp] w2))"

text \<open>The span of a record is ended by a statement, not by \<open>defer\<close>: a panic leaves it open.\<close>

definition otel_sqs_step ::
    "(nat \<Rightarrow> gotime) \<Rightarrow> 's otel_use_case \<Rightarrow> otel_ctx \<Rightarrow> sqs_message \<Rightarrow> 's otel_world \<Rightarrow> verdict \<times> 's otel_world" where
  "otel_sqs_step now useCase ctx r w =
     (let (begun, w1) = clock_Now now w;
          (sp, w2) = tracer_Start ctx ''sqs process record'' w1;
          attrs = [(''trigger'', ''sqs''), (''message_id'', sm_MessageId r), (''event_source'', sm_EventSourceARN r)]
      in case useCase (Some sp) (sm_Body r) (tell [SetAttributes sp attrs] w2) of
           (Panicked m, w3) \<Rightarrow> (Aborted m, w3)
         | (Err err, w3) \<Rightarrow> otel_record_finish now sp attrs begun (Some err) w3
         | (Ok _, w3) \<Rightarrow> otel_record_finish now sp attrs begun None w3)"

fun otel_sqs_loop ::
    "(nat \<Rightarrow> gotime) \<Rightarrow> 's otel_use_case \<Rightarrow> otel_ctx \<Rightarrow> sqs_message list \<Rightarrow> batch_failures \<Rightarrow> 's otel_world \<Rightarrow>
     batch_failures res \<times> 's otel_world" where
  "otel_sqs_loop now useCase ctx [] failures w = (Ok failures, w)"
| "otel_sqs_loop now useCase ctx (r # rs) failures w =
     (case otel_sqs_step now useCase ctx r w of
        (Aborted m, w1) \<Rightarrow> (Panicked m, w1)
      | (Failed, w1) \<Rightarrow> otel_sqs_loop now useCase ctx rs (failures @ [sm_MessageId r]) w1
      | (Done, w1) \<Rightarrow> otel_sqs_loop now useCase ctx rs failures w1)"

text \<open>The context of the batch span is dropped: the loop runs in the context of the handler.\<close>

definition otel_sqs_Handle ::
    "(nat \<Rightarrow> gotime) \<Rightarrow> 's otel_use_case \<Rightarrow> otel_ctx \<Rightarrow> sqs_message list \<Rightarrow> 's otel_world \<Rightarrow>
     batch_failures res \<times> 's otel_world" where
  "otel_sqs_Handle now useCase ctx records w =
     (let (batch, w1) = tracer_Start ctx ''sqs process batch'' w;
          (r, w2) = otel_sqs_loop now useCase ctx records [] w1
      in (r, tell [Ended batch] w2))"

interpretation otel_batch: record_loop "otel_sqs_loop now useCase ctx" "otel_sqs_step now useCase ctx"
    for now and useCase :: "'s otel_use_case" and ctx
  by unfold_locales (auto split: prod.split verdict.split)

subsection \<open>Spans are closed\<close>

fun started :: "otel_event list \<Rightarrow> span_id list" where
  "started [] = []"
| "started (Started n name parent # es) = n # started es"
| "started (e # es) = started es"

fun ended :: "otel_event list \<Rightarrow> span_id list" where
  "ended [] = []"
| "ended (Ended n # es) = n # ended es"
| "ended (e # es) = ended es"

text \<open>Between the two worlds, each span that was started was ended, and no other.\<close>

definition spans_closed :: "'s otel_world \<Rightarrow> 's otel_world \<Rightarrow> bool" where
  "spans_closed w w' \<longleftrightarrow>
     (\<exists>es. ow_events w' = ow_events w @ es \<and> mset (started es) = mset (ended es))"

definition closes_spans :: "'s otel_use_case \<Rightarrow> bool" where
  "closes_spans useCase \<longleftrightarrow>
     (\<forall>c i u. \<not> (\<exists>m. fst (useCase c i u) = Panicked m) \<longrightarrow> spans_closed u (snd (useCase c i u)))"

lemma started_append [simp]: "started (es @ fs) = started es @ started fs"
  by (induction es rule: started.induct) simp_all

lemma ended_append [simp]: "ended (es @ fs) = ended es @ ended fs"
  by (induction es rule: ended.induct) simp_all

lemma spans_closed_refl: "spans_closed w w"
  unfolding spans_closed_def by (rule exI [of _ "[]"]) simp

lemma spans_closed_trans:
  assumes "spans_closed u v" "spans_closed v w"
  shows "spans_closed u w"
proof -
  obtain es fs where "ow_events v = ow_events u @ es" "mset (started es) = mset (ended es)"
    "ow_events w = ow_events v @ fs" "mset (started fs) = mset (ended fs)"
    using assms by (auto simp: spans_closed_def)
  then show ?thesis unfolding spans_closed_def by (intro exI [of _ "es @ fs"]) simp
qed

lemma closed_use_case: "closes_spans useCase \<Longrightarrow> useCase c i u = (r, u') \<Longrightarrow> \<not> (\<exists>m. r = Panicked m) \<Longrightarrow> spans_closed u u'"
  by (metis closes_spans_def fst_conv snd_conv)

lemma finish_events:
  assumes "otel_record_finish now sp attrs begun err w = (v, w')"
  shows "\<exists>fs. ow_events w' = ow_events w @ fs \<and> started fs = [] \<and> ended fs = [sp]"
  using assms by (auto simp: otel_record_finish_def clock_Now_def tell_def Let_def split: option.splits)

lemma otel_step_closed:
  assumes "closes_spans useCase" "otel_sqs_step now useCase ctx r w = (v, w')" "v \<in> {Done, Failed}"
  shows "spans_closed w w'"
proof -
  let ?sp = "ow_next w"
  let ?attrs = "[(''trigger'', ''sqs''), (''message_id'', sm_MessageId r), (''event_source'', sm_EventSourceARN r)]"
  let ?w2 = "tell [SetAttributes ?sp ?attrs] (snd (tracer_Start ctx ''sqs process record'' (snd (clock_Now now w))))"
  obtain x w3 where x: "useCase (Some ?sp) (sm_Body r) ?w2 = (x, w3)" by fastforce
  have run: "(v, w') = (case x of Panicked m \<Rightarrow> (Aborted m, w3)
      | Err err \<Rightarrow> otel_record_finish now ?sp ?attrs (now (ow_ticks w)) (Some err) w3
      | Ok _ \<Rightarrow> otel_record_finish now ?sp ?attrs (now (ow_ticks w)) None w3)"
    using assms(2) x by (cases x) (simp_all add: otel_sqs_step_def clock_Now_def tracer_Start_def Let_def)
  then have calm: "\<not> (\<exists>m. x = Panicked m)" using assms(3) by auto
  from closed_use_case [OF assms(1) x this] obtain es where es: "ow_events w3 = ow_events ?w2 @ es"
    "mset (started es) = mset (ended es)" by (auto simp: spans_closed_def)
  have w2: "ow_events ?w2 = ow_events w @ [Started ?sp ''sqs process record'' ctx, SetAttributes ?sp ?attrs]"
    by (simp add: tell_def tracer_Start_def clock_Now_def)
  obtain fs where fs: "ow_events w' = ow_events w3 @ fs" "started fs = []" "ended fs = [?sp]"
  proof -
    obtain err where "otel_record_finish now ?sp ?attrs (now (ow_ticks w)) err w3 = (v, w')"
      using run calm by (cases x) auto
    from finish_events [OF this] that show thesis by blast
  qed
  show ?thesis
    unfolding spans_closed_def using es fs w2
    by (intro exI [of _ "[Started ?sp ''sqs process record'' ctx, SetAttributes ?sp ?attrs] @ es @ fs"]) simp
qed

lemma otel_batch_closed:
  assumes "closes_spans useCase" "otel_sqs_loop now useCase ctx rs failures w = (Ok failures', w')"
  shows "spans_closed w w'"
  using assms(2)
proof (induction rs arbitrary: failures w)
  case Nil
  then show ?case by (simp add: spans_closed_refl)
next
  case (Cons r rs)
  obtain v w1 where v: "otel_sqs_step now useCase ctx r w = (v, w1)" by fastforce
  with Cons.prems obtain fs where "v \<in> {Done, Failed}" "otel_sqs_loop now useCase ctx rs fs w1 = (Ok failures', w')"
    by (auto split: verdict.splits)
  then show ?case using spans_closed_trans [OF otel_step_closed [OF assms(1) v] Cons.IH] by blast
qed

end
