(* ===== verification/Example_Properties.thy ===== *)
theory Example_Properties
  imports Example_Errors Example_Orders Example_Logging Example_Otel
begin





definition silent_use_case :: "nat otel_use_case" where
  "silent_use_case c i u =
     (if i = ''bad'' then Err (Opaque ''no'') else Ok (), u\<lparr>ow_state := Suc (ow_state u)\<rparr>)"

definition two_messages :: "sqs_message list" where
  "two_messages = [\<lparr>sm_MessageId = ''m1'', sm_Body = ''bad'', sm_EventSourceARN = ''q''\<rparr>,
     \<lparr>sm_MessageId = ''m2'', sm_Body = ''{}'', sm_EventSourceARN = ''q''\<rparr>]"


definition idle_otel :: "nat otel_world" where
  "idle_otel = \<lparr>ow_state = 0, ow_next = 0, ow_ticks = 0, ow_events = []\<rparr>"



text \<open>
  The spans of a batch: those of the records are not children of the span of the batch, whose
  context is dropped, but its siblings.
\<close>

lemma record_spans_are_siblings:
  "filter (\<lambda>e. case e of Started _ _ _ \<Rightarrow> True | _ \<Rightarrow> False)
     (ow_events (snd (otel_sqs_Handle now silent_use_case (Some 7) two_messages (idle_otel\<lparr>ow_next := 8\<rparr>)))) =
   [Started 8 ''sqs process batch'' (Some 7), Started 9 ''sqs process record'' (Some 7),
    Started 10 ''sqs process record'' (Some 7)]"
  by (simp add: otel_sqs_Handle_def otel_sqs_step_def otel_record_finish_def tracer_Start_def clock_Now_def tell_def
      silent_use_case_def two_messages_def idle_otel_def Let_def)


end
