(* ===== verification/Spec2Isabelle.thy ===== *)
theory Spec2Isabelle
  imports Accounts Platform Entities Repository_Properties Session_Properties Race_Properties Example_Properties
begin

text \<open>
  \<^bold>\<open>The program.\<close>  spec-star-go is a wallet for fixed-income assets, run as one AWS Lambda behind an
  HTTP gateway.  \<open>POST /deposits\<close> buys a lot (a position) of an asset for a client;
  \<open>POST /withdrawals\<close> sells value of an instrument out of the client's lots, first bought first sold.
  Every command carries an order id under which its response is stored, so that a repetition is
  answered from the record.  The code is hexagonal: entities in \<open>internal/domain\<close>, interfaces in
  \<open>internal/ports\<close>, the two commands in \<open>internal/application\<close>, the HTTP handlers in
  \<open>internal/adapters/inbound/httphandler\<close>, the PostgreSQL repositories in
  \<open>internal/adapters/outbound/postgres\<close>, logging, configuration and telemetry in
  \<open>internal/platform\<close>, and the wiring in \<open>cmd/http-lambda/main.go\<close>.

  \<^bold>\<open>The model.\<close>  Names are those of the source; a method \<open>T.M\<close> is \<open>T_M\<close>.  An error is a value of
  \<open>go_error\<close> (sentinel, wrapped, joined, SQLSTATE), a result is \<open>res\<close>: \<open>Ok\<close>, \<open>Err\<close> or
  \<open>Panicked\<close>, and what \<open>Execute\<close> returns is \<open>exec\<close>.  All effects go through \<open>world\<close>: the store
  of the adapters, a counter that indexes every answer of the surroundings (clock, UUIDs, faults
  of the driver), the list of telemetry events (spans, logs, metrics), the default logger and the
  cold start flag.  A closure passed to \<open>UnitOfWork.Do\<close> is a function on worlds; deferred calls
  are run on every way out, a panic included.

  \<^item> \<open>Prelude\<close>, \<open>Go_Std\<close>: shared lemmas and collections; what the source uses of Go's standard
    library (errors, formatting, time, HTTP statuses), contexts, telemetry events, the world.
  \<^item> \<open>Decimal\<close>: the interface of the decimal library as the locale \<open>decimal_arith\<close> (documented
    laws over the rationals), interpreted by scaled integers.
  \<^item> \<open>Domain\<close>: the entities with constructors, reconstruction, validation and mutators.
    Row versions are 64-bit words, as the Go integer is.
  \<^item> \<open>Json\<close>, \<open>Dto\<close>: the encoder and the decoder of \<open>encoding/json\<close> as far as they are used, on byte
    strings, with case folding of names, duplicate members and the depth limit; the position DTO.
  \<^item> \<open>Ports\<close>: the interfaces as records of operations, the environment, spans, the logger.
  \<^item> \<open>Deposit\<close>, \<open>Withdraw\<close>: the two services, every early return and log included; the
    eligibility loop, the FIFO loop and the update loop are recursions on the lots.
  \<^item> \<open>Postgres\<close>: the tables of \<open>migrations/001_initial_schema.sql\<close> as lists of rows with their
    constraints and column types, each SQL statement as a function on them, the repositories, and
    \<open>TransactionRunner.Do\<close>.  At each round trip other sessions may change the tables and the driver
    may fault; a failed commit may or may not have taken effect; a stream of rows may break off.
  \<^item> \<open>Handlers\<close>: the HTTP handlers, the metrics, the per-request logger, the router.
  \<^item> \<open>Platform\<close>: configuration from the environment with the parsers of \<open>strconv\<close> and \<open>time\<close>, the
    pool configuration, the log handler, the telemetry set-up and the start of \<open>main\<close>.

  \<^bold>\<open>The examples.\<close>  The repository carries four small programs for coding agents under
  \<open>.github/skills\<close>, each with an HTTP and an SQS handler.  \<open>Example_Events\<close>: the events they share
  and the contract of a loop over a batch (locale \<open>record_loop\<close>).  \<open>Example_Errors\<close>: error values,
  statuses, FIFO and standard queues.  \<open>Example_Orders\<close>: the hexagonal order service with its
  DynamoDB item, \<open>strings.TrimSpace\<close> included.  \<open>Example_Logging\<close>: the logger factory and both handlers
  with their records.  \<open>Example_Otel\<close>: providers, spans with parents, metrics.  The use cases, the
  DynamoDB client and the SDK are arguments.

  \<^bold>\<open>The library.\<close>
  \<^item> \<open>Lots\<close>: the specification \<open>fifo_outcome\<close> of the FIFO loop and the proof that the loop meets it.
  \<^item> \<open>Contracts\<close>: the locales \<open>world_pred\<close>, \<open>ports_inv\<close> and \<open>isolated_ports\<close>, what the services need of
    their ports, with the services' lemmas proved inside; the statuses each command can give.
  \<^item> \<open>Store_Laws\<close>: the locales \<open>table_inv\<close>, \<open>undisturbed_session\<close> and \<open>alone_session\<close>, what the adapters
    promise, by \<open>sublocale\<close> the contracts of the services; interpreted for the schema's
    constraints (\<open>db_ok\<close>) and for growth (\<open>extends_db\<close>).
  \<^item> \<open>Wallet\<close>: these carried through the handlers and the router to \<open>wallet_lambda\<close>.
  \<^item> \<open>Snapshot\<close>: what a \<open>JSONB\<close> column may do to a document (\<open>jsonb_text\<close>), and the way back.
  \<^item> \<open>Effects\<close>, \<open>Accounts\<close>: what a successful command has done to the tables, step by step; the value
    a client holds in an instrument, and the account specification \<open>account_step\<close>.
  \<^item> \<open>Liveness\<close>: sufficient conditions for success on a server that answers (\<open>quiet\<close>, \<open>pg_text\<close>).
  \<^item> \<open>Telemetry\<close>: the locale \<open>telemetry\<close>, properties of event sequences that every adapter and service
    keeps, interpreted for balanced spans without metrics.
  \<^item> \<open>Calm\<close>: nothing panics.
  \<^item> \<open>Sessions\<close>: sequences of requests with other writers and restarts between them (the inductive
    relation \<open>session\<close>), the record of an order and the body it is answered with, and the abstract
    machine \<open>ledger_step\<close> with the proof that each request is a step of it.
  \<^item> \<open>Races\<close>: commands under interference.  Other sessions may commit between any two statements of
    ours as long as they are \<open>civil\<close>; the invariant \<open>in_step\<close> relates the view of our transaction to
    the committed tables; each command is followed through its unit of work, the lost race for the
    unique index and the lost race for a row version included.
  \<^item> \<open>Reference\<close>: a concrete environment and server that meet all hypotheses, used by the witnesses.

  \<^bold>\<open>The properties.\<close>  Below: the effects of the commands and the refinement of the accounts,
  idempotence, failure atomicity, the invariants of the tables.  \<open>Lot_Properties\<close>: the
  allocation and where its rounding shows.  \<open>Entities\<close>: the life of a position,
  reconstruction, validation as tables of checks.  \<open>Repository_Properties\<close>: optimistic locking, the
  lot query, reading back, lookups, duplicates, the atomic unit of work, the scale of amounts.
  \<open>Http_Properties\<close>: answers, refusals, spans, metrics, decoding.  \<open>Session_Properties\<close>: whole
  sessions, each order executed once, and the refinement of the ledger.  \<open>Race_Properties\<close>: what a
  command that races others is answered, and progress without them.  \<open>Platform\<close>: configuration,
  telemetry set-up, start-up.  \<open>Example_Errors\<close>, \<open>Example_Orders\<close>, \<open>Example_Properties\<close>: the examples.

  \<^bold>\<open>Bounds and fuel.\<close>  The JSON parser has one unit of fuel per call, and twice the length of the text
  plus one is given: \<open>json_parse_fuel\<close> proves that more makes no difference.  All other recursion is
  structural or terminates by the length of its text.  \<open>quantum\<close>, half a unit of the sixth decimal
  plus half a unit of the sixteenth, is what rounding to six decimals after a division with
  sixteen can be off.

  \<^bold>\<open>Not modelled.\<close>  The decimal library, PostgreSQL's text forms and the driver are parameters with
  documented laws, as are the clock, UUIDs, the texts of library errors, pgxpool and the
  OpenTelemetry SDK.  The code uses no isolation level above read committed, deadlocks appear as
  faults of the driver, and no statement follows a failed one in a transaction, so the aborted
  state of a transaction is not modelled.  In a session the requests come one after the other;
  what other sessions do at the same time enters at the round trips of a request and between
  requests.  A transaction a panic leaves open is never committed, and the next request gets
  another connection.  The JSON log handler, the Lambda runtime, the container files and the tests
  are left out: they hold no logic of the wallet.  Of the examples, the \<open>Recorder\<close> interface, which
  nothing uses, and the one-line constructor of a logger are left out.  The tracer and the meter
  the HTTP tracing example puts into its struct type are not Go; the model has the handler
  without them.
\<close>

section \<open>Properties of the whole wallet\<close>

subsection \<open>Effects\<close>

text \<open>C3. A deposit answered 201 has exactly the effect it reports, under any faults of the
  driver, when no other session interferes: the request is valid, the committed tables gain one
  position (a position of the client and the asset with the amount and price of the request, no
  collateral and version 1, which the response shows) and one DEPOSIT command under the order id
  with the JSON of that response, and nothing else changes.\<close>

theorem deposit_effect:
  assumes "DepositService_Execute E (wallet_deposit_service E S) ctx req w = (Success resp 201, w')"
    and "\<And>k d. sv_interfere S k d = d" and "st_tx (w_store w) = None"
  shows "\<exists>c a amt pr p cols cmd. validateDepositRequest E req = Ok (c, a, amt, pr) \<and>
    pos_clientID p = c \<and> pos_assetID p = a \<and> pos_amount p = amt \<and> pos_unitPrice p = pr \<and>
    pos_totalValue p = d_Mul (e_dec E) amt pr \<and> pos_collateralValue p = d_Zero (e_dec E) \<and>
    pos_judiciaryCollateralValue p = d_Zero (e_dec E) \<and> pos_rowVersion p = 1 \<and>
    resp = position_to_dto E p \<and> numeric_columns E S p = Ok cols \<and>
    k_command_type cmd = ''DEPOSIT'' \<and> k_order_id cmd = dr_OrderID req \<and> k_client_id cmd = c \<and>
    sv_jsonb S (json_print (dto_json resp)) = Some (k_response_snapshot cmd) \<and>
    committed w' = (committed w)\<lparr>db_positions := db_positions (committed w) @ [inserted_row S p cols],
      db_commands := db_commands (committed w) @ [cmd]\<rparr> \<and> st_tx (w_store w') = None"
  using assms
proof (rule deposit_rows)
  fix c a amt pr p cols cmd
  show ?thesis if "validateDepositRequest E req = Ok (c, a, amt, pr)" "pos_clientID p = c" "pos_assetID p = a"
      "pos_amount p = amt" "pos_unitPrice p = pr" "pos_totalValue p = d_Mul (e_dec E) amt pr"
      "pos_collateralValue p = d_Zero (e_dec E)" "pos_judiciaryCollateralValue p = d_Zero (e_dec E)"
      "pos_rowVersion p = 1" "resp = position_to_dto E p" "numeric_columns E S p = Ok cols"
      "k_command_type cmd = commandTypeDeposit" "k_order_id cmd = dr_OrderID req" "k_client_id cmd = c"
      "sv_jsonb S (json_print (dto_json resp)) = Some (k_response_snapshot cmd)"
      "committed w' = (committed w)\<lparr>db_positions := db_positions (committed w) @ [inserted_row S p cols],
        db_commands := db_commands (committed w) @ [cmd]\<rparr>" "st_tx (w_store w') = None"
    using that by (intro exI [of _ c] exI [of _ a] exI [of _ amt] exI [of _ pr] exI [of _ p] exI [of _ cols]
        exI [of _ cmd]) (simp add: commandTypeDeposit_def)
qed

theorem deposit_effect_witness:
  "\<exists>w' row cmd. committed w' = demo_db\<lparr>db_positions := db_positions demo_db @ [row],
      db_commands := db_commands demo_db @ [cmd]\<rparr> \<and> k_order_id cmd = ''order-1''"
proof -
  obtain resp w' where run: "DepositService_Execute ref_env (wallet_deposit_service ref_env ref_server)
      demo_ctx demo_deposit (demo_world demo_db) = (Success resp 201, w')"
    using demo_deposit_201 by blast
  have "st_tx (w_store (demo_world demo_db)) = None" by simp
  from deposit_effect [OF run ref_server_fields(1) this] show ?thesis
    by (fastforce simp: demo_deposit_def)
qed

text \<open>C4. A withdrawal answered 200 under a fresh order id has exactly the effect it reports, with
  this session alone on the server and under any faults of the driver: the request is valid; the
  client's lots of the instrument with free value are consumed in the order of their purchase,
  each of the touched ones reduced within its holding; their rows are replaced by the new
  amounts, totals, times and versions; the response shows the touched lots; one WITHDRAW command
  is recorded under the order id with the JSON of the response; and nothing else changes.\<close>

theorem withdraw_effect:
  assumes "pg_text D val S" "e_dec E = D" "\<And>k d. sv_interfere S k d = d" "\<And>k. \<not> sv_commit_applied S k"
    and "WithdrawService_Execute E (wallet_withdraw_service E S) ctx req w = (Success resp s, w')" "\<not> ctx_tx ctx"
    and "db_ok (committed w)" "st_tx (w_store w) = None"
    and "(''WITHDRAW'', wq_OrderID req) \<notin> (\<lambda>r. (k_command_type r, k_order_id r)) ` set (db_commands (committed w))"
  shows "\<exists>c x lots sold cmd. validateWithdrawRequest E req = Ok (c, x) \<and>
    lots = eligible_rows c (wq_InstrumentID req) (committed w) \<and>
    sold \<noteq> [] \<and> length sold \<le> length lots \<and> list_all2 (sold_from val) (take (length sold) lots) sold \<and>
    resp = toWithdrawResponse E sold \<and>
    k_command_type cmd = ''WITHDRAW'' \<and> k_order_id cmd = wq_OrderID req \<and> k_client_id cmd = c \<and>
    sv_jsonb S (json_print (withdraw_response_json resp)) = Some (k_response_snapshot cmd) \<and>
    committed w' = (committed w)\<lparr>
      db_positions := fold put_row (map2 (sold_row S val) sold lots) (db_positions (committed w)),
      db_commands := db_commands (committed w) @ [cmd]\<rparr>"
proof -
  have "alone_session S" using assms(3,4) by (rule alone_sessionI)
  from this assms(5,6,8,9) obtain c x v v' where val: "validateWithdrawRequest E req = Ok (c, x)"
    and v: "committed v = committed w" "committed w' = committed v'"
    and run: "TransactionRunner_Do S ctx (withdraw_tx E (wallet_withdraw_service E S) req c x) v = (Ok resp, v')"
    unfolding commandTypeWithdraw_def [symmetric] by (rule alone_session.fresh_withdraw)
  have x: "0 < val x" using validated_withdraw(2) [OF val] assms(1,2) by (simp add: pg_text_def)
  show ?thesis
    by (rule pg_text.withdraw_Do_effect [OF assms(1,2,3) _ x run], simp only: v(1) assms(7))
      (rule exI [of _ c], rule exI [of _ x], rule exI [of _ "eligible_rows c (wq_InstrumentID req) (committed w)"],
        auto simp: val v commandTypeWithdraw_def)
qed

theorem withdraw_effect_witness:
  "\<exists>w' sold cmd. committed w' = demo_lots_db\<lparr>db_positions := fold put_row (map2 (sold_row ref_server ref_val) sold
        (eligible_rows 7 ''CDB-9'' demo_lots_db)) (db_positions demo_lots_db), db_commands := [cmd]\<rparr> \<and>
     sold \<noteq> [] \<and> k_order_id cmd = ''order-2''"
proof -
  obtain resp w' where run: "WithdrawService_Execute ref_env (wallet_withdraw_service ref_env ref_server)
      demo_ctx demo_withdraw (demo_world demo_lots_db) = (Success resp 200, w')"
    using demo_withdraw_200 by blast
  have "db_ok (committed (demo_world demo_lots_db))" "st_tx (w_store (demo_world demo_lots_db)) = None"
    and none: "db_commands demo_lots_db = []"
    by (simp_all add: demo_lots_db_ok) (simp add: demo_lots_db_def demo_db_def)
  moreover from none have "(''WITHDRAW'', wq_OrderID demo_withdraw) \<notin>
      (\<lambda>r. (k_command_type r, k_order_id r)) ` set (db_commands (committed (demo_world demo_lots_db)))" by simp
  ultimately obtain c x lots sold cmd where "validateWithdrawRequest ref_env demo_withdraw = Ok (c, x)"
    "lots = eligible_rows c (wq_InstrumentID demo_withdraw) demo_lots_db" "sold \<noteq> []"
    "k_order_id cmd = wq_OrderID demo_withdraw"
    "committed w' = demo_lots_db\<lparr>db_positions := fold put_row (map2 (sold_row ref_server ref_val) sold lots)
      (db_positions demo_lots_db), db_commands := db_commands demo_lots_db @ [cmd]\<rparr>"
    using withdraw_effect [OF reft.pg_text_axioms ref_fields(1) ref_server_fields(1,3) run demo_ctx_tx]
    by auto
  with none show ?thesis by (auto simp: demo_withdraw_valid) (auto simp: demo_withdraw_def)
qed

subsection \<open>Accounts\<close>



text \<open>C17. A withdrawal answered 200 under a fresh order id debits the client's account in the
  instrument, and no other, by the desired value up to one rounding quantum per touched lot.\<close>

theorem withdraw_debits:
  assumes "pg_text D val S" "e_dec E = D" "\<And>k d. sv_interfere S k d = d" "\<And>k. \<not> sv_commit_applied S k"
    and "WithdrawService_Execute E (wallet_withdraw_service E S) ctx req w = (Success resp s, w')" "\<not> ctx_tx ctx"
    and "db_ok (committed w)" "st_tx (w_store w) = None"
    and "(''WITHDRAW'', wq_OrderID req) \<notin> (\<lambda>r. (k_command_type r, k_order_id r)) ` set (db_commands (committed w))"
  shows "\<exists>c x t. validateWithdrawRequest E req = Ok (c, x) \<and>
    holding (committed w') = credit c (wq_InstrumentID req) (- t) (holding (committed w)) \<and>
    \<bar>val x - t\<bar> \<le> quantum * (\<Sum>r \<leftarrow> take (length (wr_Positions resp))
      (eligible_rows c (wq_InstrumentID req) (committed w)). p_unit_price r)"
proof -
  have "alone_session S" using assms(3,4) by (rule alone_sessionI)
  from this assms(5,6,8,9) obtain c x v v' where val: "validateWithdrawRequest E req = Ok (c, x)"
    and v: "committed v = committed w" "committed w' = committed v'"
    and run: "TransactionRunner_Do S ctx (withdraw_tx E (wallet_withdraw_service E S) req c x) v = (Ok resp, v')"
    unfolding commandTypeWithdraw_def [symmetric] by (rule alone_session.fresh_withdraw)
  have x: "0 < val x" using validated_withdraw(2) [OF val] assms(1,2) by (simp add: pg_text_def)
  have "db_ok (committed v)" by (simp add: v assms(7))
  from pg_text.withdraw_debit [OF assms(1,2,3) this x run] obtain t where
    "holding (committed v') = credit c (wq_InstrumentID req) (- t) (holding (committed v))"
    "\<bar>val x - t\<bar> \<le> quantum * (\<Sum>r \<leftarrow> take (length (wr_Positions resp))
       (eligible_rows c (wq_InstrumentID req) (committed v)). p_unit_price r)" by metis
  with val show ?thesis by (auto simp: v)
qed

theorem withdraw_debits_witness:
  "\<exists>resp w' t. WithdrawService_Execute ref_env (wallet_withdraw_service ref_env ref_server) demo_ctx demo_withdraw
      (demo_world demo_lots_db) = (Success resp 200, w') \<and>
    holding (committed w') = credit 7 ''CDB-9'' (- t) (holding demo_lots_db)"
proof -
  obtain resp w' where run: "WithdrawService_Execute ref_env (wallet_withdraw_service ref_env ref_server)
      demo_ctx demo_withdraw (demo_world demo_lots_db) = (Success resp 200, w')"
    using demo_withdraw_200 by blast
  have "db_commands demo_lots_db = []" by (simp add: demo_lots_db_def demo_db_def)
  with withdraw_debits [OF reft.pg_text_axioms ref_fields(1) ref_server_fields(1,3) run demo_ctx_tx] run
  show ?thesis by (auto simp: demo_lots_db_ok demo_withdraw_valid) (auto simp: demo_withdraw_def)
qed

text \<open>C18. A deposit answered 201 credits the client's account in the asset's instrument, and no
  other, by amount times price rounded to the eight digits of the column; and it is answered so
  only if the columns' rounding keeps the total equal to amount times price.\<close>

theorem deposit_credits:
  assumes "pg_text D val S" "e_dec E = D" "\<And>k d. sv_interfere S k d = d"
    and "DepositService_Execute E (wallet_deposit_service E S) ctx req w = (Success resp 201, w')"
    and "db_ok (committed w)" "st_tx (w_store w) = None"
  shows "\<exists>c a amt pr asset. validateDepositRequest E req = Ok (c, a, amt, pr) \<and>
    asset \<in> set (db_assets (committed w)) \<and> a_asset_id asset = a \<and>
    round_places 8 (val amt * val pr) = round_places 6 (val amt) * round_places 8 (val pr) \<and>
    holding (committed w') =
      credit c (a_instrument_id asset) (round_places 8 (val amt * val pr)) (holding (committed w))"
  using pg_text.deposit_credit [OF assms(1,4,2,3,6,5)] by metis

theorem deposit_credits_witness:
  "\<exists>resp w'. DepositService_Execute ref_env (wallet_deposit_service ref_env ref_server) demo_ctx demo_deposit
      (demo_world demo_db) = (Success resp 201, w') \<and>
    holding (committed w') = credit 7 ''CDB-9'' (189 / 8) (holding demo_db)"
proof -
  obtain resp w' where run: "DepositService_Execute ref_env (wallet_deposit_service ref_env ref_server)
      demo_ctx demo_deposit (demo_world demo_db) = (Success resp 201, w')"
    using demo_deposit_201 by blast
  have ok: "db_ok (committed (demo_world demo_db))" "st_tx (w_store (demo_world demo_db)) = None"
    by (simp_all add: db_ok_def demo_db_def demo_client_def demo_asset_def asset_checks_def)
  have num: "round_places 8 (189 / 8) = 189 / 8" by (rule round_places_grid) (simp_all add: on_grid_def)
  from deposit_credits [OF reft.pg_text_axioms ref_fields(1) ref_server_fields(1) run ok] run num show ?thesis
    by (auto simp: demo_deposit_valid) (auto simp: demo_db_def demo_asset_def)
qed

subsection \<open>Idempotence\<close>

text \<open>C9. A deposit order is executed at most once, and its answer is repeatable.  After any
  successful answer to a deposit (fresh or replayed), a later valid request under the same order
  id, on a store that only grew since, is answered 200 with the same response and commits
  nothing of its own, whatever its other fields say.\<close>

theorem deposit_idempotent:
  assumes first: "DepositService_Execute E (wallet_deposit_service E S) ctx req w = (Success resp s, w')"
    "\<not> ctx_tx ctx"
    and surroundings: "decimal_arith (e_dec E) val" "uuid_texts E" "jsonb_text (sv_jsonb S)" "growing S"
    and later: "extends_db (committed w') (committed v)" "sv_fault S (w_tick v) = None" "\<not> ctx_tx ctx'"
    and again: "dr_OrderID req' = dr_OrderID req" "validateDepositRequest E req' = Ok y"
  shows "\<exists>v'. DepositService_Execute E (wallet_deposit_service E S) ctx' req' v = (Success resp 200, v') \<and>
    committed v' = sv_interfere S (w_tick v) (committed v)"
proof -
  have "recorded commandTypeDeposit (dr_OrderID req) (deserializeSnapshot E) resp w'"
    using first surroundings by (rule deposit_answer_recorded)
  then obtain r where r: "select_command commandTypeDeposit (dr_OrderID req) (committed w') = Ok r"
    "deserializeSnapshot E (k_response_snapshot r) = Success resp 200" by (auto simp: recorded_def)
  have "extends_db (committed w') (sv_interfere S (w_tick v) (committed v))"
    using later(1) surroundings(4) extends_db_trans by (auto simp: growing_def)
  from select_command_extends [OF this r(1)]
  have "select_command commandTypeDeposit (dr_OrderID req') (sv_interfere S (w_tick v) (committed v)) = Ok r"
    by (simp add: again(1))
  from deposit_hit [OF again(2) later(2,3) this] r(2) show ?thesis
    by (cases "DepositService_Execute E (wallet_deposit_service E S) ctx' req' v") auto
qed

theorem deposit_idempotent_witness:
  "\<exists>resp w' v'. DepositService_Execute ref_env (wallet_deposit_service ref_env ref_server) demo_ctx
      demo_deposit (demo_world demo_db) = (Success resp 201, w') \<and>
    DepositService_Execute ref_env (wallet_deposit_service ref_env ref_server) demo_ctx demo_deposit w' =
      (Success resp 200, v') \<and> committed v' = committed w'"
proof -
  obtain resp w' where run: "DepositService_Execute ref_env (wallet_deposit_service ref_env ref_server)
      demo_ctx demo_deposit (demo_world demo_db) = (Success resp 201, w')"
    using demo_deposit_201 by blast
  have dec: "decimal_arith (e_dec ref_env) ref_val" using refd.decimal_arith_axioms by simp
  show ?thesis
    using deposit_idempotent [OF run demo_ctx_tx dec ref_uuid_texts ref_jsonb_text quiet_growing [OF ref_quiet]
        extends_db_refl ref_server_fields(2) demo_ctx_tx refl demo_deposit_valid] run by auto
qed

text \<open>C10. A withdrawal order is executed at most once, and its answer is repeatable: after any
  successful answer to a withdrawal, a later valid request under the same order id, on a store
  that only grew since, is answered 200 with the same positions and commits nothing of its own.\<close>

theorem withdraw_idempotent:
  assumes first: "WithdrawService_Execute E (wallet_withdraw_service E S) ctx req w = (Success resp s, w')"
    "\<not> ctx_tx ctx"
    and surroundings: "decimal_arith (e_dec E) val" "uuid_texts E" "jsonb_text (sv_jsonb S)" "growing S"
    and later: "extends_db (committed w') (committed v)" "sv_fault S (w_tick v) = None" "\<not> ctx_tx ctx'"
    and again: "wq_OrderID req' = wq_OrderID req" "validateWithdrawRequest E req' = Ok y"
  shows "\<exists>v'. WithdrawService_Execute E (wallet_withdraw_service E S) ctx' req' v = (Success resp 200, v') \<and>
    committed v' = sv_interfere S (w_tick v) (committed v)"
proof -
  have "recorded commandTypeWithdraw (wq_OrderID req) (deserializeWithdrawSnapshot E) resp w'"
    using first surroundings by (rule withdraw_answer_recorded)
  then obtain r where r: "select_command commandTypeWithdraw (wq_OrderID req) (committed w') = Ok r"
    "deserializeWithdrawSnapshot E (k_response_snapshot r) = Success resp 200" by (auto simp: recorded_def)
  have "extends_db (committed w') (sv_interfere S (w_tick v) (committed v))"
    using later(1) surroundings(4) extends_db_trans by (auto simp: growing_def)
  from select_command_extends [OF this r(1)]
  have "select_command commandTypeWithdraw (wq_OrderID req') (sv_interfere S (w_tick v) (committed v)) = Ok r"
    by (simp add: again(1))
  from withdraw_hit [OF again(2) later(2,3) this] r(2) show ?thesis
    by (cases "WithdrawService_Execute E (wallet_withdraw_service E S) ctx' req' v") auto
qed


theorem withdraw_idempotent_witness:
  "\<exists>resp w' v'. WithdrawService_Execute ref_env (wallet_withdraw_service ref_env ref_server) demo_ctx
      demo_withdraw (demo_world demo_lots_db) = (Success resp 200, w') \<and>
    WithdrawService_Execute ref_env (wallet_withdraw_service ref_env ref_server) demo_ctx demo_withdraw w' =
      (Success resp 200, v') \<and> committed v' = committed w'"
proof -
  obtain resp w' where run: "WithdrawService_Execute ref_env (wallet_withdraw_service ref_env ref_server)
      demo_ctx demo_withdraw (demo_world demo_lots_db) = (Success resp 200, w')"
    using demo_withdraw_200 by blast
  have dec: "decimal_arith (e_dec ref_env) ref_val" using refd.decimal_arith_axioms by simp
  show ?thesis
    using withdraw_idempotent [OF run demo_ctx_tx dec ref_uuid_texts ref_jsonb_text quiet_growing [OF ref_quiet]
        extends_db_refl ref_server_fields(2) demo_ctx_tx refl demo_withdraw_valid] run by auto
qed

subsection \<open>Atomicity and invariants of the tables\<close>





text \<open>C13. Nothing recorded is taken back.  Whatever a request does, and whatever it answers, the
  committed tables afterwards extend those before: clients, assets and commands keep their rows
  in place, every lot keeps its identity, owner, asset, creation and purchase time, and a lot
  whose row changed has a higher version, so that an equal version means an equal row.\<close>

theorem history_preserved:
  assumes "growing S" "st_tx (w_store w) = None"
  shows "extends_db (committed w) (committed (snd (wallet_lambda E S base ctx req w)))"
  using assms by (rule lambda_extends)

theorem history_preserved_witness:
  "extends_db demo_lots_db (committed (snd (wallet_lambda ref_env ref_server [] demo_ctx
     \<lparr>rq_Method = ''POST'', rq_Path = ''/withdrawals'', rq_Body = ''{}''\<rparr> (demo_world demo_lots_db))))"
  using history_preserved [OF quiet_growing [OF ref_quiet], of "demo_world demo_lots_db" ref_env "[]" demo_ctx]
  by simp

end
